(* ===== verification/Prelude.thy ===== *)
theory Prelude
  imports Main "HOL-Library.Word"
begin

text \<open>
  Shared vocabulary of the development: the fixed-width integer types of the sources, the
  short-circuit sequencing of operations that return a success flag, the indexed search over a
  fixed-capacity table, and the generic interfaces every stateful component is checked against
  (a component whose operations keep an invariant; one whose operations only move
  forward in an order; one in which a condition, once reached, is never left).
\<close>

section \<open>Machine integers\<close>

type_synonym u8 = "8 word"
type_synonym u16 = "16 word"
type_synonym u32 = "32 word"
type_synonym u64 = "64 word"

named_theorems word_step \<open>successor and bound facts about fixed-width counters\<close>

lemma unat_Suc_below [word_step]:
  fixes x :: "'a::len word"
  assumes "x < t"
  shows "unat (x + 1) = unat x + 1"
  using assms by unat_arith

lemma word_less_Suc [word_step]:
  fixes x :: "'a::len word"
  assumes "x < t"
  shows "x < x + 1"
  using assms by unat_arith

lemma word_Suc_le [word_step]:
  fixes x :: "'a::len word"
  assumes "x < t"
  shows "x + 1 \<le> t"
  using assms by unat_arith

lemma word_Suc_nonzero [word_step]:
  fixes x :: "'a::len word"
  assumes "x < t"
  shows "x + 1 \<noteq> 0"
  using assms by unat_arith

lemma word_le_minus_one_iff [word_step]:
  fixes x :: "'a::len word"
  assumes "t \<noteq> 0"
  shows "t - 1 \<le> x \<longleftrightarrow> t \<le> x \<or> t = x + 1"
  using assms by unat_arith

lemma u64_Suc: "x \<noteq> -1 \<Longrightarrow> x < x + 1" for x :: u64
  by (rule word_less_Suc [of x "-1"]) (simp add: word_order.not_eq_extremum)

text \<open>Widening a 32-bit counter to 64 bits keeps its value, and narrowing it back is lossless.\<close>

definition widen :: "u32 \<Rightarrow> u64" where
  "widen w = ucast w"

definition narrow :: "u64 \<Rightarrow> u32" where
  "narrow w = ucast w"

lemma unat_widen [simp]: "unat (widen w) = unat w"
  using unsigned_less [of w, where 'a=nat]
  by (simp add: widen_def unsigned_ucast_eq take_bit_nat_eq_self_iff)

lemma narrow_widen [simp]: "narrow (widen w) = w"
  using unsigned_less [of w, where 'a=nat]
  by (simp add: narrow_def word_unat_eq_iff unsigned_ucast_eq take_bit_nat_eq_self_iff)

lemma widen_less_iff [simp]: "widen a < widen b \<longleftrightarrow> a < b"
  by (simp add: word_less_nat_alt)

lemma widen_le_iff [simp]: "widen a \<le> widen b \<longleftrightarrow> a \<le> b"
  by (simp add: word_le_nat_alt)

section \<open>Operations that report success\<close>

text \<open>
  A member function \<open>bool f(...)\<close> that mutates its object is a function from the state to the
  flag and the new state. \<open>f && g\<close> on two such calls runs the second on the state the first
  left, and only when the first returned true.
\<close>

type_synonym 's flagged = "'s \<Rightarrow> bool \<times> 's"

definition seq_and :: "'s flagged \<Rightarrow> 's flagged \<Rightarrow> 's flagged" where
  "seq_and f g s = (let (ok, s') = f s in if ok then g s' else (False, s'))"

lemma seq_and_preserves:
  assumes "P (snd (f s))" and "\<And>t. P t \<Longrightarrow> P (snd (g t))"
  shows "P (snd (seq_and f g s))"
  using assms by (auto simp: seq_and_def split: prod.splits)

section \<open>Search in a fixed-capacity table\<close>

text \<open>The first index whose entry satisfies a test: a \<open>for\<close> loop that returns on a match.\<close>

fun find_index :: "('a \<Rightarrow> bool) \<Rightarrow> 'a list \<Rightarrow> nat option" where
  "find_index P [] = None"
| "find_index P (x # xs) = (if P x then Some 0 else map_option Suc (find_index P xs))"

lemma find_index_Some:
  "find_index P xs = Some i \<Longrightarrow> i < length xs \<and> P (xs ! i) \<and> (\<forall>j < i. \<not> P (xs ! j))"
  by (induction xs arbitrary: i) (auto split: if_splits simp: less_Suc_eq_0_disj)

lemma find_index_None: "find_index P xs = None \<longleftrightarrow> (\<forall>x \<in> set xs. \<not> P x)"
  by (induction xs) auto

lemma find_index_unique:
  assumes "i < length xs" "P (xs ! i)" "\<And>j. j < length xs \<Longrightarrow> P (xs ! j) \<Longrightarrow> j = i"
  shows "find_index P xs = Some i"
proof (cases "find_index P xs")
  case None
  then show ?thesis
    using assms(1,2) by (auto simp: find_index_None)
next
  case (Some j)
  then show ?thesis
    using find_index_Some [OF Some] assms(3) by simp
qed

lemma find_index_replicate:
  "find_index P (replicate n x) = (if P x \<and> 0 < n then Some 0 else None)"
  by (induction n) auto

lemma find_replicate: "find P (replicate n x) = (if P x \<and> 0 < n then Some x else None)"
  by (induction n) auto

section \<open>Component interfaces\<close>

text \<open>
  A component is a state together with the operations its clients may invoke, in any order and
  any number of times. The interfaces below state what one operation promises; their lemmas
  lift the promise to every run.
\<close>

definition run_ops :: "('op \<Rightarrow> 's \<Rightarrow> 's) \<Rightarrow> 'op list \<Rightarrow> 's \<Rightarrow> 's" where
  "run_ops step ops s = fold step ops s"

lemma run_ops_Nil [simp]: "run_ops step [] s = s"
  by (simp add: run_ops_def)

lemma run_ops_Cons [simp]: "run_ops step (x # xs) s = run_ops step xs (step x s)"
  by (simp add: run_ops_def)

lemma run_ops_append [simp]: "run_ops step (xs @ ys) s = run_ops step ys (run_ops step xs s)"
  by (simp add: run_ops_def)

locale invariant_component =
  fixes step :: "'op \<Rightarrow> 's \<Rightarrow> 's"
    and inv :: "'s \<Rightarrow> bool"
  assumes step_inv: "inv s \<Longrightarrow> inv (step x s)"
begin

lemma run_inv: "inv s \<Longrightarrow> inv (run_ops step xs s)"
  by (induction xs arbitrary: s) (auto intro: step_inv)

end

locale progress_component = invariant_component +
  fixes le :: "'s \<Rightarrow> 's \<Rightarrow> bool"
  assumes le_refl: "le s s"
    and le_trans: "le s t \<Longrightarrow> le t u \<Longrightarrow> le s u"
    and step_le: "inv s \<Longrightarrow> le s (step x s)"
begin

lemma run_le: "inv s \<Longrightarrow> le s (run_ops step xs s)"
proof (induction xs arbitrary: s)
  case (Cons x xs)
  then have "le (step x s) (run_ops step xs (step x s))" by (blast intro: step_inv)
  with Cons.prems show ?case by (auto intro: le_trans step_le)
qed (simp add: le_refl)

end

locale stable_component = invariant_component +
  fixes stays :: "'s \<Rightarrow> bool"
  assumes step_stays: "inv s \<Longrightarrow> stays s \<Longrightarrow> stays (step x s)"
begin

lemma run_stays: "inv s \<Longrightarrow> stays s \<Longrightarrow> stays (run_ops step xs s)"
  by (induction xs arbitrary: s) (auto intro: step_inv step_stays)

end

end
