(* ===== verification/RecoveryModel.thy ===== *)
theory RecoveryModel
  imports Prelude
begin

text \<open>
  The bounded recovery model of the shared registry
  (\<open>runtime/core/include/metaflux/runtime/recovery_model.hpp\<close> and
  \<open>runtime/core/src/recovery_model.cpp\<close>): one view and one device behind generation controls, a
  single admission attempt and lease, a device update record, a head and a following lifecycle
  range with two retired slots, and one publication record. Every member function of
  \<open>recovery::Model\<close> is one definition; the mutating ones are gathered in \<open>recovery_step\<close>.
  Members are written without the source's trailing underscore and with the prefix \<open>m_\<close>.
\<close>

section \<open>State\<close>

datatype view_state = View_Open | View_Closing | View_Terminal | View_Quarantined
datatype device_state = Device_Open | Device_Updating | Device_Closed
datatype owner_state = Owner_Live | Owner_Dead
datatype attempt_state =
  Attempt_Idle | Attempt_Entering | Attempt_Claiming | Attempt_Initializing | Attempt_Ready
| Attempt_Exited
datatype lease_state =
  Lease_Free | Lease_Initializing | Lease_Reserved | Lease_Committing | Lease_Committed
| Lease_Published | Lease_Released | Lease_Revoked | Lease_Tombstoned | Lease_Quarantined
datatype update_state =
  Update_Free | Update_Initializing | Update_Prepared | Update_Linking | Update_Active
| Update_FencePublished | Update_Reopened | Update_Aborted | Update_Closed | Update_Terminal
| Update_Quarantined
datatype publish_state =
  Publish_Free | Publish_Initializing | Publish_Prepared | Publish_Linking | Publish_Active
| Publish_Published | Publish_Aborted | Publish_Terminal | Publish_Quarantined
datatype range_state =
  Range_Free | Range_Initializing | Range_Prepared | Range_Open | Range_Retired | Range_Terminal
| Range_Quarantined

record limits =
  sequence_terminal :: u64
  generation_terminal :: u32
  tag_terminal :: u32
  epoch_terminal :: u64

record view_id =
  daemon_incarnation :: u64
  view_serial :: u64

record read_snapshot =
  rs_view_id :: view_id
  rs_view_generation :: u32
  rs_device_generation :: u32
  rs_epoch :: u64

record admission_token =
  adm_view_id :: view_id
  adm_view_generation :: u32
  adm_device_generation :: u32
  adm_attempt_tag :: u32
  adm_lease_tag :: u32

record attempt_record =
  at_tag :: u32
  at_state :: attempt_state
  at_owner :: owner_state
  at_view_generation :: u32
  at_device_generation :: u32
  at_target_lease_tag :: u32

record lease_record =
  ls_tag :: u32
  ls_state :: lease_state
  ls_owner :: owner_state
  ls_view_generation :: u32
  ls_device_generation :: u32
  ls_target_written :: bool
  ls_publication_marker :: bool

record update_record =
  up_tag :: u32
  up_state :: update_state
  up_owner :: owner_state
  up_old_generation :: u32
  up_new_generation :: u32
  up_old_epoch :: u64
  up_new_epoch :: u64
  up_fence_published :: bool

record range_record =
  rg_tag :: u32
  rg_state :: range_state
  rg_begin :: u64
  rg_end :: u64
  rg_token_generation :: u32
  rg_unused_suffix_begin :: u64
  rg_unused_suffix_end :: u64

record range_token =
  rt_view_id :: view_id
  rt_view_generation :: u32
  rt_token_generation :: u32
  rt_range_tag :: u32
  rt_range_begin :: u64
  rt_range_end :: u64

record publish_record =
  pb_tag :: u32
  pb_state :: publish_state
  pb_owner :: owner_state
  pb_range_tag :: u32
  pb_token_generation :: u32
  pb_range_begin :: u64
  pb_range_end :: u64
  pb_target_sequence :: u64
  pb_payload_applied :: bool
  pb_requires_compensation :: bool

text \<open>The default member initialisers of the records.\<close>

definition empty_attempt :: attempt_record where
  "empty_attempt = \<lparr>at_tag = 0, at_state = Attempt_Idle, at_owner = Owner_Live,
     at_view_generation = 0, at_device_generation = 0, at_target_lease_tag = 0\<rparr>"

definition empty_lease :: lease_record where
  "empty_lease = \<lparr>ls_tag = 0, ls_state = Lease_Free, ls_owner = Owner_Live,
     ls_view_generation = 0, ls_device_generation = 0, ls_target_written = False,
     ls_publication_marker = False\<rparr>"

definition empty_update :: update_record where
  "empty_update = \<lparr>up_tag = 0, up_state = Update_Free, up_owner = Owner_Live,
     up_old_generation = 0, up_new_generation = 0, up_old_epoch = 0, up_new_epoch = 0,
     up_fence_published = False\<rparr>"

definition empty_range :: range_record where
  "empty_range = \<lparr>rg_tag = 0, rg_state = Range_Free, rg_begin = 0, rg_end = 0,
     rg_token_generation = 0, rg_unused_suffix_begin = 0, rg_unused_suffix_end = 0\<rparr>"

definition empty_publication :: publish_record where
  "empty_publication = \<lparr>pb_tag = 0, pb_state = Publish_Free, pb_owner = Owner_Live,
     pb_range_tag = 0, pb_token_generation = 0, pb_range_begin = 0, pb_range_end = 0,
     pb_target_sequence = 0, pb_payload_applied = False, pb_requires_compensation = False\<rparr>"

text \<open>
  The object. \<open>m_retired_ranges\<close> is the array of two slots, of which the first
  \<open>m_retired_range_count\<close> are in use.
\<close>

record model =
  m_limits :: limits
  m_valid :: bool
  m_view_id :: view_id
  m_view_state :: view_state
  m_device_state :: device_state
  m_view_generation :: u32
  m_device_generation :: u32
  m_range_token_generation :: u32
  m_range_tag_high_water :: u32
  m_device_update_tag :: u32
  m_epoch :: u64
  m_allocation_high_water :: u64
  m_publication_cursor :: u64
  m_intermediate_visible :: bool
  m_committed_admissions :: u32
  m_compensation_count :: u32
  m_attempt :: attempt_record
  m_lease :: lease_record
  m_update :: update_record
  m_range :: range_record
  m_following_range :: range_record
  m_retired_ranges :: "range_record list"
  m_retired_range_count :: u32
  m_publication :: publish_record

definition new_model :: "limits \<Rightarrow> u64 \<Rightarrow> u32 \<Rightarrow> u64 \<Rightarrow> view_id \<Rightarrow> model" where
  "new_model lim initial_high_water initial_generation initial_epoch vid =
    (let valid = sequence_terminal lim \<ge> 3 \<and> generation_terminal lim \<ge> 3 \<and>
           tag_terminal lim \<ge> 3 \<and> epoch_terminal lim \<ge> 3 \<and>
           initial_high_water < sequence_terminal lim \<and> initial_generation > 0 \<and>
           initial_generation < generation_terminal lim \<and> initial_epoch > 0 \<and>
           initial_epoch < epoch_terminal lim \<and> daemon_incarnation vid \<noteq> 0 \<and>
           view_serial vid \<noteq> 0
     in \<lparr>m_limits = lim, m_valid = valid, m_view_id = vid,
         m_view_state = (if valid then View_Open else View_Quarantined),
         m_device_state = (if valid then Device_Open else Device_Closed),
         m_view_generation = initial_generation, m_device_generation = initial_generation,
         m_range_token_generation = initial_generation, m_range_tag_high_water = 0,
         m_device_update_tag = 0, m_epoch = initial_epoch,
         m_allocation_high_water = initial_high_water,
         m_publication_cursor = initial_high_water, m_intermediate_visible = False,
         m_committed_admissions = 0, m_compensation_count = 0,
         m_attempt = empty_attempt, m_lease = empty_lease, m_update = empty_update,
         m_range = empty_range, m_following_range = empty_range,
         m_retired_ranges = [empty_range, empty_range], m_retired_range_count = 0,
         m_publication = empty_publication\<rparr>)"

section \<open>Guards\<close>

definition checked_add_below_terminal :: "u64 \<Rightarrow> u64 \<Rightarrow> u64 \<Rightarrow> u64 option" where
  "checked_add_below_terminal current increment terminal =
    (if current \<ge> terminal \<or> increment \<ge> terminal - current then None
     else Some (current + increment))"

definition next_tag :: "model \<Rightarrow> u32 \<Rightarrow> u32 \<Rightarrow> bool" where
  "next_tag s current proposed \<longleftrightarrow>
     proposed > 0 \<and> proposed < tag_terminal (m_limits s) \<and> current < proposed \<and>
     proposed - current = 1"

definition controls_match :: "model \<Rightarrow> u32 \<Rightarrow> u32 \<Rightarrow> bool" where
  "controls_match s view_generation device_generation \<longleftrightarrow>
     m_valid s \<and> m_view_state s = View_Open \<and> m_device_state s = Device_Open \<and>
     m_view_generation s = view_generation \<and> m_device_generation s = device_generation"

definition admission_token_matches :: "model \<Rightarrow> admission_token \<Rightarrow> bool" where
  "admission_token_matches s token \<longleftrightarrow>
     daemon_incarnation (adm_view_id token) = daemon_incarnation (m_view_id s) \<and>
     view_serial (adm_view_id token) = view_serial (m_view_id s) \<and>
     adm_attempt_tag token = at_tag (m_attempt s) \<and>
     adm_lease_tag token = ls_tag (m_lease s) \<and>
     at_target_lease_tag (m_attempt s) = ls_tag (m_lease s) \<and>
     at_state (m_attempt s) = Attempt_Ready \<and> ls_state (m_lease s) = Lease_Reserved \<and>
     controls_match s (adm_view_generation token) (adm_device_generation token) \<and>
     adm_view_generation token = at_view_generation (m_attempt s) \<and>
     adm_device_generation token = at_device_generation (m_attempt s) \<and>
     adm_view_generation token = ls_view_generation (m_lease s) \<and>
     adm_device_generation token = ls_device_generation (m_lease s)"

definition update_tuple_matches :: "model \<Rightarrow> u32 \<Rightarrow> bool" where
  "update_tuple_matches s tag \<longleftrightarrow>
     m_device_state s = Device_Updating \<and>
     m_device_generation s = up_new_generation (m_update s) \<and>
     m_device_update_tag s = tag \<and> up_tag (m_update s) = tag"

definition has_live_lease :: "model \<Rightarrow> bool" where
  "has_live_lease s \<longleftrightarrow>
     (case ls_state (m_lease s) of
        Lease_Initializing \<Rightarrow> True | Lease_Reserved \<Rightarrow> True | Lease_Committing \<Rightarrow> True
      | Lease_Committed \<Rightarrow> True | Lease_Published \<Rightarrow> True
      | Lease_Free \<Rightarrow> False | Lease_Released \<Rightarrow> False | Lease_Revoked \<Rightarrow> False
      | Lease_Tombstoned \<Rightarrow> False | Lease_Quarantined \<Rightarrow> False)"

definition range_record_matches :: "model \<Rightarrow> range_record \<Rightarrow> range_token \<Rightarrow> bool" where
  "range_record_matches s rng token \<longleftrightarrow>
     daemon_incarnation (rt_view_id token) = daemon_incarnation (m_view_id s) \<and>
     view_serial (rt_view_id token) = view_serial (m_view_id s) \<and>
     rt_view_generation token = m_view_generation s \<and>
     rt_token_generation token = rg_token_generation rng \<and>
     rt_range_tag token = rg_tag rng \<and> rt_range_begin token = rg_begin rng \<and>
     rt_range_end token = rg_end rng"

definition range_token_valid :: "model \<Rightarrow> range_token \<Rightarrow> bool" where
  "range_token_valid s token \<longleftrightarrow>
     m_valid s \<and> m_view_state s = View_Open \<and> rt_view_generation token = m_view_generation s \<and>
     (rg_state (m_range s) = Range_Open \<and> range_record_matches s (m_range s) token \<or>
      rg_state (m_following_range s) = Range_Open \<and>
      range_record_matches s (m_following_range s) token)"

definition publication_range_matches :: "model \<Rightarrow> bool" where
  "publication_range_matches s \<longleftrightarrow>
     rg_state (m_range s) = Range_Open \<and>
     pb_range_tag (m_publication s) = rg_tag (m_range s) \<and>
     pb_token_generation (m_publication s) = rg_token_generation (m_range s) \<and>
     pb_range_begin (m_publication s) = rg_begin (m_range s) \<and>
     pb_range_end (m_publication s) = rg_end (m_range s)"

section \<open>Leaving service\<close>

definition exit_attempt :: "attempt_record \<Rightarrow> attempt_record" where
  "exit_attempt a =
    (if at_state a \<noteq> Attempt_Idle \<and> at_state a \<noteq> Attempt_Exited
     then a\<lparr>at_state := Attempt_Exited\<rparr> else a)"

definition settle_lease_for_close :: "model \<Rightarrow> model" where
  "settle_lease_for_close s =
    (let l = m_lease s;
         l' = (case ls_state l of
             Lease_Initializing \<Rightarrow> l\<lparr>ls_state := Lease_Tombstoned\<rparr>
           | Lease_Committing \<Rightarrow> l\<lparr>ls_state := Lease_Tombstoned\<rparr>
           | Lease_Reserved \<Rightarrow> l\<lparr>ls_state := Lease_Revoked\<rparr>
           | Lease_Committed \<Rightarrow>
               (if ls_target_written l
                then l\<lparr>ls_publication_marker := True, ls_state := Lease_Released\<rparr>
                else l\<lparr>ls_state := Lease_Tombstoned\<rparr>)
           | Lease_Published \<Rightarrow> l\<lparr>ls_state := Lease_Released\<rparr>
           | Lease_Free \<Rightarrow> l | Lease_Released \<Rightarrow> l | Lease_Revoked \<Rightarrow> l
           | Lease_Tombstoned \<Rightarrow> l | Lease_Quarantined \<Rightarrow> l)
     in s\<lparr>m_lease := l', m_attempt := exit_attempt (m_attempt s)\<rparr>)"

definition quarantine_range :: "range_record \<Rightarrow> range_record" where
  "quarantine_range r =
    (if rg_state r = Range_Initializing \<or> rg_state r = Range_Prepared \<or> rg_state r = Range_Open
     then r\<lparr>rg_state := Range_Quarantined\<rparr> else r)"

definition quarantine_update :: "update_record \<Rightarrow> update_record" where
  "quarantine_update u =
    (if up_state u \<noteq> Update_Free \<and> up_state u \<noteq> Update_Terminal \<and>
        up_state u \<noteq> Update_Closed \<and> up_state u \<noteq> Update_Aborted
     then u\<lparr>up_state := Update_Quarantined\<rparr> else u)"

definition quarantine_publication :: "publish_record \<Rightarrow> publish_record" where
  "quarantine_publication p =
    (if pb_state p \<noteq> Publish_Free \<and> pb_state p \<noteq> Publish_Terminal \<and>
        pb_state p \<noteq> Publish_Aborted
     then p\<lparr>pb_state := Publish_Quarantined\<rparr> else p)"

definition quarantine :: "model \<Rightarrow> model" where
  "quarantine s =
    s\<lparr>m_view_state := View_Quarantined,
      m_view_generation := generation_terminal (m_limits s),
      m_device_state := Device_Closed,
      m_device_generation := generation_terminal (m_limits s),
      m_device_update_tag := 0,
      m_lease := (if has_live_lease s then (m_lease s)\<lparr>ls_state := Lease_Quarantined\<rparr>
                  else m_lease s),
      m_update := quarantine_update (m_update s),
      m_publication := quarantine_publication (m_publication s),
      m_range := quarantine_range (m_range s),
      m_following_range := quarantine_range (m_following_range s),
      m_attempt := exit_attempt (m_attempt s)\<rparr>"

definition close_update :: "update_record \<Rightarrow> update_record" where
  "close_update u =
    (case up_state u of
       Update_Initializing \<Rightarrow> u\<lparr>up_state := Update_Closed\<rparr>
     | Update_Prepared \<Rightarrow> u\<lparr>up_state := Update_Closed\<rparr>
     | Update_Linking \<Rightarrow> u\<lparr>up_state := Update_Closed\<rparr>
     | Update_Active \<Rightarrow> u\<lparr>up_state := Update_Closed\<rparr>
     | Update_FencePublished \<Rightarrow> u\<lparr>up_state := Update_Closed\<rparr>
     | Update_Reopened \<Rightarrow> u\<lparr>up_state := Update_Closed\<rparr>
     | Update_Free \<Rightarrow> u | Update_Aborted \<Rightarrow> u | Update_Closed \<Rightarrow> u
     | Update_Terminal \<Rightarrow> u | Update_Quarantined \<Rightarrow> u)"

definition close_device :: "model \<Rightarrow> model" where
  "close_device s =
    (if \<not> m_valid s \<or>
        (m_device_state s = Device_Closed \<and>
         m_device_generation s = generation_terminal (m_limits s))
     then s
     else settle_lease_for_close
            (s\<lparr>m_device_state := Device_Closed,
               m_device_generation := generation_terminal (m_limits s),
               m_device_update_tag := 0,
               m_update := close_update (m_update s)\<rparr>))"

definition close_view :: "model \<Rightarrow> model" where
  "close_view s =
    (if \<not> m_valid s \<or> m_view_state s = View_Terminal \<or> m_view_state s = View_Quarantined
     then s
     else if pb_state (m_publication s) \<noteq> Publish_Free \<and>
             pb_state (m_publication s) \<noteq> Publish_Terminal
     then quarantine s
     else
       (let s1 = s\<lparr>m_view_state := View_Closing,
                  m_view_generation := generation_terminal (m_limits s)\<rparr>;
            s2 = settle_lease_for_close (close_device s1)
        in s2\<lparr>m_view_state := View_Terminal\<rparr>))"

section \<open>Admission leases\<close>

definition enter_attempt :: "u32 \<Rightarrow> model flagged" where
  "enter_attempt attempt_tag s =
    (if \<not> m_valid s \<or> m_view_state s \<noteq> View_Open \<or> m_device_state s \<noteq> Device_Open \<or>
        (at_state (m_attempt s) \<noteq> Attempt_Idle \<and> at_state (m_attempt s) \<noteq> Attempt_Exited) \<or>
        \<not> next_tag s (at_tag (m_attempt s)) attempt_tag
     then (False, s)
     else (True, s\<lparr>m_attempt :=
            \<lparr>at_tag = attempt_tag, at_state = Attempt_Entering, at_owner = Owner_Live,
             at_view_generation = m_view_generation s,
             at_device_generation = m_device_generation s, at_target_lease_tag = 0\<rparr>\<rparr>))"

definition claim_lease :: "u32 \<Rightarrow> u32 \<Rightarrow> model flagged" where
  "claim_lease attempt_tag lease_tag s =
    (let a = m_attempt s in
     if at_tag a \<noteq> attempt_tag \<or> at_state a \<noteq> Attempt_Entering \<or>
        ls_state (m_lease s) \<noteq> Lease_Free \<or> \<not> next_tag s (ls_tag (m_lease s)) lease_tag \<or>
        \<not> controls_match s (at_view_generation a) (at_device_generation a)
     then (False, s)
     else (True, s\<lparr>
            m_lease := \<lparr>ls_tag = lease_tag, ls_state = Lease_Initializing,
              ls_owner = Owner_Live, ls_view_generation = at_view_generation a,
              ls_device_generation = at_device_generation a, ls_target_written = False,
              ls_publication_marker = False\<rparr>,
            m_attempt := a\<lparr>at_target_lease_tag := lease_tag,
              at_state := Attempt_Initializing\<rparr>\<rparr>))"

definition materialize_lease :: "u32 \<Rightarrow> u32 \<Rightarrow> model flagged" where
  "materialize_lease attempt_tag lease_tag s =
    (let a = m_attempt s; l = m_lease s in
     if at_tag a \<noteq> attempt_tag \<or> at_state a \<noteq> Attempt_Initializing \<or>
        at_target_lease_tag a \<noteq> lease_tag \<or> ls_tag l \<noteq> lease_tag \<or>
        ls_state l \<noteq> Lease_Initializing \<or>
        \<not> controls_match s (ls_view_generation l) (ls_device_generation l)
     then (False, s)
     else (True, s\<lparr>m_lease := l\<lparr>ls_state := Lease_Reserved\<rparr>,
                   m_attempt := a\<lparr>at_state := Attempt_Ready\<rparr>\<rparr>))"

definition reserve_lease :: "u32 \<Rightarrow> u32 \<Rightarrow> model flagged" where
  "reserve_lease attempt_tag lease_tag =
     seq_and (claim_lease attempt_tag lease_tag) (materialize_lease attempt_tag lease_tag)"

definition current_admission_token :: "model \<Rightarrow> admission_token option" where
  "current_admission_token s =
    (if at_state (m_attempt s) \<noteq> Attempt_Ready \<or> ls_state (m_lease s) \<noteq> Lease_Reserved \<or>
        at_target_lease_tag (m_attempt s) \<noteq> ls_tag (m_lease s)
     then None
     else Some \<lparr>adm_view_id = m_view_id s,
                adm_view_generation = ls_view_generation (m_lease s),
                adm_device_generation = ls_device_generation (m_lease s),
                adm_attempt_tag = at_tag (m_attempt s),
                adm_lease_tag = ls_tag (m_lease s)\<rparr>)"

definition begin_lease_commit :: "u32 \<Rightarrow> model flagged" where
  "begin_lease_commit lease_tag s =
    (let l = m_lease s in
     if ls_tag l \<noteq> lease_tag \<or> ls_state l \<noteq> Lease_Reserved \<or>
        at_state (m_attempt s) \<noteq> Attempt_Ready \<or>
        \<not> controls_match s (ls_view_generation l) (ls_device_generation l)
     then (False, s)
     else (True, s\<lparr>m_lease := l\<lparr>ls_state := Lease_Committing\<rparr>\<rparr>))"

definition begin_lease_commit_token :: "admission_token \<Rightarrow> model flagged" where
  "begin_lease_commit_token token s =
    (if admission_token_matches s token then begin_lease_commit (adm_lease_tag token) s
     else (False, s))"

definition finish_lease_commit :: "u32 \<Rightarrow> model flagged" where
  "finish_lease_commit lease_tag s =
    (let l = m_lease s in
     if ls_tag l \<noteq> lease_tag \<or> ls_state l \<noteq> Lease_Committing then (False, s)
     else (True, s\<lparr>m_lease := l\<lparr>ls_state := Lease_Committed\<rparr>,
                   m_committed_admissions := m_committed_admissions s + 1\<rparr>))"

definition write_lease_target :: "u32 \<Rightarrow> model flagged" where
  "write_lease_target lease_tag s =
    (let l = m_lease s in
     if ls_tag l \<noteq> lease_tag \<or> ls_state l \<noteq> Lease_Committed then (False, s)
     else (True, s\<lparr>m_lease := l\<lparr>ls_target_written := True\<rparr>\<rparr>))"

definition publish_lease :: "u32 \<Rightarrow> model flagged" where
  "publish_lease lease_tag s =
    (let l = m_lease s in
     if ls_tag l \<noteq> lease_tag \<or> ls_state l \<noteq> Lease_Committed then (False, s)
     else (True, s\<lparr>m_lease := l\<lparr>ls_target_written := True, ls_publication_marker := True,
                                 ls_state := Lease_Published\<rparr>\<rparr>))"

definition release_lease :: "u32 \<Rightarrow> model flagged" where
  "release_lease lease_tag s =
    (let l = m_lease s; a = m_attempt s in
     if ls_tag l \<noteq> lease_tag \<or> ls_state l \<noteq> Lease_Published then (False, s)
     else (True, s\<lparr>m_lease := l\<lparr>ls_state := Lease_Released\<rparr>,
            m_attempt := (if at_target_lease_tag a = lease_tag
                          then a\<lparr>at_state := Attempt_Exited\<rparr> else a)\<rparr>))"

definition recover_dead_lease :: "u32 \<Rightarrow> model flagged" where
  "recover_dead_lease lease_tag s =
    (if ls_tag (m_lease s) \<noteq> lease_tag then (False, s)
     else
       (let l = (m_lease s)\<lparr>ls_owner := Owner_Dead\<rparr>;
            settled = (case ls_state l of
                Lease_Initializing \<Rightarrow> Some (l\<lparr>ls_state := Lease_Tombstoned\<rparr>)
              | Lease_Reserved \<Rightarrow> Some (l\<lparr>ls_state := Lease_Tombstoned\<rparr>)
              | Lease_Committing \<Rightarrow> Some (l\<lparr>ls_state := Lease_Tombstoned\<rparr>)
              | Lease_Committed \<Rightarrow>
                  Some (if ls_target_written l
                        then l\<lparr>ls_publication_marker := True, ls_state := Lease_Released\<rparr>
                        else l\<lparr>ls_state := Lease_Tombstoned\<rparr>)
              | Lease_Published \<Rightarrow> Some (l\<lparr>ls_state := Lease_Released\<rparr>)
              | Lease_Released \<Rightarrow> Some l | Lease_Revoked \<Rightarrow> Some l | Lease_Tombstoned \<Rightarrow> Some l
              | Lease_Free \<Rightarrow> None | Lease_Quarantined \<Rightarrow> None);
            a = m_attempt s
        in case settled of
             None \<Rightarrow> (False, s\<lparr>m_lease := l\<rparr>)
           | Some l' \<Rightarrow>
               (True, s\<lparr>m_lease := l',
                  m_attempt := (if at_target_lease_tag a = lease_tag
                                then a\<lparr>at_owner := Owner_Dead, at_state := Attempt_Exited\<rparr>
                                else a)\<rparr>)))"

definition expire_live_lease :: "u32 \<Rightarrow> model flagged" where
  "expire_live_lease lease_tag s =
    (if ls_tag (m_lease s) \<noteq> lease_tag \<or> ls_owner (m_lease s) \<noteq> Owner_Live \<or>
        \<not> has_live_lease s
     then (False, s)
     else (True, quarantine (s\<lparr>m_lease := (m_lease s)\<lparr>ls_state := Lease_Quarantined\<rparr>\<rparr>)))"

definition reclaim_lease :: "u32 \<Rightarrow> model flagged" where
  "reclaim_lease new_tag s =
    (let l = m_lease s in
     if ls_state l \<noteq> Lease_Released \<and> ls_state l \<noteq> Lease_Revoked \<and>
        ls_state l \<noteq> Lease_Tombstoned
     then (False, s)
     else if \<not> next_tag s (ls_tag l) new_tag \<or> at_state (m_attempt s) \<noteq> Attempt_Exited
     then (False, s)
     else (True, s\<lparr>m_lease := empty_lease\<lparr>ls_tag := new_tag\<rparr>\<rparr>))"

section \<open>Device updates\<close>

definition claim_device_update :: "u32 \<Rightarrow> model flagged" where
  "claim_device_update update_tag s =
    (if \<not> m_valid s \<or> m_view_state s \<noteq> View_Open \<or> m_device_state s \<noteq> Device_Open \<or>
        (up_state (m_update s) \<noteq> Update_Free \<and> up_state (m_update s) \<noteq> Update_Terminal) \<or>
        \<not> next_tag s (up_tag (m_update s)) update_tag
     then (False, s)
     else
       case checked_add_below_terminal (widen (m_device_generation s)) 1
              (widen (generation_terminal (m_limits s))) of
         None \<Rightarrow> (False, s)
       | Some next_generation \<Rightarrow>
           if next_generation > 0xFFFFFFFF then (False, s)
           else
             case checked_add_below_terminal (m_epoch s) 1 (epoch_terminal (m_limits s)) of
               None \<Rightarrow> (False, s)
             | Some next_epoch \<Rightarrow>
                 (True, s\<lparr>m_update :=
                    \<lparr>up_tag = update_tag, up_state = Update_Initializing,
                     up_owner = Owner_Live, up_old_generation = m_device_generation s,
                     up_new_generation = narrow next_generation, up_old_epoch = m_epoch s,
                     up_new_epoch = next_epoch, up_fence_published = False\<rparr>\<rparr>))"

definition materialize_device_update :: "u32 \<Rightarrow> model flagged" where
  "materialize_device_update update_tag s =
    (let u = m_update s in
     if up_tag u \<noteq> update_tag \<or> up_state u \<noteq> Update_Initializing then (False, s)
     else (True, s\<lparr>m_update := u\<lparr>up_state := Update_Prepared\<rparr>\<rparr>))"

definition prepare_device_update :: "u32 \<Rightarrow> model flagged" where
  "prepare_device_update update_tag =
     seq_and (claim_device_update update_tag) (materialize_device_update update_tag)"

definition begin_device_update_link :: "u32 \<Rightarrow> model flagged" where
  "begin_device_update_link update_tag s =
    (let u = m_update s in
     if up_tag u \<noteq> update_tag \<or> up_state u \<noteq> Update_Prepared then (False, s)
     else (True, s\<lparr>m_update := u\<lparr>up_state := Update_Linking\<rparr>\<rparr>))"

text \<open>
  The link step proper, shared by \<open>complete_device_update_link\<close> and the recovery of a dead
  updater: the device enters \<open>Updating\<close> at the new generation and epoch, the current lease is
  settled and the update becomes active.
\<close>

definition activate_device_update :: "u32 \<Rightarrow> model \<Rightarrow> model" where
  "activate_device_update update_tag s =
    (let s1 = settle_lease_for_close
                (s\<lparr>m_device_state := Device_Updating,
                   m_device_generation := up_new_generation (m_update s),
                   m_epoch := up_new_epoch (m_update s),
                   m_device_update_tag := update_tag\<rparr>)
     in s1\<lparr>m_update := (m_update s1)\<lparr>up_state := Update_Active\<rparr>\<rparr>)"

definition complete_device_update_link :: "u32 \<Rightarrow> model flagged" where
  "complete_device_update_link update_tag s =
    (let u = m_update s in
     if up_tag u \<noteq> update_tag \<or> up_state u \<noteq> Update_Linking then (False, s)
     else if m_view_state s \<noteq> View_Open \<or> m_device_state s \<noteq> Device_Open \<or>
             m_device_generation s \<noteq> up_old_generation u \<or> m_epoch s \<noteq> up_old_epoch u
     then (False, s\<lparr>m_update := u\<lparr>up_state := Update_Closed\<rparr>\<rparr>)
     else (True, activate_device_update update_tag s))"

definition link_device_update :: "u32 \<Rightarrow> model flagged" where
  "link_device_update update_tag =
     seq_and (begin_device_update_link update_tag) (complete_device_update_link update_tag)"

definition publish_device_update :: "u32 \<Rightarrow> model flagged" where
  "publish_device_update update_tag s =
    (let u = m_update s in
     if up_tag u \<noteq> update_tag \<or> up_state u \<noteq> Update_Active \<or>
        \<not> update_tuple_matches s update_tag
     then (False, s)
     else (True, s\<lparr>m_update := u\<lparr>up_fence_published := True,
                                  up_state := Update_FencePublished\<rparr>\<rparr>))"

definition reopen_device_update :: "u32 \<Rightarrow> model flagged" where
  "reopen_device_update update_tag s =
    (let u = m_update s in
     if up_tag u \<noteq> update_tag \<or> up_state u \<noteq> Update_FencePublished \<or>
        \<not> up_fence_published u \<or> \<not> update_tuple_matches s update_tag
     then (False, s)
     else (True, s\<lparr>m_device_state := Device_Open, m_device_update_tag := 0,
                   m_update := u\<lparr>up_state := Update_Reopened\<rparr>\<rparr>))"

definition finish_device_update :: "u32 \<Rightarrow> model flagged" where
  "finish_device_update update_tag s =
    (let u = m_update s in
     if up_tag u \<noteq> update_tag \<or>
        (up_state u \<noteq> Update_Reopened \<and> up_state u \<noteq> Update_Aborted \<and>
         up_state u \<noteq> Update_Closed)
     then (False, s)
     else (True, s\<lparr>m_update := u\<lparr>up_state := Update_Terminal\<rparr>\<rparr>))"

text \<open>The two-way statements \<open>if (state is X && !op()) state = Closed\<close> of the recovery path.\<close>

definition close_unless :: "update_state \<Rightarrow> model flagged \<Rightarrow> model \<Rightarrow> model" where
  "close_unless st f s =
    (if up_state (m_update s) = st then
       (let (ok, s') = f s
        in if ok then s' else s'\<lparr>m_update := (m_update s')\<lparr>up_state := Update_Closed\<rparr>\<rparr>)
     else s)"

text \<open>
  The first step of the recovery of a dead updater: an update that never linked is aborted, a
  linking one is completed or closed.
\<close>

definition recover_link :: "u32 \<Rightarrow> model \<Rightarrow> model" where
  "recover_link t s =
    (let u = m_update s in
     if up_state u = Update_Initializing \<or> up_state u = Update_Prepared
     then s\<lparr>m_update := u\<lparr>up_state := Update_Aborted\<rparr>\<rparr>
     else if up_state u = Update_Linking
     then (if m_view_state s = View_Open \<and> m_device_state s = Device_Open \<and>
              m_device_generation s = up_old_generation u \<and> m_epoch s = up_old_epoch u
           then activate_device_update t s
           else s\<lparr>m_update := u\<lparr>up_state := Update_Closed\<rparr>\<rparr>)
     else s)"

definition terminate_update :: "model \<Rightarrow> model" where
  "terminate_update s =
    (if up_state (m_update s) = Update_Reopened \<or> up_state (m_update s) = Update_Aborted \<or>
        up_state (m_update s) = Update_Closed
     then s\<lparr>m_update := (m_update s)\<lparr>up_state := Update_Terminal\<rparr>\<rparr> else s)"

definition recover_dead_device_update :: "u32 \<Rightarrow> model flagged" where
  "recover_dead_device_update update_tag s =
    (if up_tag (m_update s) \<noteq> update_tag then (False, s)
     else
       (let s0 = s\<lparr>m_update := (m_update s)\<lparr>up_owner := Owner_Dead\<rparr>\<rparr>;
            s1 = recover_link update_tag s0;
            s2 = close_unless Update_Active (publish_device_update update_tag) s1;
            s3 = close_unless Update_FencePublished (reopen_device_update update_tag) s2;
            s4 = terminate_update s3
        in (up_state (m_update s4) = Update_Terminal, s4)))"

definition expire_live_device_update :: "u32 \<Rightarrow> model flagged" where
  "expire_live_device_update update_tag s =
    (let u = m_update s in
     if up_tag u \<noteq> update_tag \<or> up_owner u \<noteq> Owner_Live \<or> up_state u = Update_Free \<or>
        up_state u = Update_Aborted \<or> up_state u = Update_Closed \<or>
        up_state u = Update_Terminal \<or> up_state u = Update_Quarantined
     then (False, s)
     else (True, quarantine (s\<lparr>m_update := u\<lparr>up_state := Update_Quarantined\<rparr>\<rparr>)))"

section \<open>Lifecycle ranges\<close>

text \<open>The pointer result of \<open>initializing_range\<close> names the head or the following record.\<close>

datatype range_slot = Head_Slot | Following_Slot

definition range_at :: "model \<Rightarrow> range_slot \<Rightarrow> range_record" where
  "range_at s slot = (case slot of Head_Slot \<Rightarrow> m_range s | Following_Slot \<Rightarrow> m_following_range s)"

definition set_range_at :: "range_slot \<Rightarrow> range_record \<Rightarrow> model \<Rightarrow> model" where
  "set_range_at slot r s =
    (case slot of Head_Slot \<Rightarrow> s\<lparr>m_range := r\<rparr> | Following_Slot \<Rightarrow> s\<lparr>m_following_range := r\<rparr>)"

definition initializing_range :: "model \<Rightarrow> u32 \<Rightarrow> range_slot option" where
  "initializing_range s tag =
    (if rg_tag (m_range s) = tag \<and>
        (rg_state (m_range s) = Range_Initializing \<or> rg_state (m_range s) = Range_Prepared)
     then Some Head_Slot
     else if rg_tag (m_following_range s) = tag \<and>
        (rg_state (m_following_range s) = Range_Initializing \<or>
         rg_state (m_following_range s) = Range_Prepared)
     then Some Following_Slot
     else None)"

definition archive_retired_range :: "range_record \<Rightarrow> model flagged" where
  "archive_retired_range r s =
    (if rg_state r \<noteq> Range_Retired \<or>
        unat (m_retired_range_count s) \<ge> length (m_retired_ranges s)
     then (False, s)
     else (True, s\<lparr>m_retired_ranges := (m_retired_ranges s)[unat (m_retired_range_count s) := r],
                   m_retired_range_count := m_retired_range_count s + 1\<rparr>))"

definition retired_range :: "model \<Rightarrow> u32 \<Rightarrow> range_record option" where
  "retired_range s index =
    (if index \<ge> m_retired_range_count s then None else Some (m_retired_ranges s ! unat index))"

text \<open>
  \<open>claim_range\<close>: the destination is the head when it is free or can be archived, else the
  following slot behind an open head.
\<close>

definition claim_range :: "u32 \<Rightarrow> u64 \<Rightarrow> model flagged" where
  "claim_range range_tag len s =
    (if \<not> m_valid s \<or> len = 0 \<or> m_view_state s \<noteq> View_Open \<or>
        \<not> next_tag s (m_range_tag_high_water s) range_tag
     then (False, s)
     else
       case checked_add_below_terminal (m_allocation_high_water s) len
              (sequence_terminal (m_limits s)) of
         None \<Rightarrow> (False, s)
       | Some target \<Rightarrow>
           (case checked_add_below_terminal (widen (m_range_token_generation s)) 1
                   (widen (generation_terminal (m_limits s))) of
              None \<Rightarrow> (False, s)
            | Some next_token_generation \<Rightarrow>
                if next_token_generation > 0xFFFFFFFF then (False, s)
                else
                  (let claimed = \<lparr>rg_tag = range_tag, rg_state = Range_Initializing,
                         rg_begin = m_allocation_high_water s + 1, rg_end = target,
                         rg_token_generation = narrow next_token_generation,
                         rg_unused_suffix_begin = 0, rg_unused_suffix_end = 0\<rparr>;
                       install = (\<lambda>slot t. set_range_at slot claimed
                                    (t\<lparr>m_range_tag_high_water := range_tag\<rparr>))
                   in if rg_state (m_range s) = Range_Free then (True, install Head_Slot s)
                      else if (rg_state (m_range s) = Range_Retired \<or>
                               rg_state (m_range s) = Range_Terminal) \<and>
                              rg_state (m_following_range s) = Range_Free
                      then (if rg_state (m_range s) = Range_Retired
                            then (let (ok, s1) = archive_retired_range (m_range s) s
                                  in if ok
                                     then (True, install Head_Slot (s1\<lparr>m_range := empty_range\<rparr>))
                                     else (False, s1))
                            else (True, install Head_Slot (s\<lparr>m_range := empty_range\<rparr>)))
                      else if rg_state (m_range s) = Range_Open \<and>
                              rg_state (m_following_range s) = Range_Free
                      then (True, install Following_Slot s)
                      else (False, s))))"

definition prepare_range :: "u32 \<Rightarrow> model flagged" where
  "prepare_range range_tag s =
    (case initializing_range s range_tag of
       None \<Rightarrow> (False, s)
     | Some slot \<Rightarrow>
         if rg_state (range_at s slot) \<noteq> Range_Initializing then (False, s)
         else (True, set_range_at slot ((range_at s slot)\<lparr>rg_state := Range_Prepared\<rparr>) s))"

definition open_range :: "u32 \<Rightarrow> model flagged" where
  "open_range range_tag s =
    (case initializing_range s range_tag of
       None \<Rightarrow> (False, s)
     | Some slot \<Rightarrow>
         (let candidate = range_at s slot in
          if rg_state candidate \<noteq> Range_Prepared \<or> rg_begin candidate = 0 \<or>
             rg_begin candidate - 1 \<noteq> m_allocation_high_water s \<or>
             rg_end candidate \<ge> sequence_terminal (m_limits s)
          then (False, s)
          else
            case checked_add_below_terminal (widen (m_range_token_generation s)) 1
                   (widen (generation_terminal (m_limits s))) of
              None \<Rightarrow> (False, s)
            | Some next_token_generation \<Rightarrow>
                if widen (rg_token_generation candidate) \<noteq> next_token_generation \<or>
                   (slot = Following_Slot \<and> rg_state (m_range s) \<noteq> Range_Open)
                then (False, s)
                else (True, set_range_at slot (candidate\<lparr>rg_state := Range_Open\<rparr>)
                        (s\<lparr>m_allocation_high_water := rg_end candidate,
                           m_range_token_generation := rg_token_generation candidate\<rparr>))))"

definition reserve_range :: "u32 \<Rightarrow> u64 \<Rightarrow> model flagged" where
  "reserve_range range_tag len =
     seq_and (seq_and (claim_range range_tag len) (prepare_range range_tag))
             (open_range range_tag)"

definition token_of :: "model \<Rightarrow> range_record \<Rightarrow> range_token" where
  "token_of s r = \<lparr>rt_view_id = m_view_id s, rt_view_generation = m_view_generation s,
     rt_token_generation = rg_token_generation r, rt_range_tag = rg_tag r,
     rt_range_begin = rg_begin r, rt_range_end = rg_end r\<rparr>"

definition current_range_token :: "model \<Rightarrow> range_token option" where
  "current_range_token s =
    (if rg_state (m_range s) \<noteq> Range_Open then None else Some (token_of s (m_range s)))"

definition following_range_token :: "model \<Rightarrow> range_token option" where
  "following_range_token s =
    (if rg_state (m_following_range s) \<noteq> Range_Open then None
     else Some (token_of s (m_following_range s)))"

definition advance_range_head :: "model flagged" where
  "advance_range_head s =
    (if rg_state (m_range s) \<noteq> Range_Retired \<or> rg_state (m_following_range s) \<noteq> Range_Open \<or>
        (pb_state (m_publication s) \<noteq> Publish_Free \<and>
         pb_state (m_publication s) \<noteq> Publish_Terminal)
     then (False, s)
     else
       (let (ok, s1) = archive_retired_range (m_range s) s
        in if ok then (True, s1\<lparr>m_range := m_following_range s1,
                               m_following_range := empty_range\<rparr>)
           else (False, s1)))"

section \<open>Publications\<close>

definition claim_publication_token :: "range_token \<Rightarrow> u32 \<Rightarrow> bool \<Rightarrow> model flagged" where
  "claim_publication_token token publish_tag requires_compensation s =
    (if \<not> range_token_valid s token \<or> \<not> range_record_matches s (m_range s) token \<or>
        (pb_state (m_publication s) \<noteq> Publish_Free \<and>
         pb_state (m_publication s) \<noteq> Publish_Terminal) \<or>
        \<not> next_tag s (pb_tag (m_publication s)) publish_tag
     then (False, s)
     else
       case checked_add_below_terminal (m_publication_cursor s) 1
              (sequence_terminal (m_limits s)) of
         None \<Rightarrow> (False, s)
       | Some next_cursor \<Rightarrow>
           (let target = max (rg_begin (m_range s)) next_cursor in
            if target > rg_end (m_range s) then (False, s)
            else (True, s\<lparr>m_publication :=
                   \<lparr>pb_tag = publish_tag, pb_state = Publish_Initializing,
                    pb_owner = Owner_Live, pb_range_tag = rt_range_tag token,
                    pb_token_generation = rt_token_generation token,
                    pb_range_begin = rt_range_begin token,
                    pb_range_end = rt_range_end token, pb_target_sequence = target,
                    pb_payload_applied = False,
                    pb_requires_compensation = requires_compensation\<rparr>\<rparr>)))"

definition claim_publication :: "u32 \<Rightarrow> bool \<Rightarrow> model flagged" where
  "claim_publication publish_tag requires_compensation s =
    (case current_range_token s of
       None \<Rightarrow> (False, s)
     | Some token \<Rightarrow> claim_publication_token token publish_tag requires_compensation s)"

definition prepare_publication :: "u32 \<Rightarrow> model flagged" where
  "prepare_publication publish_tag s =
    (let p = m_publication s in
     if pb_tag p \<noteq> publish_tag \<or> pb_state p \<noteq> Publish_Initializing then (False, s)
     else (True, s\<lparr>m_publication := p\<lparr>pb_state := Publish_Prepared\<rparr>\<rparr>))"

definition link_publication :: "u32 \<Rightarrow> model flagged" where
  "link_publication publish_tag s =
    (let p = m_publication s in
     if pb_tag p \<noteq> publish_tag \<or> pb_state p \<noteq> Publish_Prepared then (False, s)
     else (True, s\<lparr>m_publication := p\<lparr>pb_state := Publish_Linking\<rparr>\<rparr>))"

definition activate_publication :: "u32 \<Rightarrow> model flagged" where
  "activate_publication publish_tag s =
    (let p = m_publication s in
     if pb_tag p \<noteq> publish_tag \<or> pb_state p \<noteq> Publish_Linking \<or>
        m_view_state s \<noteq> View_Open \<or> \<not> publication_range_matches s
     then (False, s)
     else (True, s\<lparr>m_publication := p\<lparr>pb_state := Publish_Active\<rparr>\<rparr>))"

definition apply_publication :: "u32 \<Rightarrow> model flagged" where
  "apply_publication publish_tag s =
    (let p = m_publication s in
     if pb_tag p \<noteq> publish_tag \<or> pb_state p \<noteq> Publish_Active \<or> pb_payload_applied p \<or>
        m_view_state s \<noteq> View_Open \<or> \<not> publication_range_matches s
     then (False, s)
     else
       case checked_add_below_terminal (m_publication_cursor s) 1
              (sequence_terminal (m_limits s)) of
         None \<Rightarrow> (False, s)
       | Some next_cursor \<Rightarrow>
           if pb_target_sequence p \<noteq> max (rg_begin (m_range s)) next_cursor then (False, s)
           else (True, s\<lparr>m_publication_cursor := pb_target_sequence p,
                         m_publication := p\<lparr>pb_payload_applied := True\<rparr>,
                         m_intermediate_visible := pb_requires_compensation p\<rparr>))"

definition mark_publication :: "u32 \<Rightarrow> model flagged" where
  "mark_publication publish_tag s =
    (let p = m_publication s in
     if pb_tag p \<noteq> publish_tag \<or> pb_state p \<noteq> Publish_Active \<or> \<not> pb_payload_applied p \<or>
        m_view_state s \<noteq> View_Open \<or> \<not> publication_range_matches s \<or>
        m_publication_cursor s \<noteq> pb_target_sequence p
     then (False, s)
     else (True, s\<lparr>m_publication := p\<lparr>pb_state := Publish_Published\<rparr>\<rparr>))"

definition retire_record :: "u64 \<Rightarrow> range_record \<Rightarrow> range_record" where
  "retire_record cursor r =
    (if cursor < rg_begin r
     then r\<lparr>rg_unused_suffix_begin := rg_begin r, rg_unused_suffix_end := rg_end r\<rparr>
     else if cursor < rg_end r
     then r\<lparr>rg_unused_suffix_begin := cursor + 1, rg_unused_suffix_end := rg_end r\<rparr>
     else r\<lparr>rg_unused_suffix_begin := 0, rg_unused_suffix_end := 0\<rparr>)
    \<lparr>rg_state := Range_Retired\<rparr>"

definition retire_range :: "model flagged" where
  "retire_range s =
    (if \<not> publication_range_matches s then (False, s)
     else (True, s\<lparr>m_range := retire_record (m_publication_cursor s) (m_range s)\<rparr>))"

definition finish_publication :: "u32 \<Rightarrow> model flagged" where
  "finish_publication publish_tag s =
    (let terminate = (\<lambda>t. t\<lparr>m_publication := (m_publication t)\<lparr>pb_state := Publish_Terminal\<rparr>\<rparr>);
         retired = (let (ok, s1) = retire_range s
                    in if ok then (True, terminate s1) else (False, s1))
     in if pb_tag (m_publication s) \<noteq> publish_tag then (False, s)
        else if pb_state (m_publication s) = Publish_Aborted then retired
        else if pb_state (m_publication s) \<noteq> Publish_Published \<or> m_intermediate_visible s
        then (False, s)
        else retired)"

definition abort_publication :: "u32 \<Rightarrow> model flagged" where
  "abort_publication publish_tag s =
    (let p = m_publication s in
     if pb_tag p \<noteq> publish_tag \<or>
        (pb_state p \<noteq> Publish_Initializing \<and> pb_state p \<noteq> Publish_Prepared)
     then (False, s)
     else (True, s\<lparr>m_publication := p\<lparr>pb_state := Publish_Aborted\<rparr>\<rparr>))"

definition compensate :: "model flagged" where
  "compensate s =
    (if \<not> m_intermediate_visible s \<or> m_view_state s \<noteq> View_Open \<or>
        \<not> publication_range_matches s
     then (False, s)
     else
       case checked_add_below_terminal (m_publication_cursor s) 1
              (sequence_terminal (m_limits s)) of
         None \<Rightarrow> (False, s)
       | Some target \<Rightarrow>
           if target > rg_end (m_range s) then (False, s)
           else (True, s\<lparr>m_publication_cursor := target, m_intermediate_visible := False,
                         m_compensation_count := m_compensation_count s + 1\<rparr>))"

text \<open>
  Recovery of a dead publisher drives the record forward step by step. A step that fails
  quarantines the view and ends the recovery with \<open>false\<close>; that early return is the
  exceptional result \<open>Inl\<close> of \<open>or_quarantine\<close>.
\<close>

definition or_quarantine :: "bool \<Rightarrow> model flagged \<Rightarrow> model \<Rightarrow> model + model" where
  "or_quarantine cond f s =
    (if cond then
       (let (ok, s') = f s
        in if ok then Inr s'
           else (let q = quarantine s'
                 in Inl (q\<lparr>m_publication :=
                           (m_publication q)\<lparr>pb_state := Publish_Quarantined\<rparr>\<rparr>)))
     else Inr s)"

definition recover_dead_publication :: "u32 \<Rightarrow> model flagged" where
  "recover_dead_publication publish_tag s =
    (if pb_tag (m_publication s) \<noteq> publish_tag then (False, s)
     else
       (let s0 = s\<lparr>m_publication := (m_publication s)\<lparr>pb_owner := Owner_Dead\<rparr>\<rparr>;
            s1 = (if pb_state (m_publication s0) = Publish_Initializing \<or>
                     pb_state (m_publication s0) = Publish_Prepared
                  then s0\<lparr>m_publication := (m_publication s0)\<lparr>pb_state := Publish_Aborted\<rparr>\<rparr>
                  else s0)
        in if pb_state (m_publication s1) = Publish_Aborted
           then finish_publication publish_tag s1
           else
             case or_quarantine (pb_state (m_publication s1) = Publish_Linking)
                    (activate_publication publish_tag) s1 of
               Inl q \<Rightarrow> (False, q)
             | Inr s2 \<Rightarrow>
             (case or_quarantine (pb_state (m_publication s2) = Publish_Active \<and>
                      \<not> pb_payload_applied (m_publication s2))
                    (apply_publication publish_tag) s2 of
               Inl q \<Rightarrow> (False, q)
             | Inr s3 \<Rightarrow>
             (case or_quarantine (pb_state (m_publication s3) = Publish_Active)
                    (mark_publication publish_tag) s3 of
               Inl q \<Rightarrow> (False, q)
             | Inr s4 \<Rightarrow>
             (case or_quarantine (pb_state (m_publication s4) = Publish_Published \<and>
                      m_intermediate_visible s4) compensate s4 of
               Inl q \<Rightarrow> (False, q)
             | Inr s5 \<Rightarrow>
                 if pb_state (m_publication s5) = Publish_Published
                 then finish_publication publish_tag s5
                 else (pb_state (m_publication s5) = Publish_Terminal, s5))))))"

definition expire_live_publication :: "u32 \<Rightarrow> model flagged" where
  "expire_live_publication publish_tag s =
    (let p = m_publication s in
     if pb_tag p \<noteq> publish_tag \<or> pb_owner p \<noteq> Owner_Live \<or> pb_state p = Publish_Free \<or>
        pb_state p = Publish_Aborted \<or> pb_state p = Publish_Terminal \<or>
        pb_state p = Publish_Quarantined
     then (False, s)
     else (True, quarantine (s\<lparr>m_publication := p\<lparr>pb_state := Publish_Quarantined\<rparr>,
                               m_range := (m_range s)\<lparr>rg_state := Range_Quarantined\<rparr>\<rparr>)))"

definition reclaim_publication :: "u32 \<Rightarrow> model flagged" where
  "reclaim_publication new_tag s =
    (if pb_state (m_publication s) \<noteq> Publish_Terminal \<or>
        rg_state (m_range s) \<noteq> Range_Retired \<or>
        \<not> next_tag s (pb_tag (m_publication s)) new_tag
     then (False, s)
     else (True, s\<lparr>m_publication := empty_publication\<lparr>pb_tag := new_tag\<rparr>\<rparr>))"

section \<open>Fenced reads\<close>

definition begin_read :: "model \<Rightarrow> read_snapshot option" where
  "begin_read s =
    (if \<not> controls_match s (m_view_generation s) (m_device_generation s) then None
     else Some \<lparr>rs_view_id = m_view_id s, rs_view_generation = m_view_generation s,
                rs_device_generation = m_device_generation s, rs_epoch = m_epoch s\<rparr>)"

definition finish_read :: "model \<Rightarrow> read_snapshot \<Rightarrow> bool" where
  "finish_read s snapshot \<longleftrightarrow>
     daemon_incarnation (rs_view_id snapshot) = daemon_incarnation (m_view_id s) \<and>
     view_serial (rs_view_id snapshot) = view_serial (m_view_id s) \<and>
     rs_epoch snapshot = m_epoch s \<and>
     controls_match s (rs_view_generation snapshot) (rs_device_generation snapshot)"

section \<open>The source's own invariant\<close>

definition valid_range :: "limits \<Rightarrow> range_record \<Rightarrow> bool" where
  "valid_range lim r \<longleftrightarrow>
    (if rg_state r = Range_Free then rg_begin r = 0 \<and> rg_end r = 0
     else if rg_begin r = 0 \<or> rg_begin r > rg_end r \<or> rg_end r \<ge> sequence_terminal lim \<or>
             rg_token_generation r = 0 \<or> rg_token_generation r \<ge> generation_terminal lim
     then False
     else if rg_state r \<noteq> Range_Retired
     then rg_unused_suffix_begin r = 0 \<and> rg_unused_suffix_end r = 0
     else (rg_unused_suffix_begin r = 0 \<and> rg_unused_suffix_end r = 0) \<or>
          (rg_unused_suffix_begin r \<ge> rg_begin r \<and> rg_unused_suffix_begin r \<le> rg_end r \<and>
           rg_unused_suffix_end r = rg_end r))"

definition invariants_hold :: "model \<Rightarrow> bool" where
  "invariants_hold s \<longleftrightarrow>
    (let lim = m_limits s; u = m_update s; p = m_publication s;
         r = m_range s; f = m_following_range s
     in \<not> (\<not> m_valid s \<or> m_allocation_high_water s \<ge> sequence_terminal lim \<or>
          m_publication_cursor s > m_allocation_high_water s \<or> m_view_generation s = 0 \<or>
          m_view_generation s > generation_terminal lim \<or> m_device_generation s = 0 \<or>
          m_device_generation s > generation_terminal lim \<or> m_range_token_generation s = 0 \<or>
          m_range_token_generation s \<ge> generation_terminal lim \<or> m_epoch s = 0 \<or>
          m_epoch s \<ge> epoch_terminal lim \<or> at_tag (m_attempt s) \<ge> tag_terminal lim \<or>
          ls_tag (m_lease s) \<ge> tag_terminal lim \<or> up_tag u \<ge> tag_terminal lim \<or>
          m_range_tag_high_water s \<ge> tag_terminal lim \<or> rg_tag r \<ge> tag_terminal lim \<or>
          rg_tag f \<ge> tag_terminal lim \<or> pb_tag p \<ge> tag_terminal lim \<or>
          unat (m_retired_range_count s) > length (m_retired_ranges s)) \<and>
        \<not> ((m_view_state s = View_Terminal \<or> m_view_state s = View_Quarantined) \<and>
          (m_device_state s \<noteq> Device_Closed \<or>
           m_device_generation s \<noteq> generation_terminal lim \<or> has_live_lease s)) \<and>
        \<not> (m_device_state s = Device_Updating \<and>
          (m_device_update_tag s = 0 \<or> up_tag u \<noteq> m_device_update_tag s \<or>
           (up_state u \<noteq> Update_Active \<and> up_state u \<noteq> Update_FencePublished))) \<and>
        \<not> ((up_state u = Update_Active \<or> up_state u = Update_FencePublished) \<and>
          (up_new_generation u \<noteq> m_device_generation s \<or> up_new_epoch u \<noteq> m_epoch s)) \<and>
        \<not> (m_intermediate_visible s \<and>
          (\<not> pb_payload_applied p \<or>
           (pb_state p \<noteq> Publish_Active \<and> pb_state p \<noteq> Publish_Published \<and>
            pb_state p \<noteq> Publish_Quarantined))) \<and>
        \<not> (m_intermediate_visible s \<and> m_view_state s \<noteq> View_Open \<and>
          m_view_state s \<noteq> View_Quarantined) \<and>
        \<not> (\<not> valid_range lim r \<or> \<not> valid_range lim f) \<and>
        \<not> (rg_state f \<noteq> Range_Free \<and> rg_state r \<noteq> Range_Open \<and>
          rg_state r \<noteq> Range_Retired \<and> rg_state r \<noteq> Range_Quarantined) \<and>
        \<not> (rg_state f \<noteq> Range_Free \<and> rg_end r + 1 \<noteq> rg_begin f) \<and>
        list_all (\<lambda>q. rg_state q = Range_Retired \<and> valid_range lim q)
          (take (unat (m_retired_range_count s)) (m_retired_ranges s)) \<and>
        \<not> ((pb_state p = Publish_Initializing \<or> pb_state p = Publish_Prepared \<or>
           pb_state p = Publish_Linking \<or> pb_state p = Publish_Active \<or>
           pb_state p = Publish_Published) \<and> \<not> publication_range_matches s))"

section \<open>All operations\<close>

text \<open>Every public mutating member function, with its arguments.\<close>

datatype recovery_op =
  Enter_Attempt u32 | Claim_Lease u32 u32 | Materialize_Lease u32 u32 | Reserve_Lease u32 u32
| Begin_Lease_Commit_Token admission_token | Begin_Lease_Commit u32 | Finish_Lease_Commit u32
| Write_Lease_Target u32 | Publish_Lease u32 | Release_Lease u32 | Recover_Dead_Lease u32
| Expire_Live_Lease u32 | Reclaim_Lease u32 | Close_View | Close_Device
| Claim_Device_Update u32 | Materialize_Device_Update u32 | Prepare_Device_Update u32
| Begin_Device_Update_Link u32 | Complete_Device_Update_Link u32 | Link_Device_Update u32
| Publish_Device_Update u32 | Reopen_Device_Update u32 | Finish_Device_Update u32
| Recover_Dead_Device_Update u32 | Expire_Live_Device_Update u32
| Claim_Range u32 u64 | Prepare_Range u32 | Open_Range u32 | Reserve_Range u32 u64
| Advance_Range_Head | Claim_Publication_Token range_token u32 bool
| Claim_Publication u32 bool | Prepare_Publication u32 | Link_Publication u32
| Activate_Publication u32 | Apply_Publication u32 | Mark_Publication u32
| Finish_Publication u32 | Abort_Publication u32 | Recover_Dead_Publication u32
| Expire_Live_Publication u32 | Reclaim_Publication u32

fun recovery_call :: "recovery_op \<Rightarrow> model flagged" where
  "recovery_call (Enter_Attempt a) s = enter_attempt a s"
| "recovery_call (Claim_Lease a l) s = claim_lease a l s"
| "recovery_call (Materialize_Lease a l) s = materialize_lease a l s"
| "recovery_call (Reserve_Lease a l) s = reserve_lease a l s"
| "recovery_call (Begin_Lease_Commit_Token t) s = begin_lease_commit_token t s"
| "recovery_call (Begin_Lease_Commit l) s = begin_lease_commit l s"
| "recovery_call (Finish_Lease_Commit l) s = finish_lease_commit l s"
| "recovery_call (Write_Lease_Target l) s = write_lease_target l s"
| "recovery_call (Publish_Lease l) s = publish_lease l s"
| "recovery_call (Release_Lease l) s = release_lease l s"
| "recovery_call (Recover_Dead_Lease l) s = recover_dead_lease l s"
| "recovery_call (Expire_Live_Lease l) s = expire_live_lease l s"
| "recovery_call (Reclaim_Lease l) s = reclaim_lease l s"
| "recovery_call Close_View s = (True, close_view s)"
| "recovery_call Close_Device s = (True, close_device s)"
| "recovery_call (Claim_Device_Update u) s = claim_device_update u s"
| "recovery_call (Materialize_Device_Update u) s = materialize_device_update u s"
| "recovery_call (Prepare_Device_Update u) s = prepare_device_update u s"
| "recovery_call (Begin_Device_Update_Link u) s = begin_device_update_link u s"
| "recovery_call (Complete_Device_Update_Link u) s = complete_device_update_link u s"
| "recovery_call (Link_Device_Update u) s = link_device_update u s"
| "recovery_call (Publish_Device_Update u) s = publish_device_update u s"
| "recovery_call (Reopen_Device_Update u) s = reopen_device_update u s"
| "recovery_call (Finish_Device_Update u) s = finish_device_update u s"
| "recovery_call (Recover_Dead_Device_Update u) s = recover_dead_device_update u s"
| "recovery_call (Expire_Live_Device_Update u) s = expire_live_device_update u s"
| "recovery_call (Claim_Range t n) s = claim_range t n s"
| "recovery_call (Prepare_Range t) s = prepare_range t s"
| "recovery_call (Open_Range t) s = open_range t s"
| "recovery_call (Reserve_Range t n) s = reserve_range t n s"
| "recovery_call Advance_Range_Head s = advance_range_head s"
| "recovery_call (Claim_Publication_Token k t c) s = claim_publication_token k t c s"
| "recovery_call (Claim_Publication t c) s = claim_publication t c s"
| "recovery_call (Prepare_Publication t) s = prepare_publication t s"
| "recovery_call (Link_Publication t) s = link_publication t s"
| "recovery_call (Activate_Publication t) s = activate_publication t s"
| "recovery_call (Apply_Publication t) s = apply_publication t s"
| "recovery_call (Mark_Publication t) s = mark_publication t s"
| "recovery_call (Finish_Publication t) s = finish_publication t s"
| "recovery_call (Abort_Publication t) s = abort_publication t s"
| "recovery_call (Recover_Dead_Publication t) s = recover_dead_publication t s"
| "recovery_call (Expire_Live_Publication t) s = expire_live_publication t s"
| "recovery_call (Reclaim_Publication t) s = reclaim_publication t s"

definition recovery_step :: "recovery_op \<Rightarrow> model \<Rightarrow> model" where
  "recovery_step x s = snd (recovery_call x s)"

end
