(* ===== verification/RecoveryInvariant.thy ===== *)
theory RecoveryInvariant
  imports RecoveryModel
begin

text \<open>
  The inductive invariant of the recovery model. The source's \<open>invariants_hold\<close> is not inductive
  by itself; \<open>recovery_inv\<close> adds what the operations keep true between the fields. Each conjunct
  is a predicate of just the fields it constrains, so that an operation which leaves those
  fields alone keeps it by rewriting.
\<close>

section \<open>Arithmetic of the guards\<close>

lemma checked_add_iff:
  "checked_add_below_terminal c i t = Some v \<longleftrightarrow>
     c < t \<and> unat c + unat i < unat t \<and> v = c + i"
  unfolding checked_add_below_terminal_def by (auto simp: not_le) unat_arith+

lemma checked_add_one_iff:
  "checked_add_below_terminal c 1 t = Some v \<longleftrightarrow> c < t \<and> c + 1 < t \<and> v = c + 1"
  unfolding checked_add_below_terminal_def by (auto simp: not_le) unat_arith+

lemma checked_add_widen_iff:
  "checked_add_below_terminal (widen g) 1 (widen t) = Some v \<longleftrightarrow>
     g < t \<and> g + 1 < t \<and> v = widen (g + 1)"
proof -
  have "g < t \<Longrightarrow> widen g + 1 = widen (g + 1)"
    by (rule word_unat_eq_iff [THEN iffD2]) (simp add: unat_Suc_below [of "widen g" "widen t"] unat_Suc_below)
  then show ?thesis
    by (auto simp: checked_add_one_iff)
qed

lemma widen_small [simp]: "\<not> 0xFFFFFFFF < widen g"
proof -
  have "unat g < 2 ^ 32" using unsigned_less [of g, where 'a=nat] by simp
  then show ?thesis by (simp add: word_less_nat_alt)
qed

lemma next_tag_iff:
  "next_tag s c p \<longleftrightarrow> c < p \<and> p = c + 1 \<and> p < tag_terminal (m_limits s)"
proof -
  have "p - c = 1 \<longleftrightarrow> p = c + 1" by (auto simp: algebra_simps)
  then show ?thesis unfolding next_tag_def by (auto simp: word_gt_0 intro: gr_zeroI)
qed

section \<open>The invariant\<close>

definition counters_ok :: "limits \<Rightarrow> u64 \<Rightarrow> u64 \<Rightarrow> u32 \<Rightarrow> u32 \<Rightarrow> u32 \<Rightarrow> u64 \<Rightarrow> bool" where
  "counters_ok lim alloc cursor vg dg rtg ep \<longleftrightarrow>
     alloc < sequence_terminal lim \<and> cursor \<le> alloc \<and>
     0 < vg \<and> vg \<le> generation_terminal lim \<and> 0 < dg \<and> dg \<le> generation_terminal lim \<and>
     0 < rtg \<and> rtg < generation_terminal lim \<and> 0 < ep \<and> ep < epoch_terminal lim"

definition tags_ok :: "limits \<Rightarrow> u32 list \<Rightarrow> bool" where
  "tags_ok lim tags \<longleftrightarrow> list_all (\<lambda>t. t < tag_terminal lim) tags"

definition controls_ok :: "limits \<Rightarrow> view_state \<Rightarrow> device_state \<Rightarrow> u32 \<Rightarrow> u32 \<Rightarrow> bool" where
  "controls_ok lim vs ds vg dg \<longleftrightarrow>
     vs \<noteq> View_Closing \<and> (vs = View_Open \<longleftrightarrow> vg \<noteq> generation_terminal lim) \<and>
     (vs \<noteq> View_Open \<longrightarrow> ds = Device_Closed) \<and>
     (ds = Device_Closed \<longleftrightarrow> dg = generation_terminal lim)"

definition live_lease_state :: "lease_state \<Rightarrow> bool" where
  "live_lease_state st \<longleftrightarrow>
     st = Lease_Initializing \<or> st = Lease_Reserved \<or> st = Lease_Committing \<or>
     st = Lease_Committed \<or> st = Lease_Published"

definition lease_ok :: "view_state \<Rightarrow> device_state \<Rightarrow> u32 \<Rightarrow> u32 \<Rightarrow> lease_record \<Rightarrow> bool" where
  "lease_ok vs ds vg dg l \<longleftrightarrow>
     (live_lease_state (ls_state l) \<longrightarrow>
        vs = View_Open \<and> ds = Device_Open \<and> ls_view_generation l = vg \<and>
        ls_device_generation l = dg)"

definition update_ok ::
    "limits \<Rightarrow> device_state \<Rightarrow> u32 \<Rightarrow> u32 \<Rightarrow> u64 \<Rightarrow> update_record \<Rightarrow> bool" where
  "update_ok lim ds dg dut ep u \<longleftrightarrow>
     (ds = Device_Updating \<longleftrightarrow>
        up_state u = Update_Active \<or> up_state u = Update_FencePublished) \<and>
     (ds = Device_Updating \<longrightarrow>
        dut = up_tag u \<and> up_new_generation u = dg \<and> up_new_epoch u = ep) \<and>
     (up_state u = Update_FencePublished \<longrightarrow> up_fence_published u) \<and>
     (up_state u \<noteq> Update_Free \<longrightarrow> 0 < up_tag u) \<and>
     (ds = Device_Closed \<longrightarrow>
        up_state u \<noteq> Update_Initializing \<and> up_state u \<noteq> Update_Prepared \<and>
        up_state u \<noteq> Update_Linking \<and> up_state u \<noteq> Update_Reopened) \<and>
     (up_state u = Update_Initializing \<or> up_state u = Update_Prepared \<or>
      up_state u = Update_Linking \<longrightarrow>
        up_old_generation u < up_new_generation u \<and>
        up_new_generation u < generation_terminal lim \<and>
        up_old_epoch u < up_new_epoch u \<and> up_new_epoch u < epoch_terminal lim)"

definition ranges_ok :: "limits \<Rightarrow> u64 \<Rightarrow> range_record \<Rightarrow> range_record \<Rightarrow> bool" where
  "ranges_ok lim alloc r f \<longleftrightarrow>
     valid_range lim r \<and> valid_range lim f \<and>
     rg_state r \<noteq> Range_Terminal \<and> rg_state f \<noteq> Range_Terminal \<and> rg_state f \<noteq> Range_Retired \<and>
     (rg_state r = Range_Open \<or> rg_state r = Range_Retired \<longrightarrow> rg_end r \<le> alloc) \<and>
     (rg_state r = Range_Initializing \<or> rg_state r = Range_Prepared \<longrightarrow>
        rg_begin r = alloc + 1) \<and>
     (rg_state f \<noteq> Range_Free \<longrightarrow>
        (rg_state r = Range_Open \<or> rg_state r = Range_Retired \<or> rg_state r = Range_Quarantined) \<and>
        rg_end r + 1 = rg_begin f) \<and>
     (rg_state f = Range_Free \<and> rg_state r = Range_Open \<longrightarrow> rg_end r = alloc) \<and>
     (rg_state f = Range_Initializing \<or> rg_state f = Range_Prepared \<longrightarrow>
        rg_begin f = alloc + 1) \<and>
     (rg_state f = Range_Open \<longrightarrow> rg_end f = alloc)"

definition retired_ok :: "limits \<Rightarrow> range_record list \<Rightarrow> u32 \<Rightarrow> bool" where
  "retired_ok lim rs n \<longleftrightarrow>
     length rs = 2 \<and> unat n \<le> 2 \<and>
     list_all (\<lambda>q. rg_state q = Range_Retired \<and> valid_range lim q) (take (unat n) rs)"

definition live_publish_state :: "publish_state \<Rightarrow> bool" where
  "live_publish_state st \<longleftrightarrow>
     st = Publish_Initializing \<or> st = Publish_Prepared \<or> st = Publish_Linking \<or>
     st = Publish_Active \<or> st = Publish_Published"

definition record_matches :: "range_record \<Rightarrow> publish_record \<Rightarrow> bool" where
  "record_matches r p \<longleftrightarrow>
     rg_state r = Range_Open \<and> pb_range_tag p = rg_tag r \<and>
     pb_token_generation p = rg_token_generation r \<and> pb_range_begin p = rg_begin r \<and>
     pb_range_end p = rg_end r"

definition publication_ok ::
    "view_state \<Rightarrow> u64 \<Rightarrow> range_record \<Rightarrow> publish_record \<Rightarrow> bool \<Rightarrow> bool" where
  "publication_ok vs cursor r p visible \<longleftrightarrow>
     (live_publish_state (pb_state p) \<longrightarrow>
        vs = View_Open \<and> record_matches r p \<and> rg_begin r \<le> pb_target_sequence p \<and>
        pb_target_sequence p \<le> rg_end r) \<and>
     (live_publish_state (pb_state p) \<and> \<not> pb_payload_applied p \<longrightarrow>
        cursor < pb_target_sequence p \<and> pb_target_sequence p = max (rg_begin r) (cursor + 1)) \<and>
     (live_publish_state (pb_state p) \<and> pb_payload_applied p \<longrightarrow>
        pb_target_sequence p \<le> cursor \<and> cursor \<le> rg_end r \<and>
        (visible \<or> pb_state p = Publish_Active \<longrightarrow> cursor = pb_target_sequence p)) \<and>
     (pb_payload_applied p \<longrightarrow>
        pb_state p = Publish_Active \<or> pb_state p = Publish_Published \<or>
        pb_state p = Publish_Terminal \<or> pb_state p = Publish_Quarantined) \<and>
     (pb_state p = Publish_Published \<longrightarrow> pb_payload_applied p) \<and>
     (pb_state p = Publish_Aborted \<and> vs = View_Open \<longrightarrow> record_matches r p) \<and>
     (pb_state p = Publish_Quarantined \<longrightarrow> vs = View_Quarantined) \<and>
     (vs = View_Terminal \<longrightarrow> pb_state p = Publish_Free \<or> pb_state p = Publish_Terminal) \<and>
     (visible \<longrightarrow>
        pb_payload_applied p \<and>
        (pb_state p = Publish_Active \<or> pb_state p = Publish_Published \<or>
         pb_state p = Publish_Quarantined))"

definition recovery_inv :: "model \<Rightarrow> bool" where
  "recovery_inv s \<longleftrightarrow>
     m_valid s \<and>
     counters_ok (m_limits s) (m_allocation_high_water s) (m_publication_cursor s)
       (m_view_generation s) (m_device_generation s) (m_range_token_generation s) (m_epoch s) \<and>
     tags_ok (m_limits s)
       [at_tag (m_attempt s), ls_tag (m_lease s), up_tag (m_update s),
        m_range_tag_high_water s, rg_tag (m_range s), rg_tag (m_following_range s),
        pb_tag (m_publication s)] \<and>
     controls_ok (m_limits s) (m_view_state s) (m_device_state s) (m_view_generation s)
       (m_device_generation s) \<and>
     lease_ok (m_view_state s) (m_device_state s) (m_view_generation s)
       (m_device_generation s) (m_lease s) \<and>
     update_ok (m_limits s) (m_device_state s) (m_device_generation s)
       (m_device_update_tag s) (m_epoch s) (m_update s) \<and>
     ranges_ok (m_limits s) (m_allocation_high_water s) (m_range s) (m_following_range s) \<and>
     retired_ok (m_limits s) (m_retired_ranges s) (m_retired_range_count s) \<and>
     publication_ok (m_view_state s) (m_publication_cursor s) (m_range s) (m_publication s)
       (m_intermediate_visible s)"

lemma has_live_lease_iff [simp]: "has_live_lease s \<longleftrightarrow> live_lease_state (ls_state (m_lease s))"
  by (simp add: has_live_lease_def live_lease_state_def split: lease_state.splits)

lemma publication_range_matches_iff [simp]:
  "publication_range_matches s \<longleftrightarrow> record_matches (m_range s) (m_publication s)"
  by (simp add: publication_range_matches_def record_matches_def)

lemmas conjunct_defs = counters_ok_def tags_ok_def controls_ok_def lease_ok_def update_ok_def
  ranges_ok_def retired_ok_def publication_ok_def

lemma new_model_inv:
  assumes "m_valid (new_model lim hw g e vid)"
  shows "recovery_inv (new_model lim hw g e vid)"
proof -
  have "3 \<le> tag_terminal lim" using assms by (simp add: new_model_def Let_def)
  then have "0 < tag_terminal lim" by unat_arith
  then show ?thesis using assms
    by (auto simp: new_model_def Let_def recovery_inv_def conjunct_defs empty_attempt_def
        empty_lease_def empty_update_def empty_range_def empty_publication_def
        live_lease_state_def live_publish_state_def valid_range_def record_matches_def)
qed

section \<open>Updating one field of the model\<close>

lemma inv_tags:
  assumes "recovery_inv s"
  shows "at_tag (m_attempt s) < tag_terminal (m_limits s)"
    and "ls_tag (m_lease s) < tag_terminal (m_limits s)"
    and "up_tag (m_update s) < tag_terminal (m_limits s)"
    and "m_range_tag_high_water s < tag_terminal (m_limits s)"
    and "rg_tag (m_range s) < tag_terminal (m_limits s)"
    and "rg_tag (m_following_range s) < tag_terminal (m_limits s)"
    and "pb_tag (m_publication s) < tag_terminal (m_limits s)"
  using assms by (simp_all add: recovery_inv_def tags_ok_def)

lemma inv_parts:
  assumes "recovery_inv s"
  shows "m_valid s"
    and "counters_ok (m_limits s) (m_allocation_high_water s) (m_publication_cursor s)
           (m_view_generation s) (m_device_generation s) (m_range_token_generation s) (m_epoch s)"
    and "controls_ok (m_limits s) (m_view_state s) (m_device_state s) (m_view_generation s)
           (m_device_generation s)"
    and "lease_ok (m_view_state s) (m_device_state s) (m_view_generation s)
           (m_device_generation s) (m_lease s)"
    and "update_ok (m_limits s) (m_device_state s) (m_device_generation s)
           (m_device_update_tag s) (m_epoch s) (m_update s)"
    and "ranges_ok (m_limits s) (m_allocation_high_water s) (m_range s) (m_following_range s)"
    and "retired_ok (m_limits s) (m_retired_ranges s) (m_retired_range_count s)"
    and "publication_ok (m_view_state s) (m_publication_cursor s) (m_range s) (m_publication s)
           (m_intermediate_visible s)"
  using assms by (simp_all add: recovery_inv_def)

lemma publication_okD:
  assumes "publication_ok vs cursor r p visible"
  shows "live_publish_state (pb_state p) \<Longrightarrow> vs = View_Open"
    and "live_publish_state (pb_state p) \<Longrightarrow> record_matches r p"
    and "live_publish_state (pb_state p) \<Longrightarrow>
           rg_begin r \<le> pb_target_sequence p \<and> pb_target_sequence p \<le> rg_end r"
    and "live_publish_state (pb_state p) \<Longrightarrow> \<not> pb_payload_applied p \<Longrightarrow>
           cursor < pb_target_sequence p \<and> pb_target_sequence p = max (rg_begin r) (cursor + 1)"
    and "live_publish_state (pb_state p) \<Longrightarrow> pb_payload_applied p \<Longrightarrow>
           pb_target_sequence p \<le> cursor \<and> cursor \<le> rg_end r"
    and "pb_state p = Publish_Quarantined \<Longrightarrow> vs = View_Quarantined"
    and "visible \<Longrightarrow> pb_payload_applied p"
    and "visible \<Longrightarrow> pb_state p = Publish_Active \<or> pb_state p = Publish_Published \<or>
           pb_state p = Publish_Quarantined"
    and "pb_state p = Publish_Aborted \<Longrightarrow> vs = View_Open \<Longrightarrow> record_matches r p"
    and "pb_payload_applied p \<Longrightarrow> pb_state p = Publish_Active \<or> pb_state p = Publish_Published \<or>
           pb_state p = Publish_Terminal \<or> pb_state p = Publish_Quarantined"
    and "vs = View_Terminal \<Longrightarrow> pb_state p = Publish_Free \<or> pb_state p = Publish_Terminal"
    and "pb_state p = Publish_Published \<Longrightarrow> pb_payload_applied p"
  using assms unfolding publication_ok_def by blast+

lemma visible_view:
  assumes "publication_ok vs cursor r p visible" and visible
  shows "vs = View_Open \<or> vs = View_Quarantined"
  using publication_okD(1,6,8) [OF assms(1)] assms(2) unfolding live_publish_state_def by blast

lemma recovery_inv_invariants_hold:
  assumes "recovery_inv s"
  shows "invariants_hold s"
  unfolding invariants_hold_def Let_def
  supply parts = inv_parts [OF assms]
  apply (intro conjI)
  subgoal using parts(1,2,7) inv_tags [OF assms]
    by (simp add: counters_ok_def retired_ok_def not_le not_less word_gt_0)
  subgoal using parts(3,4) by (auto simp: controls_ok_def lease_ok_def)
  subgoal using parts(5) by (auto simp: update_ok_def word_gt_0)
  subgoal using parts(5) by (auto simp: update_ok_def)
  subgoal using publication_okD(7,8) [OF parts(8)] by blast
  subgoal using visible_view [OF parts(8)] by blast
  subgoal using parts(6) by (simp add: ranges_ok_def)
  subgoal using parts(6) unfolding ranges_ok_def by blast
  subgoal using parts(6) unfolding ranges_ok_def by blast
  subgoal using parts(7) by (simp add: retired_ok_def)
  subgoal using publication_okD(2) [OF parts(8)] by (auto simp: live_publish_state_def)
  done

lemma inv_set_attempt:
  assumes "recovery_inv s" and "at_tag a < tag_terminal (m_limits s)"
  shows "recovery_inv (s\<lparr>m_attempt := a\<rparr>)"
  using assms by (simp add: recovery_inv_def tags_ok_def)

lemma inv_set_lease:
  assumes "recovery_inv s" and "ls_tag l < tag_terminal (m_limits s)"
    and "lease_ok (m_view_state s) (m_device_state s) (m_view_generation s)
           (m_device_generation s) l"
  shows "recovery_inv (s\<lparr>m_lease := l\<rparr>)"
  using assms by (simp add: recovery_inv_def tags_ok_def)

lemma inv_set_update:
  assumes "recovery_inv s" and "up_tag u < tag_terminal (m_limits s)"
    and "update_ok (m_limits s) (m_device_state s) (m_device_generation s)
           (m_device_update_tag s) (m_epoch s) u"
  shows "recovery_inv (s\<lparr>m_update := u\<rparr>)"
  using assms by (simp add: recovery_inv_def tags_ok_def)

lemma inv_set_publication:
  assumes "recovery_inv s" and "pb_tag p < tag_terminal (m_limits s)"
    and "publication_ok (m_view_state s) (m_publication_cursor s) (m_range s) p
           (m_intermediate_visible s)"
  shows "recovery_inv (s\<lparr>m_publication := p\<rparr>)"
  using assms by (simp add: recovery_inv_def tags_ok_def)

lemma inv_counts [simp]:
  "recovery_inv (s\<lparr>m_committed_admissions := n\<rparr>) = recovery_inv s"
  "recovery_inv (s\<lparr>m_compensation_count := n\<rparr>) = recovery_inv s"
  by (simp_all add: recovery_inv_def)

section \<open>Preservation: leases\<close>

named_theorems op_inv \<open>each operation keeps \<open>recovery_inv\<close>\<close>

lemma lease_ok_dead [simp]: "\<not> live_lease_state (ls_state l) \<Longrightarrow> lease_ok vs ds vg dg l"
  by (simp add: lease_ok_def)

lemma lease_ok_live:
  assumes "live_lease_state (ls_state l)" and "lease_ok vs ds vg dg l"
    and "ls_view_generation l' = ls_view_generation l"
    and "ls_device_generation l' = ls_device_generation l"
  shows "lease_ok vs ds vg dg l'"
  using assms by (simp add: lease_ok_def)

lemma live_lease_state_simps [simp]:
  "live_lease_state Lease_Initializing" "live_lease_state Lease_Reserved"
  "live_lease_state Lease_Committing" "live_lease_state Lease_Committed"
  "live_lease_state Lease_Published" "\<not> live_lease_state Lease_Free"
  "\<not> live_lease_state Lease_Released" "\<not> live_lease_state Lease_Revoked"
  "\<not> live_lease_state Lease_Tombstoned" "\<not> live_lease_state Lease_Quarantined"
  by (simp_all add: live_lease_state_def)

lemmas seq_inv = seq_and_preserves [where P = recovery_inv]
lemmas lease_update = inv_set_attempt inv_set_lease
lemmas lease_keep = lease_ok_live [OF _ inv_parts(4)]

lemma enter_attempt_inv [op_inv]: "recovery_inv s \<Longrightarrow> recovery_inv (snd (enter_attempt a s))"
  by (auto simp: enter_attempt_def next_tag_iff intro!: lease_update)

lemma claim_lease_inv [op_inv]: "recovery_inv s \<Longrightarrow> recovery_inv (snd (claim_lease a l s))"
  by (auto simp: claim_lease_def Let_def next_tag_iff inv_tags controls_match_def lease_ok_def
      intro!: lease_update)

lemma materialize_lease_inv [op_inv]:
  "recovery_inv s \<Longrightarrow> recovery_inv (snd (materialize_lease a l s))"
  by (auto simp: materialize_lease_def Let_def inv_tags controls_match_def lease_ok_def
      intro!: lease_update)

lemma reserve_lease_inv [op_inv]:
  "recovery_inv s \<Longrightarrow> recovery_inv (snd (reserve_lease a l s))"
  unfolding reserve_lease_def by (intro seq_inv op_inv)

lemma begin_lease_commit_inv [op_inv]:
  "recovery_inv s \<Longrightarrow> recovery_inv (snd (begin_lease_commit l s))"
  by (auto simp: begin_lease_commit_def Let_def inv_tags controls_match_def lease_ok_def
      intro!: lease_update)

lemma begin_lease_commit_token_inv [op_inv]:
  "recovery_inv s \<Longrightarrow> recovery_inv (snd (begin_lease_commit_token t s))"
  by (simp add: begin_lease_commit_token_def begin_lease_commit_inv)

lemma finish_lease_commit_inv [op_inv]:
  "recovery_inv s \<Longrightarrow> recovery_inv (snd (finish_lease_commit l s))"
  by (auto simp: finish_lease_commit_def Let_def inv_tags intro!: lease_update
      intro: lease_keep)

lemma write_lease_target_inv [op_inv]:
  "recovery_inv s \<Longrightarrow> recovery_inv (snd (write_lease_target l s))"
  by (auto simp: write_lease_target_def Let_def inv_tags intro!: lease_update intro: lease_keep)

lemma publish_lease_inv [op_inv]:
  "recovery_inv s \<Longrightarrow> recovery_inv (snd (publish_lease l s))"
  by (auto simp: publish_lease_def Let_def inv_tags intro!: lease_update intro: lease_keep)

lemma release_lease_inv [op_inv]:
  "recovery_inv s \<Longrightarrow> recovery_inv (snd (release_lease l s))"
  using inv_tags [of s] by (auto simp: release_lease_def Let_def intro!: lease_update)

lemma recover_dead_lease_inv [op_inv]:
  "recovery_inv s \<Longrightarrow> recovery_inv (snd (recover_dead_lease l s))"
  using inv_tags [of s]
  by (auto simp: recover_dead_lease_def Let_def split: lease_state.split
      intro!: lease_update)

lemma reclaim_lease_inv [op_inv]:
  "recovery_inv s \<Longrightarrow> recovery_inv (snd (reclaim_lease l s))"
  by (auto simp: reclaim_lease_def Let_def empty_lease_def next_tag_iff intro!: lease_update)

section \<open>Preservation: leaving service\<close>

lemma live_publish_state_simps [simp]:
  "live_publish_state Publish_Initializing" "live_publish_state Publish_Prepared"
  "live_publish_state Publish_Linking" "live_publish_state Publish_Active"
  "live_publish_state Publish_Published" "\<not> live_publish_state Publish_Free"
  "\<not> live_publish_state Publish_Aborted" "\<not> live_publish_state Publish_Terminal"
  "\<not> live_publish_state Publish_Quarantined"
  by (simp_all add: live_publish_state_def)

lemma settle_fields [simp]:
  "m_limits (settle_lease_for_close s) = m_limits s"
  "m_valid (settle_lease_for_close s) = m_valid s"
  "m_view_id (settle_lease_for_close s) = m_view_id s"
  "m_view_state (settle_lease_for_close s) = m_view_state s"
  "m_device_state (settle_lease_for_close s) = m_device_state s"
  "m_view_generation (settle_lease_for_close s) = m_view_generation s"
  "m_device_generation (settle_lease_for_close s) = m_device_generation s"
  "m_range_token_generation (settle_lease_for_close s) = m_range_token_generation s"
  "m_range_tag_high_water (settle_lease_for_close s) = m_range_tag_high_water s"
  "m_device_update_tag (settle_lease_for_close s) = m_device_update_tag s"
  "m_epoch (settle_lease_for_close s) = m_epoch s"
  "m_allocation_high_water (settle_lease_for_close s) = m_allocation_high_water s"
  "m_publication_cursor (settle_lease_for_close s) = m_publication_cursor s"
  "m_intermediate_visible (settle_lease_for_close s) = m_intermediate_visible s"
  "m_update (settle_lease_for_close s) = m_update s"
  "m_range (settle_lease_for_close s) = m_range s"
  "m_following_range (settle_lease_for_close s) = m_following_range s"
  "m_retired_ranges (settle_lease_for_close s) = m_retired_ranges s"
  "m_retired_range_count (settle_lease_for_close s) = m_retired_range_count s"
  "m_publication (settle_lease_for_close s) = m_publication s"
  "m_committed_admissions (settle_lease_for_close s) = m_committed_admissions s"
  "m_compensation_count (settle_lease_for_close s) = m_compensation_count s"
  by (simp_all add: settle_lease_for_close_def Let_def)

lemma exit_attempt_tag [simp]: "at_tag (exit_attempt a) = at_tag a"
  by (simp add: exit_attempt_def)

lemma settle_lease [simp]:
  "ls_tag (m_lease (settle_lease_for_close s)) = ls_tag (m_lease s)"
  "at_tag (m_attempt (settle_lease_for_close s)) = at_tag (m_attempt s)"
  "\<not> live_lease_state (ls_state (m_lease (settle_lease_for_close s)))"
  by (simp_all add: settle_lease_for_close_def Let_def live_lease_state_def split: lease_state.split)

lemma close_update_simps [simp]:
  "up_tag (close_update u) = up_tag u"
  "update_ok lim ds dg dut ep u \<Longrightarrow> update_ok lim Device_Closed dg' dut' ep' (close_update u)"
  by (simp_all add: close_update_def update_ok_def split: update_state.split)

lemma counters_ok_terminal [simp]:
  assumes "counters_ok lim a c vg dg rtg ep"
  shows "counters_ok lim a c vg (generation_terminal lim) rtg ep"
    and "counters_ok lim a c (generation_terminal lim) (generation_terminal lim) rtg ep"
  using assms by (auto simp: counters_ok_def)

lemma settle_inv:
  assumes "m_valid s" and "counters_ok (m_limits s) (m_allocation_high_water s)
      (m_publication_cursor s) (m_view_generation s) (m_device_generation s)
      (m_range_token_generation s) (m_epoch s)"
    and "tags_ok (m_limits s)
       [at_tag (m_attempt s), ls_tag (m_lease s), up_tag (m_update s),
        m_range_tag_high_water s, rg_tag (m_range s), rg_tag (m_following_range s),
        pb_tag (m_publication s)]"
    and "controls_ok (m_limits s) (m_view_state s) (m_device_state s) (m_view_generation s)
           (m_device_generation s)"
    and "update_ok (m_limits s) (m_device_state s) (m_device_generation s)
           (m_device_update_tag s) (m_epoch s) (m_update s)"
    and "ranges_ok (m_limits s) (m_allocation_high_water s) (m_range s) (m_following_range s)"
    and "retired_ok (m_limits s) (m_retired_ranges s) (m_retired_range_count s)"
    and "publication_ok (m_view_state s) (m_publication_cursor s) (m_range s) (m_publication s)
           (m_intermediate_visible s)"
  shows "recovery_inv (settle_lease_for_close s)"
  using assms by (simp add: recovery_inv_def)

lemma close_device_fields [simp]:
  "m_limits (close_device s) = m_limits s"
  "m_valid (close_device s) = m_valid s"
  "m_view_id (close_device s) = m_view_id s"
  "m_view_state (close_device s) = m_view_state s"
  "m_view_generation (close_device s) = m_view_generation s"
  "m_range_token_generation (close_device s) = m_range_token_generation s"
  "m_range_tag_high_water (close_device s) = m_range_tag_high_water s"
  "m_epoch (close_device s) = m_epoch s"
  "m_allocation_high_water (close_device s) = m_allocation_high_water s"
  "m_publication_cursor (close_device s) = m_publication_cursor s"
  "m_intermediate_visible (close_device s) = m_intermediate_visible s"
  "m_range (close_device s) = m_range s"
  "m_following_range (close_device s) = m_following_range s"
  "m_retired_ranges (close_device s) = m_retired_ranges s"
  "m_retired_range_count (close_device s) = m_retired_range_count s"
  "m_publication (close_device s) = m_publication s"
  "m_committed_admissions (close_device s) = m_committed_admissions s"
  "m_compensation_count (close_device s) = m_compensation_count s"
  "at_tag (m_attempt (close_device s)) = at_tag (m_attempt s)"
  "ls_tag (m_lease (close_device s)) = ls_tag (m_lease s)"
  "up_tag (m_update (close_device s)) = up_tag (m_update s)"
  by (simp_all add: close_device_def)

lemma close_device_inv:
  assumes "recovery_inv s"
  shows "recovery_inv (close_device s)"
proof (cases "m_device_state s = Device_Closed")
  case True
  then show ?thesis using assms inv_parts(3) [OF assms]
    by (simp add: close_device_def controls_ok_def)
next
  case False
  have "controls_ok (m_limits s) (m_view_state s) Device_Closed (m_view_generation s)
      (generation_terminal (m_limits s))"
    using inv_parts(3) [OF assms] by (simp add: controls_ok_def)
  then show ?thesis
    unfolding close_device_def using False inv_parts [OF assms] inv_tags [OF assms]
    by (simp add: settle_inv tags_ok_def)
qed

lemma quarantine_range_simps [simp]:
  "rg_tag (quarantine_range r) = rg_tag r" "rg_begin (quarantine_range r) = rg_begin r"
  "rg_end (quarantine_range r) = rg_end r"
  "valid_range lim r \<Longrightarrow> valid_range lim (quarantine_range r)"
  by (cases "rg_state r"; simp add: quarantine_range_def valid_range_def split: if_splits)+

lemma quarantine_ranges_ok:
  "ranges_ok lim alloc r f \<Longrightarrow> ranges_ok lim alloc (quarantine_range r) (quarantine_range f)"
  unfolding ranges_ok_def by (cases "rg_state r"; cases "rg_state f")
    (simp_all add: quarantine_range_simps, simp_all add: quarantine_range_def)

lemma quarantine_update_simps [simp]:
  "up_tag (quarantine_update u) = up_tag u"
  "update_ok lim ds dg dut ep u \<Longrightarrow>
     update_ok lim Device_Closed dg' dut' ep' (quarantine_update u)"
  by (simp add: quarantine_update_def)
    (cases "up_state u"; simp add: quarantine_update_def update_ok_def)

lemma publication_ok_dead:
  assumes "\<not> live_publish_state (pb_state p)"
    and "pb_payload_applied p \<Longrightarrow> pb_state p = Publish_Terminal \<or> pb_state p = Publish_Quarantined"
    and "pb_state p = Publish_Aborted \<Longrightarrow> vs = View_Open \<Longrightarrow> record_matches r p"
    and "pb_state p = Publish_Quarantined \<Longrightarrow> vs = View_Quarantined"
    and "vs = View_Terminal \<Longrightarrow> pb_state p = Publish_Free \<or> pb_state p = Publish_Terminal"
    and "visible \<Longrightarrow> pb_payload_applied p \<and> pb_state p = Publish_Quarantined"
  shows "publication_ok vs cursor r p visible"
  using assms unfolding publication_ok_def live_publish_state_def by blast

lemma quarantine_publication_tag [simp]: "pb_tag (quarantine_publication p) = pb_tag p"
  by (simp add: quarantine_publication_def)

lemma quarantine_publication_ok [simp]:
  assumes "publication_ok vs c r p v"
  shows "publication_ok View_Quarantined c r' (quarantine_publication p) v"
  using publication_okD(7,8,10) [OF assms]
  by (intro publication_ok_dead; cases "pb_state p"; simp add: quarantine_publication_def)

lemma quarantine_inv:
  assumes "recovery_inv s"
  shows "recovery_inv (quarantine s)"
  using inv_parts [OF assms] inv_tags [OF assms]
  by (simp add: recovery_inv_def quarantine_def quarantine_ranges_ok controls_ok_def tags_ok_def)

lemma close_view_inv:
  assumes "recovery_inv s"
  shows "recovery_inv (close_view s)"
proof (cases "m_view_state s = View_Open \<and>
    (pb_state (m_publication s) = Publish_Free \<or> pb_state (m_publication s) = Publish_Terminal)")
  case False
  have "m_view_state s \<noteq> View_Closing"
    using inv_parts(3) [OF assms] by (simp add: controls_ok_def)
  with False show ?thesis using assms quarantine_inv [OF assms]
    by (cases "m_view_state s") (simp_all add: close_view_def)
next
  case True
  let ?gt = "generation_terminal (m_limits s)"
  let ?s1 = "s\<lparr>m_view_state := View_Closing, m_view_generation := ?gt\<rparr>"
  have pub: "publication_ok View_Terminal (m_publication_cursor s) (m_range s) (m_publication s)
      (m_intermediate_visible s)"
    using True publication_okD(8,10) [OF inv_parts(8) [OF assms]]
    by (intro publication_ok_dead) auto
  have upd: "update_ok (m_limits s) Device_Closed ?gt (m_device_update_tag (close_device ?s1))
      (m_epoch s) (m_update (close_device ?s1))"
    using inv_parts(1,3,5) [OF assms] by (auto simp: close_device_def controls_ok_def)
  have "m_device_state (close_device ?s1) = Device_Closed"
    "m_device_generation (close_device ?s1) = ?gt"
    by (auto simp: close_device_def inv_parts(1) [OF assms])
  moreover have "close_view s =
      settle_lease_for_close (close_device ?s1)\<lparr>m_view_state := View_Terminal\<rparr>"
    using True inv_parts(1) [OF assms] by (auto simp: close_view_def Let_def)
  ultimately show ?thesis
    using pub upd inv_parts(1,2,6,7) [OF assms] inv_tags [OF assms]
    by (simp add: recovery_inv_def controls_ok_def tags_ok_def)
qed

lemma expire_live_lease_eq:
  "live_lease_state (ls_state (m_lease s)) \<Longrightarrow>
     quarantine (s\<lparr>m_lease := (m_lease s)\<lparr>ls_state := Lease_Quarantined\<rparr>\<rparr>) = quarantine s"
  by (simp add: quarantine_def)

lemma expire_live_lease_inv [op_inv]:
  "recovery_inv s \<Longrightarrow> recovery_inv (snd (expire_live_lease l s))"
  by (simp add: expire_live_lease_def expire_live_lease_eq quarantine_inv)

end
