(* ===== verification/RecoveryUpdates.thy ===== *)
theory RecoveryUpdates
  imports RecoveryInvariant
begin

text \<open>
  The device update protocol keeps \<open>recovery_inv\<close>: claim, materialise, link, publish the fence,
  reopen, finish, and the two ways the daemon takes over an update whose owner is gone.
\<close>

section \<open>Preservation: device updates\<close>

definition prelink_state :: "update_state \<Rightarrow> bool" where
  "prelink_state st \<longleftrightarrow>
     st = Update_Initializing \<or> st = Update_Prepared \<or> st = Update_Linking"

lemma prelink_state_simps [simp]:
  "prelink_state Update_Initializing" "prelink_state Update_Prepared" "prelink_state Update_Linking"
  "prelink_state st \<Longrightarrow> st \<noteq> Update_Active \<and> st \<noteq> Update_FencePublished \<and> st \<noteq> Update_Free"
  by (auto simp: prelink_state_def)

lemma update_ok_prelink:
  assumes "update_ok lim ds dg dut ep u" and "prelink_state (up_state u)"
    and "prelink_state st \<or> st = Update_Aborted \<or> st = Update_Closed"
  shows "update_ok lim ds dg dut ep (u\<lparr>up_state := st\<rparr>)"
  using assms by (auto simp: update_ok_def prelink_state_def)

lemma claim_device_update_inv [op_inv]:
  assumes "recovery_inv s"
  shows "recovery_inv (snd (claim_device_update t s))"
  using inv_parts(2) [OF assms] word_less_Suc [of "m_device_generation s"] word_less_Suc [of "m_epoch s"]
  by (auto simp: claim_device_update_def checked_add_widen_iff
      checked_add_one_iff [of "m_epoch s"] next_tag_iff update_ok_def word_gt_0 split: option.split intro!: inv_set_update assms)

lemma materialize_device_update_inv [op_inv]:
  "recovery_inv s \<Longrightarrow> recovery_inv (snd (materialize_device_update t s))"
  by (auto simp: materialize_device_update_def Let_def inv_tags
      intro!: inv_set_update update_ok_prelink inv_parts(5))

lemma prepare_device_update_inv [op_inv]:
  "recovery_inv s \<Longrightarrow> recovery_inv (snd (prepare_device_update t s))"
  unfolding prepare_device_update_def by (intro seq_inv op_inv)

lemma begin_device_update_link_inv [op_inv]:
  "recovery_inv s \<Longrightarrow> recovery_inv (snd (begin_device_update_link t s))"
  by (auto simp: begin_device_update_link_def Let_def inv_tags
      intro!: inv_set_update update_ok_prelink inv_parts(5))

lemma activate_device_update_inv:
  assumes "recovery_inv s" and "up_state (m_update s) = Update_Linking"
    and "m_view_state s = View_Open" and "m_device_state s = Device_Open"
    and "up_tag (m_update s) = t"
  shows "recovery_inv (activate_device_update t s)"
proof -
  let ?u = "m_update s"
  have "0 < up_tag ?u" and gen: "up_old_generation ?u < up_new_generation ?u"
    "up_new_generation ?u < generation_terminal (m_limits s)"
    "up_old_epoch ?u < up_new_epoch ?u" "up_new_epoch ?u < epoch_terminal (m_limits s)"
    using inv_parts(5) [OF assms(1)] assms(2) by (simp_all add: update_ok_def)
  then have "0 < up_new_generation ?u" "0 < up_new_epoch ?u"
    "up_new_generation ?u \<le> generation_terminal (m_limits s)"
    "up_new_generation ?u \<noteq> generation_terminal (m_limits s)"
    by (auto simp: word_gt_0)
  with gen \<open>0 < up_tag ?u\<close> show ?thesis
    using inv_parts [OF assms(1)] inv_tags [OF assms(1)] assms(2-)
    by (simp add: activate_device_update_def Let_def recovery_inv_def tags_ok_def controls_ok_def
        counters_ok_def update_ok_def)
qed

lemma complete_device_update_link_inv [op_inv]:
  "recovery_inv s \<Longrightarrow> recovery_inv (snd (complete_device_update_link t s))"
  using activate_device_update_inv [of s t] inv_tags [of s]
  by (auto simp: complete_device_update_link_def Let_def
      intro!: inv_set_update update_ok_prelink inv_parts(5))

lemma link_device_update_inv [op_inv]:
  "recovery_inv s \<Longrightarrow> recovery_inv (snd (link_device_update t s))"
  unfolding link_device_update_def by (intro seq_inv op_inv)

lemma update_ok_published:
  assumes "update_ok lim ds dg dut ep u" and "up_state u = Update_Active"
  shows "update_ok lim ds dg dut ep
     (u\<lparr>up_fence_published := True, up_state := Update_FencePublished\<rparr>)"
  using assms by (simp add: update_ok_def)

lemma publish_device_update_inv [op_inv]:
  "recovery_inv s \<Longrightarrow> recovery_inv (snd (publish_device_update t s))"
  using inv_tags [of s] by (auto simp: publish_device_update_def Let_def
      intro!: inv_set_update update_ok_published inv_parts(5))

lemma reopen_inv:
  assumes "recovery_inv s" and "m_device_state s = Device_Updating"
    and "up_state (m_update s) = Update_FencePublished"
  shows "recovery_inv (s\<lparr>m_device_state := Device_Open, m_device_update_tag := 0,
      m_update := (m_update s)\<lparr>up_state := Update_Reopened\<rparr>\<rparr>)"
  using inv_parts [OF assms(1)] inv_tags [OF assms(1)] assms(2,3)
  by (auto simp add: recovery_inv_def tags_ok_def update_ok_def controls_ok_def lease_ok_def)

lemma reopen_device_update_inv [op_inv]:
  "recovery_inv s \<Longrightarrow> recovery_inv (snd (reopen_device_update t s))"
  by (auto simp: reopen_device_update_def Let_def update_tuple_matches_def intro: reopen_inv)

lemma update_ok_terminal:
  assumes "update_ok lim ds dg dut ep u"
    and "up_state u = Update_Reopened \<or> up_state u = Update_Aborted \<or> up_state u = Update_Closed"
  shows "update_ok lim ds dg dut ep (u\<lparr>up_state := Update_Terminal\<rparr>)"
  using assms(2,1) by (elim disjE) (simp_all add: update_ok_def)

lemma finish_device_update_inv [op_inv]:
  "recovery_inv s \<Longrightarrow> recovery_inv (snd (finish_device_update t s))"
  using inv_tags [of s] by (auto simp: finish_device_update_def Let_def
      intro!: inv_set_update update_ok_terminal inv_parts(5))

lemma update_ok_owner [simp]:
  "update_ok lim ds dg dut ep (u\<lparr>up_owner := x\<rparr>) = update_ok lim ds dg dut ep u"
  by (simp add: update_ok_def)

lemma close_unless_inv:
  assumes "recovery_inv s" and "recovery_inv (snd (f s))"
    and "up_state (m_update s) = st \<Longrightarrow> fst (f s)"
  shows "recovery_inv (close_unless st f s)"
  using assms by (auto simp: close_unless_def Let_def split: prod.split)

lemma publish_succeeds:
  "recovery_inv s \<Longrightarrow> up_state (m_update s) = Update_Active \<Longrightarrow> up_tag (m_update s) = t \<Longrightarrow>
     fst (publish_device_update t s)"
  using inv_parts(5) [of s]
  by (auto simp: publish_device_update_def Let_def update_tuple_matches_def update_ok_def)

lemma reopen_succeeds:
  "recovery_inv s \<Longrightarrow> up_state (m_update s) = Update_FencePublished \<Longrightarrow>
     up_tag (m_update s) = t \<Longrightarrow> fst (reopen_device_update t s)"
  using inv_parts(5) [of s]
  by (auto simp: reopen_device_update_def Let_def update_tuple_matches_def update_ok_def)

lemma recover_link_inv:
  "recovery_inv s \<Longrightarrow> up_tag (m_update s) = t \<Longrightarrow> recovery_inv (recover_link t s)"
  using activate_device_update_inv [of s t] inv_tags [of s]
  by (auto simp: recover_link_def Let_def intro!: inv_set_update update_ok_prelink inv_parts(5))

lemma terminate_update_inv:
  assumes "recovery_inv s"
  shows "recovery_inv (terminate_update s)"
  using assms finish_device_update_inv [OF assms, of "up_tag (m_update s)"]
  by (simp add: terminate_update_def finish_device_update_def Let_def split: if_splits)

lemma recover_link_tag [simp]: "up_tag (m_update (recover_link t s)) = up_tag (m_update s)"
  by (simp add: recover_link_def activate_device_update_def Let_def)

lemma close_unless_tag:
  "up_tag (m_update (snd (f s))) = up_tag (m_update s) \<Longrightarrow>
     up_tag (m_update (close_unless st f s)) = up_tag (m_update s)"
  by (auto simp: close_unless_def split: prod.split)

lemma publish_device_update_tag [simp]:
  "up_tag (m_update (snd (publish_device_update t s))) = up_tag (m_update s)"
  by (simp add: publish_device_update_def Let_def)

lemma recover_dead_device_update_inv [op_inv]:
  assumes "recovery_inv s"
  shows "recovery_inv (snd (recover_dead_device_update t s))"
proof (cases "up_tag (m_update s) = t")
  case True
  let ?s1 = "recover_link t (s\<lparr>m_update := (m_update s)\<lparr>up_owner := Owner_Dead\<rparr>\<rparr>)"
  let ?s2 = "close_unless Update_Active (publish_device_update t) ?s1"
  let ?s3 = "close_unless Update_FencePublished (reopen_device_update t) ?s2"
  have "recovery_inv ?s1"
    using True inv_tags(3) [OF assms]
    by (intro recover_link_inv inv_set_update assms) (simp_all add: inv_parts(5) [OF assms])
  moreover have "up_tag (m_update ?s1) = t" using True by simp
  ultimately have s2: "recovery_inv ?s2"
    by (blast intro: close_unless_inv publish_device_update_inv publish_succeeds)
  have "up_tag (m_update ?s2) = t" using True by (simp add: close_unless_tag)
  with s2 have "recovery_inv ?s3"
    by (blast intro: close_unless_inv reopen_device_update_inv reopen_succeeds)
  then show ?thesis
    using True by (simp add: recover_dead_device_update_def Let_def terminate_update_inv)
qed (simp add: recover_dead_device_update_def assms)

lemma expire_live_device_update_inv [op_inv]:
  "recovery_inv s \<Longrightarrow> recovery_inv (snd (expire_live_device_update t s))"
  using quarantine_inv [of s]
  by (auto simp: expire_live_device_update_def Let_def quarantine_def quarantine_update_def)

end
