(* ===== verification/RecoveryRanges.thy ===== *)
theory RecoveryRanges
  imports RecoveryInvariant
begin

text \<open>
  The lifecycle ranges keep \<open>recovery_inv\<close>: a claimed range starts right behind the allocation
  high water and stays below the terminal, opening it moves the high water to its end, and the
  head is replaced only after it was archived.
\<close>

lemma publication_ok_closed_range:
  assumes "publication_ok vs c r p v" and "rg_state r \<noteq> Range_Open"
  shows "publication_ok vs c r' p v"
proof -
  have "\<not> live_publish_state (pb_state p)"
    using publication_okD(2) [OF assms(1)] assms(2) by (auto simp: record_matches_def)
  moreover have "\<not> (pb_state p = Publish_Aborted \<and> vs = View_Open)"
    using publication_okD(9) [OF assms(1)] assms(2) by (auto simp: record_matches_def)
  ultimately show ?thesis
    using publication_okD(6,7,8,10,11) [OF assms(1)]
    by (intro publication_ok_dead) (auto simp: live_publish_state_def)
qed

lemma inv_set_head:
  assumes "recovery_inv s" and "ranges_ok (m_limits s) (m_allocation_high_water s) r
      (m_following_range s)"
    and "t < tag_terminal (m_limits s)" and "rg_tag r < tag_terminal (m_limits s)"
    and "rg_state (m_range s) \<noteq> Range_Open"
  shows "recovery_inv (s\<lparr>m_range_tag_high_water := t, m_range := r\<rparr>)"
  using inv_parts [OF assms(1)] inv_tags [OF assms(1)] assms(2-)
    publication_ok_closed_range [OF inv_parts(8) [OF assms(1)] assms(5)]
  by (simp add: recovery_inv_def tags_ok_def)

lemma inv_set_following:
  assumes "recovery_inv s" and "ranges_ok (m_limits s) (m_allocation_high_water s) (m_range s) r"
    and "t < tag_terminal (m_limits s)" and "rg_tag r < tag_terminal (m_limits s)"
  shows "recovery_inv (s\<lparr>m_range_tag_high_water := t, m_following_range := r\<rparr>)"
  using inv_parts [OF assms(1)] inv_tags [OF assms(1)] assms(2-)
  by (simp add: recovery_inv_def tags_ok_def)

lemma inv_set_retired:
  assumes "recovery_inv s" and "retired_ok (m_limits s) rs n"
  shows "recovery_inv (s\<lparr>m_retired_ranges := rs, m_retired_range_count := n\<rparr>)"
  using assms by (simp add: recovery_inv_def)

section \<open>Claiming\<close>

lemma claimed_bounds:
  fixes a :: u64
  assumes "unat a + unat n < unat t" and "n \<noteq> 0"
  shows "a + 1 \<noteq> 0" and "a + 1 \<le> a + n" and "a + n < t"
proof -
  from assms(1) have "unat (a + n) = unat a + unat n" by unat_arith
  then show "a + n < t" using assms(1) by (simp add: word_less_nat_alt)
  show "a + 1 \<noteq> 0" using assms by unat_arith
  show "a + 1 \<le> a + n" using assms by unat_arith
qed

lemma claimed_valid:
  assumes "unat a + unat n < unat (sequence_terminal lim)" and "n \<noteq> 0"
    and "g < generation_terminal lim" and "g + 1 < generation_terminal lim"
  shows "valid_range lim \<lparr>rg_tag = t, rg_state = Range_Initializing, rg_begin = a + 1,
     rg_end = a + n, rg_token_generation = g + 1, rg_unused_suffix_begin = 0,
     rg_unused_suffix_end = 0\<rparr>"
  using claimed_bounds [OF assms(1,2)] word_Suc_nonzero [OF assms(3)] assms(4)
  by (simp add: valid_range_def not_le not_less)

lemma ranges_ok_claim_head:
  assumes "ranges_ok lim alloc r f" and "rg_state f = Range_Free" and "valid_range lim r'"
    and "rg_state r' = Range_Initializing" and "rg_begin r' = alloc + 1"
  shows "ranges_ok lim alloc r' f"
  using assms by (simp add: ranges_ok_def)

lemma ranges_ok_claim_following:
  assumes "ranges_ok lim alloc r f" and "rg_state f = Range_Free" and "rg_state r = Range_Open"
    and "valid_range lim r'" and "rg_state r' = Range_Initializing" and "rg_begin r' = alloc + 1"
  shows "ranges_ok lim alloc r r'"
  using assms by (simp add: ranges_ok_def)

lemma retired_ok_archive:
  assumes "retired_ok lim rs n" and "unat n < length rs" and "rg_state r = Range_Retired"
    and "valid_range lim r"
  shows "retired_ok lim (rs[unat n := r]) (n + 1)"
proof -
  have "n < 2" using assms(1,2) by (simp add: retired_ok_def word_less_nat_alt)
  from unat_Suc_below [OF this] have "unat (n + 1) = Suc (unat n)" by simp
  then show ?thesis
    using assms by (simp add: retired_ok_def take_Suc_conv_app_nth list_update_append)
qed

lemma archive_inv [op_inv]:
  assumes "recovery_inv s" and "valid_range (m_limits s) r"
  shows "recovery_inv (snd (archive_retired_range r s))"
  using assms inv_parts(7) [OF assms(1)]
  by (auto simp: archive_retired_range_def intro!: inv_set_retired retired_ok_archive)

lemma archive_fields [simp]:
  "m_limits (snd (archive_retired_range r s)) = m_limits s"
  "m_range (snd (archive_retired_range r s)) = m_range s"
  "m_following_range (snd (archive_retired_range r s)) = m_following_range s"
  "m_allocation_high_water (snd (archive_retired_range r s)) = m_allocation_high_water s"
  "m_view_state (snd (archive_retired_range r s)) = m_view_state s"
  by (simp_all add: archive_retired_range_def)

lemma free_head:
  "ranges_ok lim a r f \<Longrightarrow> rg_state r = Range_Free \<Longrightarrow> rg_state f = Range_Free"
  by (auto simp: ranges_ok_def)

lemma inv_replace_head:
  assumes "recovery_inv s" and "ranges_ok (m_limits s) (m_allocation_high_water s) r
      (m_following_range s)"
    and "t < tag_terminal (m_limits s)" and "rg_tag r < tag_terminal (m_limits s)"
    and "rg_state (m_range s) \<noteq> Range_Open"
  shows "recovery_inv (s\<lparr>m_range := x, m_range_tag_high_water := t, m_range := r\<rparr>)"
  using inv_set_head [OF assms] by simp

lemma claim_range_inv [op_inv]:
  assumes "recovery_inv s"
  shows "recovery_inv (snd (claim_range t n s))"
proof -
  note parts = inv_parts [OF assms]
  have rng: "ranges_ok (m_limits s) (m_allocation_high_water s) (m_range s) (m_following_range s)"
    by (rule parts)
  have head: "rg_state (m_range s) \<noteq> Range_Terminal" "valid_range (m_limits s) (m_range s)"
    using rng by (simp_all add: ranges_ok_def)
  show ?thesis
    unfolding claim_range_def Let_def
    using assms head free_head [OF rng] archive_inv [OF assms head(2)]
    by (auto split: option.split simp: case_prod_unfold checked_add_widen_iff next_tag_iff
        checked_add_iff [of "m_allocation_high_water s"] set_range_at_def claimed_valid
        intro!: inv_set_head inv_replace_head inv_set_following
          ranges_ok_claim_head [OF rng] ranges_ok_claim_following [OF rng])
qed

section \<open>Preparing and opening\<close>

lemma range_state_only:
  "valid_range lim r \<Longrightarrow> rg_state r = Range_Initializing \<or> rg_state r = Range_Prepared \<Longrightarrow>
     st = Range_Prepared \<or> st = Range_Open \<Longrightarrow> valid_range lim (r\<lparr>rg_state := st\<rparr>)"
  by (auto simp: valid_range_def split: if_splits)

lemma initializing_range_state:
  assumes "initializing_range s t = Some slot"
  shows "rg_state (range_at s slot) = Range_Initializing \<or>
    rg_state (range_at s slot) = Range_Prepared"
  using assms by (auto simp: initializing_range_def range_at_def split: if_splits)

lemma inv_head_field:
  assumes "recovery_inv s" and "ranges_ok (m_limits s) (m_allocation_high_water s) r
      (m_following_range s)"
    and "rg_tag r < tag_terminal (m_limits s)" and "rg_state (m_range s) \<noteq> Range_Open"
  shows "recovery_inv (s\<lparr>m_range := r\<rparr>)"
  using inv_set_head [OF assms(1,2) inv_tags(4) [OF assms(1)] assms(3,4)] by simp

lemma inv_following_field:
  assumes "recovery_inv s" and "ranges_ok (m_limits s) (m_allocation_high_water s) (m_range s) r"
    and "rg_tag r < tag_terminal (m_limits s)"
  shows "recovery_inv (s\<lparr>m_following_range := r\<rparr>)"
  using inv_set_following [OF assms(1,2) inv_tags(4) [OF assms(1)] assms(3)] by simp

lemma ranges_ok_prepare:
  assumes "ranges_ok lim alloc r f"
  shows "rg_state r = Range_Initializing \<Longrightarrow> ranges_ok lim alloc (r\<lparr>rg_state := Range_Prepared\<rparr>) f"
    and "rg_state f = Range_Initializing \<Longrightarrow> ranges_ok lim alloc r (f\<lparr>rg_state := Range_Prepared\<rparr>)"
  using assms by (simp_all add: ranges_ok_def range_state_only)

lemma prepare_range_inv [op_inv]:
  assumes "recovery_inv s"
  shows "recovery_inv (snd (prepare_range t s))"
  using assms inv_tags [OF assms] ranges_ok_prepare [OF inv_parts(6) [OF assms]]
  by (auto simp: prepare_range_def range_at_def set_range_at_def
      split: option.split range_slot.split intro!: inv_head_field inv_following_field)

text \<open>
  Opening a prepared range: the high water moves to the range's end and the range's token
  generation becomes the current one. The publication record does not notice.
\<close>

lemma ranges_ok_open_head:
  assumes "ranges_ok lim alloc r f" and "rg_state r = Range_Prepared"
  shows "ranges_ok lim (rg_end r) (r\<lparr>rg_state := Range_Open\<rparr>) f"
proof -
  have "rg_state f = Range_Free" using assms unfolding ranges_ok_def by auto
  then show ?thesis using assms by (simp add: ranges_ok_def range_state_only)
qed

lemma ranges_ok_open_following:
  assumes "ranges_ok lim alloc r f" and "rg_state f = Range_Prepared" and "rg_state r = Range_Open"
    and "alloc \<le> rg_end f"
  shows "ranges_ok lim (rg_end f) r (f\<lparr>rg_state := Range_Open\<rparr>)"
  using assms by (auto simp: ranges_ok_def range_state_only)

lemma prepared_bounds:
  assumes "valid_range lim r" and "rg_state r = Range_Prepared" and "rg_begin r = a + 1"
    and "a < sequence_terminal lim"
  shows "a \<le> rg_end r" and "rg_end r < sequence_terminal lim"
    and "0 < rg_token_generation r" and "rg_token_generation r < generation_terminal lim"
proof -
  have b: "rg_begin r \<le> rg_end r" "rg_end r < sequence_terminal lim"
    "rg_token_generation r \<noteq> 0" "rg_token_generation r < generation_terminal lim"
    using assms(1,2) by (auto simp: valid_range_def not_le not_less split: if_splits)
  then show "rg_end r < sequence_terminal lim" "rg_token_generation r < generation_terminal lim"
    and "0 < rg_token_generation r" by (simp_all add: word_gt_0)
  show "a \<le> rg_end r"
    using b(1) word_less_Suc [OF assms(4)] assms(3) by auto
qed

lemma inv_open:
  assumes "recovery_inv s" and "ranges_ok (m_limits s) e r f"
    and "m_allocation_high_water s \<le> e" and "e < sequence_terminal (m_limits s)"
    and "0 < g" and "g < generation_terminal (m_limits s)"
    and "rg_tag r < tag_terminal (m_limits s)" and "rg_tag f < tag_terminal (m_limits s)"
    and "r = m_range s \<or> rg_state (m_range s) \<noteq> Range_Open"
  shows "recovery_inv (s\<lparr>m_allocation_high_water := e, m_range_token_generation := g,
    m_range := r, m_following_range := f\<rparr>)"
proof -
  have "publication_ok (m_view_state s) (m_publication_cursor s) r (m_publication s)
      (m_intermediate_visible s)"
    using assms(9) inv_parts(8) [OF assms(1)] publication_ok_closed_range by blast
  then show ?thesis
    using inv_parts(1-5,7) [OF assms(1)] inv_tags [OF assms(1)] assms(2-8)
    by (auto simp add: recovery_inv_def tags_ok_def counters_ok_def)
qed

lemma open_range_success:
  assumes "fst (open_range t s)"
  obtains slot where "rg_state (range_at s slot) = Range_Prepared"
    and "slot = Following_Slot \<Longrightarrow> rg_state (m_range s) = Range_Open"
    and "m_range_token_generation s < generation_terminal (m_limits s)"
    and "widen (rg_token_generation (range_at s slot)) = widen (m_range_token_generation s + 1)"
    and "open_range t s = (True, set_range_at slot ((range_at s slot)\<lparr>rg_state := Range_Open\<rparr>)
      (s\<lparr>m_allocation_high_water := rg_end (range_at s slot),
         m_range_token_generation := rg_token_generation (range_at s slot)\<rparr>))"
proof (cases "initializing_range s t")
  case None
  with assms show ?thesis by (simp add: open_range_def)
next
  case (Some slot)
  obtain g where g: "checked_add_below_terminal (widen (m_range_token_generation s)) 1
      (widen (generation_terminal (m_limits s))) = Some g"
    using assms Some by (auto simp: open_range_def Let_def split: option.splits if_splits)
  show ?thesis
    by (rule that [of slot]; use assms Some g in \<open>simp add: open_range_def Let_def split: if_splits\<close>;
        use g in \<open>simp add: checked_add_widen_iff\<close>)
qed

lemma open_range_inv [op_inv]:
  assumes "recovery_inv s"
  shows "recovery_inv (snd (open_range t s))"
proof (cases "fst (open_range t s)")
  case False
  then show ?thesis using assms
    by (auto simp: open_range_def Let_def split: option.splits if_splits)
next
  case True
  then obtain slot where prep: "rg_state (range_at s slot) = Range_Prepared"
    and foll: "slot = Following_Slot \<Longrightarrow> rg_state (m_range s) = Range_Open"
    and eq: "open_range t s = (True, set_range_at slot ((range_at s slot)\<lparr>rg_state := Range_Open\<rparr>)
      (s\<lparr>m_allocation_high_water := rg_end (range_at s slot),
         m_range_token_generation := rg_token_generation (range_at s slot)\<rparr>))"
    by (rule open_range_success) blast
  let ?lim = "m_limits s" and ?a = "m_allocation_high_water s"
  have rng: "ranges_ok ?lim ?a (m_range s) (m_following_range s)" by (rule inv_parts(6) [OF assms])
  have "valid_range ?lim (range_at s slot)" "rg_begin (range_at s slot) = ?a + 1"
    using rng prep by (cases slot; simp add: range_at_def ranges_ok_def)+
  moreover have "?a < sequence_terminal ?lim"
    using inv_parts(2) [OF assms] by (simp add: counters_ok_def)
  ultimately have b: "?a \<le> rg_end (range_at s slot)"
    "rg_end (range_at s slot) < sequence_terminal ?lim"
    "0 < rg_token_generation (range_at s slot)"
    "rg_token_generation (range_at s slot) < generation_terminal ?lim"
    using prepared_bounds [OF _ prep] by blast+
  show ?thesis
  proof (cases slot)
    case Head_Slot
    then have at: "range_at s slot = m_range s" by (simp add: range_at_def)
    then show ?thesis
      using inv_open [OF assms ranges_ok_open_head [OF rng] b [unfolded at]] prep eq Head_Slot
        inv_tags [OF assms] by (simp add: set_range_at_def)
  next
    case Following_Slot
    then have at: "range_at s slot = m_following_range s" by (simp add: range_at_def)
    then show ?thesis
      using inv_open [OF assms ranges_ok_open_following [OF rng] b [unfolded at]] prep eq
        Following_Slot foll b(1) inv_tags [OF assms] by (simp add: set_range_at_def)
  qed
qed

lemma reserve_range_inv [op_inv]:
  "recovery_inv s \<Longrightarrow> recovery_inv (snd (reserve_range t n s))"
  unfolding reserve_range_def by (intro seq_inv op_inv)

section \<open>Advancing the head\<close>

lemma empty_range_simps [simp]:
  "rg_state empty_range = Range_Free" "valid_range lim empty_range" "rg_tag empty_range = 0"
  by (simp_all add: empty_range_def valid_range_def)

lemma advance_range_head_inv [op_inv]:
  assumes "recovery_inv s"
  shows "recovery_inv (snd (advance_range_head s))"
proof (cases "rg_state (m_range s) = Range_Retired \<and> rg_state (m_following_range s) = Range_Open")
  case True
  let ?s1 = "snd (archive_retired_range (m_range s) s)"
  have rng: "ranges_ok (m_limits s) (m_allocation_high_water s) (m_range s) (m_following_range s)"
    by (rule inv_parts(6) [OF assms])
  then have s1: "recovery_inv ?s1"
    using archive_inv [OF assms] by (simp add: ranges_ok_def)
  have "0 < tag_terminal (m_limits s)"
    using inv_tags(1) [OF assms] by (auto simp: word_gt_0)
  moreover have "ranges_ok (m_limits s) (m_allocation_high_water s) (m_following_range s) empty_range"
    using rng True by (simp add: ranges_ok_def)
  ultimately have "recovery_inv (?s1\<lparr>m_range := m_following_range ?s1, m_following_range := empty_range\<rparr>)"
    using inv_parts [OF s1] inv_tags [OF s1] True
      publication_ok_closed_range [OF inv_parts(8) [OF s1]]
    by (simp add: recovery_inv_def tags_ok_def)
  with s1 assms show ?thesis by (auto simp: advance_range_head_def Let_def case_prod_unfold)
qed (use assms in \<open>auto simp: advance_range_head_def\<close>)

end
