(* ===== verification/RecoveryPublications.thy ===== *)
theory RecoveryPublications
  imports RecoveryInvariant
begin

text \<open>
  The publication protocol keeps \<open>recovery_inv\<close>: a publication is claimed against the open head,
  its target is the next sequence number of that range, applying it moves the cursor to the
  target, and finishing it retires the range. The recovery of a dead publisher is followed to
  its exact outcome.
\<close>

section \<open>Claiming\<close>

lemma matching_head_open:
  assumes "ranges_ok (m_limits s) a (m_range s) (m_following_range s)"
    and "range_token_valid s token" and "range_record_matches s (m_range s) token"
  shows "rg_state (m_range s) = Range_Open"
proof (rule ccontr)
  assume "rg_state (m_range s) \<noteq> Range_Open"
  then have f: "rg_state (m_following_range s) = Range_Open"
    "rg_begin (m_following_range s) = rg_begin (m_range s)"
    using assms(2,3) by (auto simp: range_token_valid_def range_record_matches_def)
  then have r: "rg_state (m_range s) \<noteq> Range_Free"
    "rg_end (m_range s) + 1 = rg_begin (m_following_range s)"
    using assms(1) unfolding ranges_ok_def by auto
  then have "rg_begin (m_range s) \<le> rg_end (m_range s)"
    "rg_end (m_range s) < sequence_terminal (m_limits s)"
    using assms(1) by (auto simp: ranges_ok_def valid_range_def not_le not_less split: if_splits)
  with word_less_Suc [OF this(2)] r(2) f(2) show False by simp
qed

lemma range_token_valid_open: "range_token_valid s token \<Longrightarrow> m_view_state s = View_Open"
  by (simp add: range_token_valid_def)

lemma publication_ok_claimed:
  assumes "rg_state r = Range_Open" and "c < t" and "max (rg_begin r) (c + 1) \<le> rg_end r"
    and "\<not> v" and "rt_range_tag token = rg_tag r"
    and "rt_token_generation token = rg_token_generation r"
    and "rt_range_begin token = rg_begin r" and "rt_range_end token = rg_end r"
  shows "publication_ok View_Open c r
    \<lparr>pb_tag = tag, pb_state = Publish_Initializing, pb_owner = Owner_Live,
     pb_range_tag = rt_range_tag token, pb_token_generation = rt_token_generation token,
     pb_range_begin = rt_range_begin token, pb_range_end = rt_range_end token,
     pb_target_sequence = max (rg_begin r) (c + 1), pb_payload_applied = False,
     pb_requires_compensation = b\<rparr> v"
  using assms word_less_Suc [OF assms(2)]
  by (auto simp: publication_ok_def record_matches_def less_max_iff_disj)

lemma idle_not_visible:
  assumes "publication_ok vs c r p v"
    and "pb_state p = Publish_Free \<or> pb_state p = Publish_Terminal \<or> pb_state p = Publish_Aborted"
  shows "\<not> v"
  using publication_okD(8) [OF assms(1)] assms(2) by auto

lemma claim_publication_token_inv [op_inv]:
  assumes "recovery_inv s"
  shows "recovery_inv (snd (claim_publication_token token t b s))"
proof (cases "fst (claim_publication_token token t b s)")
  case False
  then show ?thesis using assms
    by (auto simp: claim_publication_token_def Let_def split: option.splits if_splits)
next
  case True
  then have tok: "range_token_valid s token" "range_record_matches s (m_range s) token"
    and idle: "pb_state (m_publication s) = Publish_Free \<or> pb_state (m_publication s) = Publish_Terminal"
    and tag: "next_tag s (pb_tag (m_publication s)) t"
    and add: "m_publication_cursor s < sequence_terminal (m_limits s)"
      "max (rg_begin (m_range s)) (m_publication_cursor s + 1) \<le> rg_end (m_range s)"
    by (auto simp: claim_publication_token_def Let_def checked_add_one_iff not_less
        split: option.splits if_splits)
  have "rg_state (m_range s) = Range_Open"
    by (rule matching_head_open [OF inv_parts(6) [OF assms] tok])
  with tok(2) have "publication_ok View_Open (m_publication_cursor s) (m_range s)
    \<lparr>pb_tag = t, pb_state = Publish_Initializing, pb_owner = Owner_Live,
     pb_range_tag = rt_range_tag token, pb_token_generation = rt_token_generation token,
     pb_range_begin = rt_range_begin token, pb_range_end = rt_range_end token,
     pb_target_sequence = max (rg_begin (m_range s)) (m_publication_cursor s + 1),
     pb_payload_applied = False, pb_requires_compensation = b\<rparr> (m_intermediate_visible s)"
    using idle_not_visible [OF inv_parts(8) [OF assms]] idle add
    by (intro publication_ok_claimed [OF _ add]) (auto simp: range_record_matches_def)
  then show ?thesis
    using assms True tag range_token_valid_open [OF tok(1)]
    by (auto simp: claim_publication_token_def Let_def checked_add_one_iff next_tag_iff
        split: option.splits if_splits intro!: inv_set_publication)
qed

lemma claim_publication_inv [op_inv]:
  "recovery_inv s \<Longrightarrow> recovery_inv (snd (claim_publication t b s))"
  by (auto simp: claim_publication_def claim_publication_token_inv split: option.split)

section \<open>Driving a publication forward\<close>

lemma record_matches_state [simp]:
  "record_matches r (p\<lparr>pb_state := st\<rparr>) = record_matches r p"
  "record_matches r (p\<lparr>pb_owner := ow\<rparr>) = record_matches r p"
  "record_matches r (p\<lparr>pb_payload_applied := b\<rparr>) = record_matches r p"
  by (simp_all add: record_matches_def)

lemma publication_ok_pending:
  assumes "live_publish_state (pb_state p)" and "pb_state p \<noteq> Publish_Published"
    and "\<not> pb_payload_applied p" and "vs = View_Open" and "record_matches r p"
    and "rg_begin r \<le> pb_target_sequence p" and "pb_target_sequence p \<le> rg_end r"
    and "c < pb_target_sequence p" and "pb_target_sequence p = max (rg_begin r) (c + 1)" and "\<not> v"
  shows "publication_ok vs c r p v"
  unfolding publication_ok_def using assms by auto

lemma publication_ok_applied:
  assumes "pb_state p = Publish_Active \<or> pb_state p = Publish_Published"
    and "pb_payload_applied p" and "vs = View_Open" and "record_matches r p"
    and "rg_begin r \<le> pb_target_sequence p" and "pb_target_sequence p \<le> c" and "c \<le> rg_end r"
    and "v \<or> pb_state p = Publish_Active \<Longrightarrow> c = pb_target_sequence p"
  shows "publication_ok vs c r p v"
  unfolding publication_ok_def using assms by auto

lemma publication_ok_advance:
  assumes "publication_ok vs c r p v" and "live_publish_state (pb_state p)"
    and "\<not> pb_payload_applied p" and "live_publish_state st" and "st \<noteq> Publish_Published"
  shows "publication_ok vs c r (p\<lparr>pb_state := st\<rparr>) v"
proof (rule publication_ok_pending)
  show "\<not> v" using publication_okD(7) [OF assms(1)] assms(3) by blast
qed (use publication_okD(1-4) [OF assms(1)] assms(2-) in \<open>auto\<close>)

lemma publication_not_applied:
  assumes "publication_ok vs c r p v"
    and "pb_state p = Publish_Initializing \<or> pb_state p = Publish_Prepared \<or>
         pb_state p = Publish_Linking"
  shows "\<not> pb_payload_applied p"
  using publication_okD(10) [OF assms(1)] assms(2) by auto

lemmas publication_update = inv_set_publication publication_ok_advance
  publication_not_applied

lemma prepare_publication_inv [op_inv]:
  "recovery_inv s \<Longrightarrow> recovery_inv (snd (prepare_publication t s))"
  using inv_tags(7) [of s] publication_not_applied [OF inv_parts(8) [of s]]
  by (auto simp: prepare_publication_def Let_def intro!: publication_update inv_parts(8))

lemma link_publication_inv [op_inv]:
  "recovery_inv s \<Longrightarrow> recovery_inv (snd (link_publication t s))"
  using inv_tags(7) [of s] publication_not_applied [OF inv_parts(8) [of s]]
  by (auto simp: link_publication_def Let_def intro!: publication_update inv_parts(8))

lemma activate_publication_inv [op_inv]:
  "recovery_inv s \<Longrightarrow> recovery_inv (snd (activate_publication t s))"
  using inv_tags(7) [of s] publication_not_applied [OF inv_parts(8) [of s]]
  by (auto simp: activate_publication_def Let_def intro!: publication_update inv_parts(8))

lemma publication_ok_apply:
  assumes "publication_ok vs c r p v" and "pb_state p = Publish_Active"
    and "\<not> pb_payload_applied p"
  shows "publication_ok vs (pb_target_sequence p) r (p\<lparr>pb_payload_applied := True\<rparr>) b"
  by (rule publication_ok_applied) (use publication_okD(1-4) [OF assms(1)] assms(2-) in \<open>auto\<close>)

lemma open_head_bound:
  "ranges_ok lim a r f \<Longrightarrow> rg_state r = Range_Open \<Longrightarrow> rg_end r \<le> a"
  by (simp add: ranges_ok_def)

lemma apply_publication_cases:
  "apply_publication t s = (False, s) \<or>
   apply_publication t s = (True, s\<lparr>m_publication_cursor := pb_target_sequence (m_publication s),
      m_publication := (m_publication s)\<lparr>pb_payload_applied := True\<rparr>,
      m_intermediate_visible := pb_requires_compensation (m_publication s)\<rparr>)"
  by (simp add: apply_publication_def Let_def split: option.split)

lemma apply_publication_inv [op_inv]:
  assumes "recovery_inv s"
  shows "recovery_inv (snd (apply_publication t s))"
proof (cases "fst (apply_publication t s)")
  case False
  then show ?thesis using assms apply_publication_cases [of t s] by auto
next
  case True
  let ?p = "m_publication s"
  from True have p: "pb_state ?p = Publish_Active" "\<not> pb_payload_applied ?p"
    "record_matches (m_range s) ?p"
    by (auto simp: apply_publication_def Let_def split: option.splits if_splits)
  have eq: "snd (apply_publication t s) = s\<lparr>m_publication_cursor := pb_target_sequence ?p,
      m_publication := ?p\<lparr>pb_payload_applied := True\<rparr>,
      m_intermediate_visible := pb_requires_compensation ?p\<rparr>"
    using True apply_publication_cases [of t s] by auto
  have "pb_target_sequence ?p \<le> m_allocation_high_water s"
    using publication_okD(3) [OF inv_parts(8) [OF assms]] p
      open_head_bound [OF inv_parts(6) [OF assms]] by (force simp: record_matches_def)
  then have "counters_ok (m_limits s) (m_allocation_high_water s) (pb_target_sequence ?p)
      (m_view_generation s) (m_device_generation s) (m_range_token_generation s) (m_epoch s)"
    using inv_parts(2) [OF assms] by (simp add: counters_ok_def)
  then show ?thesis
    unfolding eq using inv_parts(1,3-7) [OF assms] inv_tags [OF assms]
      publication_ok_apply [OF inv_parts(8) [OF assms] p(1,2)]
    by (simp add: recovery_inv_def tags_ok_def)
qed

lemma publication_ok_mark:
  assumes "publication_ok vs c r p v" and "pb_state p = Publish_Active" and "pb_payload_applied p"
    and "c = pb_target_sequence p"
  shows "publication_ok vs c r (p\<lparr>pb_state := Publish_Published\<rparr>) v"
  by (rule publication_ok_applied) (use publication_okD(1-3) [OF assms(1)] assms(2-) in \<open>auto\<close>)

lemma mark_publication_inv [op_inv]:
  "recovery_inv s \<Longrightarrow> recovery_inv (snd (mark_publication t s))"
  using inv_tags(7) [of s]
  by (auto simp: mark_publication_def Let_def
      intro!: inv_set_publication publication_ok_mark inv_parts(8))

lemma publication_ok_abort:
  assumes "publication_ok vs c r p v"
    and "pb_state p = Publish_Initializing \<or> pb_state p = Publish_Prepared"
  shows "publication_ok vs c r (p\<lparr>pb_state := Publish_Aborted\<rparr>) v"
  by (rule publication_ok_dead)
    (use publication_okD(1,2,7,8,10) [OF assms(1)] assms(2) in \<open>auto\<close>)

lemma abort_publication_inv [op_inv]:
  "recovery_inv s \<Longrightarrow> recovery_inv (snd (abort_publication t s))"
  using inv_tags(7) [of s]
  by (auto simp: abort_publication_def Let_def
      intro!: inv_set_publication publication_ok_abort inv_parts(8))

section \<open>Finishing\<close>

lemma retire_record_simps [simp]:
  "rg_state (retire_record c r) = Range_Retired" "rg_tag (retire_record c r) = rg_tag r"
  "rg_begin (retire_record c r) = rg_begin r" "rg_end (retire_record c r) = rg_end r"
  by (simp_all add: retire_record_def)

lemma retire_record_valid:
  assumes "valid_range lim r" and "rg_state r = Range_Open"
  shows "valid_range lim (retire_record c r)"
  using assms word_less_Suc [of c "rg_end r"] word_Suc_le [of c "rg_end r"]
  by (auto simp: valid_range_def retire_record_def split: if_splits)

lemma ranges_ok_retire:
  assumes "ranges_ok lim a r f" and "rg_state r = Range_Open"
  shows "ranges_ok lim a (retire_record c r) f"
  using assms by (simp add: ranges_ok_def retire_record_valid)

lemma finish_publication_eq:
  "finish_publication t s =
    (let p = m_publication s in
     if pb_tag p = t \<and> record_matches (m_range s) p \<and>
        (pb_state p = Publish_Aborted \<or>
         pb_state p = Publish_Published \<and> \<not> m_intermediate_visible s)
     then (True, s\<lparr>m_range := retire_record (m_publication_cursor s) (m_range s),
                   m_publication := p\<lparr>pb_state := Publish_Terminal\<rparr>\<rparr>)
     else (False, s))"
  by (simp add: finish_publication_def retire_range_def Let_def)

lemma finish_publication_cases:
  "finish_publication t s = (False, s) \<or>
   finish_publication t s =
     (True, s\<lparr>m_range := retire_record (m_publication_cursor s) (m_range s),
              m_publication := (m_publication s)\<lparr>pb_state := Publish_Terminal\<rparr>\<rparr>)"
  by (simp add: finish_publication_eq Let_def)

lemma finish_publication_inv [op_inv]:
  assumes "recovery_inv s"
  shows "recovery_inv (snd (finish_publication t s))"
proof (cases "fst (finish_publication t s)")
  case True
  let ?p = "m_publication s"
  from True have g: "record_matches (m_range s) ?p"
    "pb_state ?p = Publish_Aborted \<or> pb_state ?p = Publish_Published \<and> \<not> m_intermediate_visible s"
    by (auto simp: finish_publication_eq Let_def split: if_splits)
  have eq: "snd (finish_publication t s) =
      s\<lparr>m_range := retire_record (m_publication_cursor s) (m_range s),
        m_publication := ?p\<lparr>pb_state := Publish_Terminal\<rparr>\<rparr>"
    using True finish_publication_cases [of t s] by auto
  have "publication_ok (m_view_state s) (m_publication_cursor s) r
      (?p\<lparr>pb_state := Publish_Terminal\<rparr>) (m_intermediate_visible s)" for r
    by (rule publication_ok_dead)
      (use g(2) publication_okD(8) [OF inv_parts(8) [OF assms]] in \<open>auto\<close>)
  moreover have "ranges_ok (m_limits s) (m_allocation_high_water s)
      (retire_record (m_publication_cursor s) (m_range s)) (m_following_range s)"
    by (rule ranges_ok_retire [OF inv_parts(6) [OF assms]]) (use g(1) in \<open>simp add: record_matches_def\<close>)
  ultimately show ?thesis
    unfolding eq using inv_parts(1-5,7) [OF assms] inv_tags [OF assms]
    by (simp add: recovery_inv_def tags_ok_def)
qed (use assms finish_publication_cases [of t s] in \<open>auto\<close>)

section \<open>Recovery of a dead publisher\<close>

lemma checked_add_one_eq:
  "checked_add_below_terminal c 1 t = (if c < t \<and> c + 1 < t then Some (c + 1) else None)"
  using checked_add_one_iff [of c t] by (cases "checked_add_below_terminal c 1 t") auto

lemma compensate_eq:
  "compensate s =
    (if m_intermediate_visible s \<and> m_view_state s = View_Open \<and>
        record_matches (m_range s) (m_publication s) \<and>
        m_publication_cursor s < sequence_terminal (m_limits s) \<and>
        m_publication_cursor s + 1 < sequence_terminal (m_limits s) \<and>
        m_publication_cursor s + 1 \<le> rg_end (m_range s)
     then (True, s\<lparr>m_publication_cursor := m_publication_cursor s + 1,
                   m_intermediate_visible := False,
                   m_compensation_count := m_compensation_count s + 1\<rparr>)
     else (False, s))"
proof -
  define r where "r = s\<lparr>m_publication_cursor := m_publication_cursor s + 1,
    m_intermediate_visible := False, m_compensation_count := m_compensation_count s + 1\<rparr>"
  show ?thesis
    unfolding compensate_def checked_add_one_eq publication_range_matches_iff
    by (simp add: r_def [symmetric] not_less) auto
qed

lemma compensate_inv:
  assumes "recovery_inv s" and "pb_state (m_publication s) = Publish_Published"
  shows "recovery_inv (snd (compensate s))"
proof (cases "fst (compensate s)")
  case True
  let ?c = "m_publication_cursor s" and ?p = "m_publication s"
  from True have g: "m_view_state s = View_Open" "record_matches (m_range s) ?p"
    "?c < sequence_terminal (m_limits s)" "?c + 1 \<le> rg_end (m_range s)"
    by (auto simp: compensate_eq split: if_splits)
  note d = publication_okD [OF inv_parts(8) [OF assms(1)]]
  have "pb_target_sequence ?p \<le> ?c + 1"
    using d(5,12) assms(2) word_less_Suc [OF g(3)] by auto
  then have "publication_ok View_Open (?c + 1) (m_range s) ?p False"
    using d(3,12) assms(2) g by (intro publication_ok_applied) auto
  moreover have "?c + 1 \<le> m_allocation_high_water s"
    using g open_head_bound [OF inv_parts(6) [OF assms(1)]] by (auto simp: record_matches_def)
  ultimately show ?thesis
    using inv_parts(1-7) [OF assms(1)] inv_tags [OF assms(1)] True g(1)
    by (simp add: compensate_eq recovery_inv_def tags_ok_def counters_ok_def split: if_splits)
qed (use assms in \<open>auto simp: compensate_eq split: if_splits\<close>)

lemma or_quarantine_ok:
  "(c \<Longrightarrow> fst (f s)) \<Longrightarrow> or_quarantine c f s = Inr (if c then snd (f s) else s)"
  by (auto simp: or_quarantine_def Let_def split: prod.split)

lemma quarantine_live:
  "live_publish_state (pb_state (m_publication s)) \<Longrightarrow>
     quarantine s\<lparr>m_publication :=
       (m_publication (quarantine s))\<lparr>pb_state := Publish_Quarantined\<rparr>\<rparr> = quarantine s"
  by (cases "pb_state (m_publication s)") (simp_all add: quarantine_def quarantine_publication_def)

lemma activate_succeeds:
  assumes "recovery_inv s" and "pb_state (m_publication s) = Publish_Linking"
    and "pb_tag (m_publication s) = t"
  shows "activate_publication t s =
    (True, s\<lparr>m_publication := (m_publication s)\<lparr>pb_state := Publish_Active\<rparr>\<rparr>)"
  using publication_okD(1,2) [OF inv_parts(8) [OF assms(1)]] assms(2-)
  by (simp add: activate_publication_def Let_def)

lemma apply_succeeds:
  assumes "recovery_inv s" and "pb_state (m_publication s) = Publish_Active"
    and "\<not> pb_payload_applied (m_publication s)" and "pb_tag (m_publication s) = t"
  shows "apply_publication t s =
    (True, s\<lparr>m_publication_cursor := pb_target_sequence (m_publication s),
      m_publication := (m_publication s)\<lparr>pb_payload_applied := True\<rparr>,
      m_intermediate_visible := pb_requires_compensation (m_publication s)\<rparr>)"
proof -
  let ?p = "m_publication s" and ?c = "m_publication_cursor s"
  note d = publication_okD [OF inv_parts(8) [OF assms(1)]]
  have m: "m_view_state s = View_Open" "record_matches (m_range s) ?p"
    "pb_target_sequence ?p \<le> rg_end (m_range s)" "?c < pb_target_sequence ?p"
    "pb_target_sequence ?p = max (rg_begin (m_range s)) (?c + 1)"
    using d(1-4) assms(2,3) by auto
  have "rg_end (m_range s) < sequence_terminal (m_limits s)"
    using open_head_bound [OF inv_parts(6) [OF assms(1)]] m(2) inv_parts(2) [OF assms(1)]
    by (auto simp: record_matches_def counters_ok_def)
  then have "?c < sequence_terminal (m_limits s)" "?c + 1 < sequence_terminal (m_limits s)"
    using m(3,4) word_Suc_le [OF m(4)] by auto
  then have "checked_add_below_terminal ?c 1 (sequence_terminal (m_limits s)) = Some (?c + 1)"
    by (simp add: checked_add_one_iff)
  then show ?thesis
    using assms(2-) m(1,2) m(5) [symmetric] by (simp add: apply_publication_def Let_def)
qed

lemma mark_succeeds:
  assumes "recovery_inv s" and "pb_state (m_publication s) = Publish_Active"
    and "pb_payload_applied (m_publication s)" and "pb_tag (m_publication s) = t"
  shows "mark_publication t s =
    (True, s\<lparr>m_publication := (m_publication s)\<lparr>pb_state := Publish_Published\<rparr>\<rparr>)"
proof -
  have "m_publication_cursor s = pb_target_sequence (m_publication s)"
    using inv_parts(8) [OF assms(1)] assms(2,3) unfolding publication_ok_def by simp
  then show ?thesis
    using publication_okD(1,2) [OF inv_parts(8) [OF assms(1)]] assms(2-)
    by (simp add: mark_publication_def Let_def)
qed

lemma finish_succeeds:
  assumes "recovery_inv s" and "pb_tag (m_publication s) = t"
    and "pb_state (m_publication s) = Publish_Published \<and> \<not> m_intermediate_visible s \<or>
         pb_state (m_publication s) = Publish_Aborted \<and> m_view_state s = View_Open"
  shows "finish_publication t s =
    (True, s\<lparr>m_range := retire_record (m_publication_cursor s) (m_range s),
             m_publication := (m_publication s)\<lparr>pb_state := Publish_Terminal\<rparr>\<rparr>)"
  using publication_okD(2,9) [OF inv_parts(8) [OF assms(1)]] assms(2,3)
  by (auto simp: finish_publication_eq Let_def)

text \<open>
  A publication that reached its link is driven to \<open>Published\<close>; none of these steps can fail in a
  reachable state.
\<close>

definition driven :: "u32 \<Rightarrow> model \<Rightarrow> model" where
  "driven t s =
    (let s2 = (if pb_state (m_publication s) = Publish_Linking
               then snd (activate_publication t s) else s);
         s3 = (if pb_state (m_publication s2) = Publish_Active \<and>
                  \<not> pb_payload_applied (m_publication s2)
               then snd (apply_publication t s2) else s2)
     in if pb_state (m_publication s3) = Publish_Active then snd (mark_publication t s3) else s3)"

lemma driven_inv: "recovery_inv s \<Longrightarrow> recovery_inv (driven t s)"
  by (simp add: driven_def Let_def op_inv)

text \<open>A linked publication leaves a visible intermediate state when it requires compensation.\<close>

definition exposes :: "model \<Rightarrow> bool" where
  "exposes s \<longleftrightarrow>
    (if pb_payload_applied (m_publication s) then m_intermediate_visible s
     else pb_requires_compensation (m_publication s))"

lemma driven_published:
  assumes "recovery_inv s" and "pb_state (m_publication s) = Publish_Published"
  shows "driven t s = s" and "exposes s = m_intermediate_visible s"
  using assms publication_okD(12) [OF inv_parts(8) [OF assms(1)]]
  by (simp_all add: driven_def exposes_def)

lemma driven_applied:
  assumes "recovery_inv s" and "pb_tag (m_publication s) = t"
    and "pb_state (m_publication s) = Publish_Active" and "pb_payload_applied (m_publication s)"
  shows "driven t s = s\<lparr>m_publication := (m_publication s)\<lparr>pb_state := Publish_Published\<rparr>\<rparr>"
  using mark_succeeds [OF assms(1,3,4,2)] assms(3,4) by (simp add: driven_def)

lemma driven_active:
  assumes "recovery_inv s" and "pb_tag (m_publication s) = t"
    and "pb_state (m_publication s) = Publish_Active" and "\<not> pb_payload_applied (m_publication s)"
  shows "driven t s = s\<lparr>m_publication_cursor := pb_target_sequence (m_publication s),
      m_publication := (m_publication s)\<lparr>pb_payload_applied := True, pb_state := Publish_Published\<rparr>,
      m_intermediate_visible := pb_requires_compensation (m_publication s)\<rparr>"
proof -
  note a = apply_succeeds [OF assms(1,3,4,2)]
  have "recovery_inv (snd (apply_publication t s))" by (rule apply_publication_inv [OF assms(1)])
  from mark_succeeds [OF this, of t] show ?thesis
    using assms(2-4) by (simp add: driven_def a)
qed

lemma driven_linking:
  assumes "recovery_inv s" and "pb_tag (m_publication s) = t"
    and "pb_state (m_publication s) = Publish_Linking"
  shows "driven t s = driven t (s\<lparr>m_publication := (m_publication s)\<lparr>pb_state := Publish_Active\<rparr>\<rparr>)"
    and "exposes (s\<lparr>m_publication := (m_publication s)\<lparr>pb_state := Publish_Active\<rparr>\<rparr>) = exposes s"
  using activate_succeeds [OF assms(1,3,2)] assms(3) by (simp_all add: driven_def exposes_def)

lemma driven_fields_active:
  assumes "recovery_inv s" and "pb_tag (m_publication s) = t"
    and "pb_state (m_publication s) = Publish_Active"
  shows "pb_state (m_publication (driven t s)) = Publish_Published \<and>
    pb_tag (m_publication (driven t s)) = t \<and>
    m_intermediate_visible (driven t s) = exposes s \<and>
    pb_target_sequence (m_publication (driven t s)) = pb_target_sequence (m_publication s) \<and>
    m_range (driven t s) = m_range s"
  using driven_applied [OF assms] driven_active [OF assms] assms(2)
  by (cases "pb_payload_applied (m_publication s)") (simp_all add: exposes_def)

lemma driven_fields:
  assumes "recovery_inv s" and "pb_tag (m_publication s) = t"
    and "pb_state (m_publication s) = Publish_Linking \<or>
         pb_state (m_publication s) = Publish_Active \<or>
         pb_state (m_publication s) = Publish_Published"
  shows "pb_state (m_publication (driven t s)) = Publish_Published \<and>
    pb_tag (m_publication (driven t s)) = t \<and>
    m_intermediate_visible (driven t s) = exposes s \<and>
    pb_target_sequence (m_publication (driven t s)) = pb_target_sequence (m_publication s) \<and>
    m_range (driven t s) = m_range s"
  using assms(3)
proof (elim disjE)
  assume l: "pb_state (m_publication s) = Publish_Linking"
  note a = activate_succeeds [OF assms(1) l assms(2)]
  have "recovery_inv (snd (activate_publication t s))" by (rule activate_publication_inv [OF assms(1)])
  from driven_fields_active [OF this, of t] show ?thesis
    using assms(2) by (simp add: a driven_linking [OF assms(1,2) l])
qed (use assms driven_fields_active [OF assms(1,2)] driven_published [OF assms(1)] in \<open>simp_all\<close>)

lemma publication_ok_owner [simp]:
  "publication_ok vs c r (p\<lparr>pb_owner := x\<rparr>) v = publication_ok vs c r p v"
  by (simp add: publication_ok_def)

lemma owner_dead_inv:
  "recovery_inv s \<Longrightarrow> recovery_inv (s\<lparr>m_publication := (m_publication s)\<lparr>pb_owner := Owner_Dead\<rparr>\<rparr>)"
  by (simp add: recovery_inv_def tags_ok_def)

text \<open>After the link, recovery drives the publication forward, compensates and finishes it.\<close>

definition settle_linked :: "u32 \<Rightarrow> model flagged" where
  "settle_linked t s =
    (if m_intermediate_visible s
     then (if fst (compensate s) then finish_publication t (snd (compensate s))
           else (False, quarantine s))
     else finish_publication t s)"

lemma or_quarantine_driven:
  assumes "recovery_inv s" and "pb_tag (m_publication s) = t"
    and "pb_state (m_publication s) = Publish_Linking \<or>
         pb_state (m_publication s) = Publish_Active \<or>
         pb_state (m_publication s) = Publish_Published"
  shows "(case or_quarantine (pb_state (m_publication s) = Publish_Linking)
             (activate_publication t) s of
           Inl q \<Rightarrow> g q
         | Inr s2 \<Rightarrow>
         (case or_quarantine (pb_state (m_publication s2) = Publish_Active \<and>
                  \<not> pb_payload_applied (m_publication s2)) (apply_publication t) s2 of
           Inl q \<Rightarrow> g q
         | Inr s3 \<Rightarrow>
         (case or_quarantine (pb_state (m_publication s3) = Publish_Active)
                (mark_publication t) s3 of
           Inl q \<Rightarrow> g q
         | Inr s4 \<Rightarrow> h s4))) = h (driven t s)"
proof -
  let ?s2 = "if pb_state (m_publication s) = Publish_Linking
    then snd (activate_publication t s) else s"
  have 1: "or_quarantine (pb_state (m_publication s) = Publish_Linking) (activate_publication t) s
      = Inr ?s2"
    by (rule or_quarantine_ok) (simp add: activate_succeeds [OF assms(1) _ assms(2)])
  have s2: "recovery_inv ?s2" "pb_tag (m_publication ?s2) = t"
    using assms activate_publication_inv [OF assms(1), of t] activate_succeeds [OF assms(1) _ assms(2)]
    by auto
  let ?s3 = "if pb_state (m_publication ?s2) = Publish_Active \<and>
      \<not> pb_payload_applied (m_publication ?s2) then snd (apply_publication t ?s2) else ?s2"
  have 2: "or_quarantine (pb_state (m_publication ?s2) = Publish_Active \<and>
      \<not> pb_payload_applied (m_publication ?s2)) (apply_publication t) ?s2 = Inr ?s3"
    by (rule or_quarantine_ok) (use apply_succeeds [OF s2(1) _ _ s2(2)] in \<open>simp\<close>)
  have s3: "recovery_inv ?s3" "pb_tag (m_publication ?s3) = t"
    "pb_state (m_publication ?s3) = Publish_Active \<Longrightarrow> pb_payload_applied (m_publication ?s3)"
    using s2 apply_publication_inv [OF s2(1), of t] apply_succeeds [OF s2(1) _ _ s2(2)] by auto
  have 3: "or_quarantine (pb_state (m_publication ?s3) = Publish_Active) (mark_publication t) ?s3
      = Inr (driven t s)"
    by (subst or_quarantine_ok)
      (use mark_succeeds [OF s3(1) _ _ s3(2)] s3(3) in \<open>simp_all add: driven_def Let_def\<close>)
  show ?thesis by (simp only: 1 2 3 sum.case)
qed

abbreviation dead_publisher :: "model \<Rightarrow> model" where
  "dead_publisher s \<equiv> s\<lparr>m_publication := (m_publication s)\<lparr>pb_owner := Owner_Dead\<rparr>\<rparr>"

lemma settle_linked_cases:
  assumes "pb_state (m_publication s) = Publish_Published"
  shows "(case or_quarantine (pb_state (m_publication s) = Publish_Published \<and>
              m_intermediate_visible s) compensate s of
            Inl q \<Rightarrow> (False, q)
          | Inr s5 \<Rightarrow>
              if pb_state (m_publication s5) = Publish_Published
              then finish_publication t s5
              else (pb_state (m_publication s5) = Publish_Terminal, s5)) = settle_linked t s"
proof -
  have "compensate s = (False, s) \<or>
      fst (compensate s) \<and> m_publication (snd (compensate s)) = m_publication s"
    by (simp add: compensate_eq)
  then show ?thesis
  proof (elim disjE)
    assume "compensate s = (False, s)"
    then show ?thesis
      using assms by (simp add: or_quarantine_def settle_linked_def quarantine_live)
  next
    assume "fst (compensate s) \<and> m_publication (snd (compensate s)) = m_publication s"
    then show ?thesis
      using assms by (simp add: or_quarantine_def settle_linked_def case_prod_unfold)
  qed
qed

lemma recover_linked_eq:
  assumes "recovery_inv s" and "pb_tag (m_publication s) = t"
    and "pb_state (m_publication s) = Publish_Linking \<or>
         pb_state (m_publication s) = Publish_Active \<or>
         pb_state (m_publication s) = Publish_Published"
  shows "recover_dead_publication t s = settle_linked t (driven t (dead_publisher s))"
proof -
  have dead: "recovery_inv (dead_publisher s)" by (rule owner_dead_inv [OF assms(1)])
  have tag: "pb_tag (m_publication (dead_publisher s)) = t" using assms(2) by simp
  have st: "pb_state (m_publication (dead_publisher s)) = Publish_Linking \<or>
      pb_state (m_publication (dead_publisher s)) = Publish_Active \<or>
      pb_state (m_publication (dead_publisher s)) = Publish_Published"
    using assms(3) by simp
  have d: "pb_state (m_publication (driven t (dead_publisher s))) = Publish_Published"
    using driven_fields [OF dead tag st] by blast
  have "pb_state (m_publication s) \<noteq> Publish_Initializing"
    "pb_state (m_publication s) \<noteq> Publish_Prepared"
    "pb_state (m_publication s) \<noteq> Publish_Aborted" using assms(3) by auto
  then have "recover_dead_publication t s =
      (case or_quarantine (pb_state (m_publication (dead_publisher s)) = Publish_Linking)
             (activate_publication t) (dead_publisher s) of
           Inl q \<Rightarrow> (False, q)
         | Inr s2 \<Rightarrow>
         (case or_quarantine (pb_state (m_publication s2) = Publish_Active \<and>
                  \<not> pb_payload_applied (m_publication s2)) (apply_publication t) s2 of
           Inl q \<Rightarrow> (False, q)
         | Inr s3 \<Rightarrow>
         (case or_quarantine (pb_state (m_publication s3) = Publish_Active)
                (mark_publication t) s3 of
           Inl q \<Rightarrow> (False, q)
         | Inr s4 \<Rightarrow>
         (case or_quarantine (pb_state (m_publication s4) = Publish_Published \<and>
                  m_intermediate_visible s4) compensate s4 of
            Inl q \<Rightarrow> (False, q)
          | Inr s5 \<Rightarrow>
              if pb_state (m_publication s5) = Publish_Published
              then finish_publication t s5
              else (pb_state (m_publication s5) = Publish_Terminal, s5)))))"
    using assms(2) by (simp add: recover_dead_publication_def Let_def)
  then show ?thesis
    by (simp only: or_quarantine_driven [OF dead tag st] settle_linked_cases [OF d])
qed

lemma same_state [simp]:
  "pb_state p = st \<Longrightarrow> p\<lparr>pb_owner := x, pb_state := st\<rparr> = p\<lparr>pb_owner := x\<rparr>"
  by (cases p) simp

lemma recover_unlinked_eq:
  assumes "pb_tag (m_publication s) = t"
    and "pb_state (m_publication s) = Publish_Initializing \<or>
         pb_state (m_publication s) = Publish_Prepared \<or>
         pb_state (m_publication s) = Publish_Aborted"
  shows "recover_dead_publication t s = finish_publication t
    (s\<lparr>m_publication := (m_publication s)\<lparr>pb_owner := Owner_Dead, pb_state := Publish_Aborted\<rparr>\<rparr>)"
  using assms by (auto simp: recover_dead_publication_def Let_def)

lemma recover_settled_eq:
  assumes "pb_tag (m_publication s) = t"
    and "pb_state (m_publication s) = Publish_Free \<or>
         pb_state (m_publication s) = Publish_Terminal \<or>
         pb_state (m_publication s) = Publish_Quarantined"
  shows "recover_dead_publication t s =
    (pb_state (m_publication s) = Publish_Terminal, dead_publisher s)"
  using assms(2,1) by (elim disjE) (simp_all add: recover_dead_publication_def or_quarantine_def)

lemma settle_linked_inv:
  assumes "recovery_inv s" and "pb_state (m_publication s) = Publish_Published"
  shows "recovery_inv (snd (settle_linked t s))"
  using assms by (simp add: settle_linked_def op_inv compensate_inv quarantine_inv)

lemma recover_dead_publication_inv [op_inv]:
  assumes "recovery_inv s"
  shows "recovery_inv (snd (recover_dead_publication t s))"
proof -
  note dead = owner_dead_inv [OF assms]
  consider (other) "pb_tag (m_publication s) \<noteq> t"
    | (unlinked) "pb_tag (m_publication s) = t" "pb_state (m_publication s) = Publish_Initializing \<or>
         pb_state (m_publication s) = Publish_Prepared \<or> pb_state (m_publication s) = Publish_Aborted"
    | (linked) "pb_tag (m_publication s) = t" "pb_state (m_publication s) = Publish_Linking \<or>
         pb_state (m_publication s) = Publish_Active \<or> pb_state (m_publication s) = Publish_Published"
    | (settled) "pb_tag (m_publication s) = t" "pb_state (m_publication s) = Publish_Free \<or>
         pb_state (m_publication s) = Publish_Terminal \<or> pb_state (m_publication s) = Publish_Quarantined"
    by (cases "pb_state (m_publication s)") auto
  then show ?thesis
  proof cases
    case unlinked
    have "recovery_inv (s\<lparr>m_publication :=
        (m_publication s)\<lparr>pb_owner := Owner_Dead, pb_state := Publish_Aborted\<rparr>\<rparr>)"
      using unlinked(2) abort_publication_inv [OF dead, of t] dead unlinked(1)
      by (auto simp: abort_publication_def Let_def)
    then show ?thesis by (simp only: recover_unlinked_eq [OF unlinked] finish_publication_inv)
  next
    case linked
    have "pb_state (m_publication (driven t (dead_publisher s))) = Publish_Published"
      using driven_fields [OF dead, of t] linked by simp
    then show ?thesis
      by (simp only: recover_linked_eq [OF assms linked] settle_linked_inv [OF driven_inv [OF dead]])
  next
    case settled
    then show ?thesis using dead by (simp only: recover_settled_eq [OF settled] snd_conv)
  qed (simp add: recover_dead_publication_def assms)
qed

section \<open>Expiry and reuse\<close>

lemma expire_publication_eq:
  assumes "recovery_inv s" and "live_publish_state (pb_state (m_publication s))"
  shows "quarantine (s\<lparr>m_publication := (m_publication s)\<lparr>pb_state := Publish_Quarantined\<rparr>,
      m_range := (m_range s)\<lparr>rg_state := Range_Quarantined\<rparr>\<rparr>) = quarantine s"
proof -
  have "rg_state (m_range s) = Range_Open"
    using publication_okD(2) [OF inv_parts(8) [OF assms(1)] assms(2)]
    by (simp add: record_matches_def)
  then show ?thesis
    using assms(2) by (cases "pb_state (m_publication s)")
      (simp_all add: quarantine_def quarantine_range_def quarantine_publication_def)
qed

lemma expire_live_publication_inv [op_inv]:
  assumes "recovery_inv s"
  shows "recovery_inv (snd (expire_live_publication t s))"
proof (cases "fst (expire_live_publication t s)")
  case True
  then have live: "live_publish_state (pb_state (m_publication s))"
    by (cases "pb_state (m_publication s)")
      (auto simp: expire_live_publication_def Let_def split: if_splits)
  then show ?thesis
    using quarantine_inv [OF assms] assms expire_publication_eq [OF assms live]
    by (simp add: expire_live_publication_def Let_def)
qed (use assms in \<open>auto simp: expire_live_publication_def Let_def split: if_splits\<close>)

lemma reclaim_publication_inv [op_inv]:
  assumes "recovery_inv s"
  shows "recovery_inv (snd (reclaim_publication t s))"
proof (cases "fst (reclaim_publication t s)")
  case True
  then have g: "pb_state (m_publication s) = Publish_Terminal" "t < tag_terminal (m_limits s)"
    by (simp_all add: reclaim_publication_def next_tag_iff split: if_splits)
  have "publication_ok (m_view_state s) (m_publication_cursor s) (m_range s)
      (empty_publication\<lparr>pb_tag := t\<rparr>) (m_intermediate_visible s)"
    using idle_not_visible [OF inv_parts(8) [OF assms]] g(1)
    by (intro publication_ok_dead) (simp_all add: empty_publication_def)
  then have "recovery_inv (s\<lparr>m_publication := empty_publication\<lparr>pb_tag := t\<rparr>\<rparr>)"
    using g(2) by (intro inv_set_publication assms) simp_all
  then show ?thesis using assms by (simp add: reclaim_publication_def)
qed (use assms in \<open>auto simp: reclaim_publication_def split: if_splits\<close>)

end
