(* ===== verification/RecoveryProgress.thy ===== *)
theory RecoveryProgress
  imports RecoveryUpdates RecoveryRanges RecoveryPublications
begin

text \<open>
  Every operation of the recovery model only moves forward: generations, the epoch, the
  allocation high water and the publication cursor never decrease, each tagged record advances
  through its states or is re-claimed under a larger tag, a view or device that left service
  stays out of it, and a device leaves \<open>Open\<close> only together with its generation.
\<close>

section \<open>Every operation keeps the invariant\<close>

lemma recovery_step_inv: "recovery_inv s \<Longrightarrow> recovery_inv (recovery_step x s)"
  by (cases x) (simp_all add: recovery_step_def op_inv close_view_inv close_device_inv)

interpretation recovery_safe: invariant_component recovery_step recovery_inv
  by unfold_locales (rule recovery_step_inv)

section \<open>The order of progress\<close>

fun lease_rank :: "lease_state \<Rightarrow> nat" where
  "lease_rank Lease_Free = 0"
| "lease_rank Lease_Initializing = 1"
| "lease_rank Lease_Reserved = 2"
| "lease_rank Lease_Committing = 3"
| "lease_rank Lease_Committed = 4"
| "lease_rank Lease_Published = 5"
| "lease_rank Lease_Released = 6"
| "lease_rank Lease_Revoked = 6"
| "lease_rank Lease_Tombstoned = 6"
| "lease_rank Lease_Quarantined = 6"

fun update_rank :: "update_state \<Rightarrow> nat" where
  "update_rank Update_Free = 0"
| "update_rank Update_Initializing = 1"
| "update_rank Update_Prepared = 2"
| "update_rank Update_Linking = 3"
| "update_rank Update_Active = 4"
| "update_rank Update_FencePublished = 5"
| "update_rank Update_Reopened = 6"
| "update_rank Update_Aborted = 7"
| "update_rank Update_Closed = 7"
| "update_rank Update_Terminal = 8"
| "update_rank Update_Quarantined = 9"

fun publish_rank :: "publish_state \<Rightarrow> nat" where
  "publish_rank Publish_Free = 0"
| "publish_rank Publish_Initializing = 1"
| "publish_rank Publish_Prepared = 2"
| "publish_rank Publish_Linking = 3"
| "publish_rank Publish_Active = 4"
| "publish_rank Publish_Published = 5"
| "publish_rank Publish_Aborted = 6"
| "publish_rank Publish_Terminal = 7"
| "publish_rank Publish_Quarantined = 8"

definition moves_on :: "u32 \<Rightarrow> nat \<Rightarrow> u32 \<Rightarrow> nat \<Rightarrow> bool" where
  "moves_on t r t' r' \<longleftrightarrow> t < t' \<or> t = t' \<and> r \<le> r'"

lemma moves_on_refl [simp]: "moves_on t r t r"
  by (simp add: moves_on_def)

lemma moves_on_same [simp]: "moves_on t r t r' \<longleftrightarrow> r \<le> r'"
  by (simp add: moves_on_def)

lemma moves_on_trans: "moves_on a i b j \<Longrightarrow> moves_on b j c k \<Longrightarrow> moves_on a i c k"
  by (auto simp: moves_on_def)

definition counters_advance :: "model \<Rightarrow> model \<Rightarrow> bool" where
  "counters_advance s s' \<longleftrightarrow>
     m_limits s' = m_limits s \<and> m_view_id s' = m_view_id s \<and>
     m_view_generation s \<le> m_view_generation s' \<and>
     m_device_generation s \<le> m_device_generation s' \<and> m_epoch s \<le> m_epoch s' \<and>
     m_allocation_high_water s \<le> m_allocation_high_water s' \<and>
     m_publication_cursor s \<le> m_publication_cursor s' \<and>
     m_range_token_generation s \<le> m_range_token_generation s' \<and>
     m_range_tag_high_water s \<le> m_range_tag_high_water s' \<and>
     at_tag (m_attempt s) \<le> at_tag (m_attempt s')"

definition records_advance :: "model \<Rightarrow> model \<Rightarrow> bool" where
  "records_advance s s' \<longleftrightarrow>
     moves_on (ls_tag (m_lease s)) (lease_rank (ls_state (m_lease s)))
       (ls_tag (m_lease s')) (lease_rank (ls_state (m_lease s'))) \<and>
     moves_on (up_tag (m_update s)) (update_rank (up_state (m_update s)))
       (up_tag (m_update s')) (update_rank (up_state (m_update s'))) \<and>
     moves_on (pb_tag (m_publication s)) (publish_rank (pb_state (m_publication s)))
       (pb_tag (m_publication s')) (publish_rank (pb_state (m_publication s')))"

definition service_leaves :: "model \<Rightarrow> model \<Rightarrow> bool" where
  "service_leaves s s' \<longleftrightarrow>
     (m_view_state s \<noteq> View_Open \<longrightarrow> m_view_state s' = m_view_state s) \<and>
     (m_device_state s = Device_Closed \<longrightarrow> m_device_state s' = Device_Closed) \<and>
     (m_device_state s = Device_Open \<and> m_device_state s' \<noteq> Device_Open \<longrightarrow>
        m_device_generation s < m_device_generation s')"

definition advances :: "model \<Rightarrow> model \<Rightarrow> bool" where
  "advances s s' \<longleftrightarrow> counters_advance s s' \<and> records_advance s s' \<and> service_leaves s s'"

lemma advances_refl [simp]: "advances s s"
  by (simp add: advances_def counters_advance_def records_advance_def service_leaves_def)

lemma advances_trans [trans]:
  assumes "advances s t" and "advances t u"
  shows "advances s u"
proof -
  have "counters_advance s u"
    using assms unfolding advances_def counters_advance_def by (auto intro: order_trans)
  moreover have "records_advance s u"
    using assms unfolding advances_def records_advance_def by (blast intro: moves_on_trans)
  moreover have "service_leaves s u"
    using assms unfolding advances_def counters_advance_def service_leaves_def
    by (metis order.strict_trans1 order.strict_trans2)
  ultimately show ?thesis by (simp add: advances_def)
qed

text \<open>An operation that touches no counter and no service state advances by its records alone.\<close>

lemmas advance_defs = advances_def counters_advance_def records_advance_def service_leaves_def

named_theorems op_adv \<open>each operation advances\<close>

lemma seq_adv:
  assumes "recovery_inv (snd (f s))" and "advances s (snd (f s))"
    and "\<And>t. recovery_inv t \<Longrightarrow> advances t (snd (g t))"
  shows "advances s (snd (seq_and f g s))"
  using assms by (auto simp: seq_and_def split: prod.splits intro: advances_trans)

section \<open>Leases\<close>

lemma enter_attempt_adv [op_adv]: "advances s (snd (enter_attempt a s))"
  by (auto simp: enter_attempt_def advance_defs next_tag_iff)

lemma claim_lease_adv [op_adv]: "advances s (snd (claim_lease a l s))"
  by (simp add: claim_lease_def Let_def advance_defs next_tag_iff moves_on_def)

lemma materialize_lease_adv [op_adv]: "advances s (snd (materialize_lease a l s))"
  by (simp add: materialize_lease_def Let_def advance_defs)

lemma reserve_lease_adv [op_adv]:
  "recovery_inv s \<Longrightarrow> advances s (snd (reserve_lease a l s))"
  unfolding reserve_lease_def by (intro seq_adv op_adv op_inv)

lemma begin_lease_commit_adv [op_adv]: "advances s (snd (begin_lease_commit l s))"
  by (simp add: begin_lease_commit_def Let_def advance_defs)

lemma begin_lease_commit_token_adv [op_adv]: "advances s (snd (begin_lease_commit_token k s))"
  by (simp add: begin_lease_commit_token_def op_adv)

lemma finish_lease_commit_adv [op_adv]: "advances s (snd (finish_lease_commit l s))"
  by (simp add: finish_lease_commit_def Let_def advance_defs)

lemma write_lease_target_adv [op_adv]: "advances s (snd (write_lease_target l s))"
  by (simp add: write_lease_target_def Let_def advance_defs)

lemma publish_lease_adv [op_adv]: "advances s (snd (publish_lease l s))"
  by (simp add: publish_lease_def Let_def advance_defs)

lemma release_lease_adv [op_adv]: "advances s (snd (release_lease l s))"
  by (simp add: release_lease_def Let_def advance_defs)

lemma recover_dead_lease_adv [op_adv]: "advances s (snd (recover_dead_lease l s))"
  by (simp add: recover_dead_lease_def Let_def advance_defs split: lease_state.split)

lemma reclaim_lease_adv [op_adv]: "advances s (snd (reclaim_lease l s))"
  by (simp add: reclaim_lease_def Let_def advance_defs next_tag_iff moves_on_def empty_lease_def)

section \<open>Leaving service\<close>

lemma settle_rank: "lease_rank (ls_state (m_lease s)) \<le> lease_rank (ls_state (m_lease (settle_lease_for_close s)))"
  by (simp add: settle_lease_for_close_def Let_def split: lease_state.split)

lemma close_update_rank: "update_rank (up_state u) \<le> update_rank (up_state (close_update u))"
  by (simp add: close_update_def split: update_state.split)

lemma close_device_adv:
  assumes "recovery_inv s"
  shows "advances s (close_device s)"
proof -
  have "m_device_generation s \<le> generation_terminal (m_limits s)"
    "m_device_state s = Device_Open \<longrightarrow> m_device_generation s < generation_terminal (m_limits s)"
    using inv_parts(2,3) [OF assms] by (auto simp: counters_ok_def controls_ok_def order.strict_iff_order)
  then show ?thesis
    using settle_rank [of "s\<lparr>m_device_state := Device_Closed,
        m_device_generation := generation_terminal (m_limits s), m_device_update_tag := 0,
        m_update := close_update (m_update s)\<rparr>"]
    by (simp add: close_device_def advance_defs close_update_rank)
qed

lemma lease_rank_max [simp]: "lease_rank st \<le> 6"
  by (cases st) simp_all

lemma quarantine_update_rank: "update_rank (up_state u) \<le> update_rank (up_state (quarantine_update u))"
  by (cases "up_state u") (simp_all add: quarantine_update_def)

lemma quarantine_publication_rank:
  "publish_rank (pb_state p) \<le> publish_rank (pb_state (quarantine_publication p))"
  by (cases "pb_state p") (simp_all add: quarantine_publication_def)

lemmas quarantine_rank = quarantine_update_rank quarantine_publication_rank

lemma quarantine_adv:
  assumes "recovery_inv s" and "m_view_state s = View_Open"
  shows "advances s (quarantine s)"
proof -
  have "m_device_generation s \<le> generation_terminal (m_limits s)"
    "m_view_generation s \<le> generation_terminal (m_limits s)"
    "m_device_state s = Device_Open \<longrightarrow> m_device_generation s < generation_terminal (m_limits s)"
    using inv_parts(2,3) [OF assms(1)]
    by (auto simp: counters_ok_def controls_ok_def order.strict_iff_order)
  then show ?thesis
    using assms(2) by (simp add: advance_defs quarantine_def quarantine_rank)
qed

lemma close_view_adv:
  assumes "recovery_inv s"
  shows "advances s (close_view s)"
proof (cases "m_view_state s = View_Open")
  case False
  have "m_view_state s \<noteq> View_Closing" using inv_parts(3) [OF assms] by (simp add: controls_ok_def)
  with False show ?thesis by (cases "m_view_state s") (simp_all add: close_view_def)
next
  case True
  let ?s1 = "s\<lparr>m_view_state := View_Closing,
    m_view_generation := generation_terminal (m_limits s)\<rparr>"
  have gen: "m_device_generation s \<le> generation_terminal (m_limits s)"
    "m_view_generation s \<le> generation_terminal (m_limits s)"
    "m_device_state s = Device_Open \<longrightarrow> m_device_generation s < generation_terminal (m_limits s)"
    using inv_parts(2,3) [OF assms]
    by (auto simp: counters_ok_def controls_ok_def order.strict_iff_order)
  have dev: "m_device_state (close_device ?s1) = Device_Closed"
    "m_device_generation (close_device ?s1) = generation_terminal (m_limits s)"
    by (auto simp: close_device_def inv_parts(1) [OF assms])
  have "lease_rank (ls_state (m_lease s)) \<le> lease_rank (ls_state (m_lease (close_device ?s1)))"
    "update_rank (up_state (m_update s)) \<le> update_rank (up_state (m_update (close_device ?s1)))"
    using settle_rank [of "s\<lparr>m_view_state := View_Closing,
        m_view_generation := generation_terminal (m_limits s), m_device_state := Device_Closed,
        m_device_generation := generation_terminal (m_limits s), m_device_update_tag := 0,
        m_update := close_update (m_update s)\<rparr>"] close_update_rank
    by (simp_all add: close_device_def)
  then have "advances s (settle_lease_for_close (close_device ?s1)\<lparr>m_view_state := View_Terminal\<rparr>)"
    using gen dev True settle_rank [of "close_device ?s1"]
    by (simp add: advance_defs)
  then show ?thesis using quarantine_adv [OF assms True] True
    by (simp add: close_view_def Let_def)
qed

lemma expire_live_lease_adv [op_adv]:
  assumes "recovery_inv s"
  shows "advances s (snd (expire_live_lease l s))"
  using quarantine_adv [OF assms] inv_parts(4) [OF assms]
  by (simp add: expire_live_lease_def expire_live_lease_eq lease_ok_def)

section \<open>Updates\<close>

lemma claim_device_update_adv [op_adv]: "advances s (snd (claim_device_update t s))"
  by (simp add: claim_device_update_def advance_defs next_tag_iff moves_on_def split: option.split)

lemma materialize_device_update_adv [op_adv]: "advances s (snd (materialize_device_update t s))"
  by (simp add: materialize_device_update_def Let_def advance_defs)

lemma prepare_device_update_adv [op_adv]:
  "recovery_inv s \<Longrightarrow> advances s (snd (prepare_device_update t s))"
  unfolding prepare_device_update_def by (intro seq_adv op_adv op_inv)

lemma begin_device_update_link_adv [op_adv]: "advances s (snd (begin_device_update_link t s))"
  by (simp add: begin_device_update_link_def Let_def advance_defs)

lemma activate_device_update_adv:
  assumes "recovery_inv s" and "up_state (m_update s) = Update_Linking"
    and "m_device_generation s = up_old_generation (m_update s)"
    and "m_epoch s = up_old_epoch (m_update s)"
  shows "advances s (activate_device_update t s)"
proof -
  have "up_old_generation (m_update s) < up_new_generation (m_update s)"
    "up_old_epoch (m_update s) < up_new_epoch (m_update s)"
    "m_device_state s \<noteq> Device_Closed"
    using inv_parts(5) [OF assms(1)] assms(2) by (auto simp add: update_ok_def)
  then show ?thesis
    using assms(2-) settle_rank [of "s\<lparr>m_device_state := Device_Updating,
        m_device_generation := up_new_generation (m_update s), m_epoch := up_new_epoch (m_update s),
        m_device_update_tag := t\<rparr>"]
    by (auto simp: activate_device_update_def Let_def advance_defs)
qed

lemma complete_device_update_link_adv [op_adv]:
  "recovery_inv s \<Longrightarrow> advances s (snd (complete_device_update_link t s))"
  using activate_device_update_adv [of s t]
  by (simp add: complete_device_update_link_def Let_def) (simp add: advance_defs)

lemma link_device_update_adv [op_adv]:
  "recovery_inv s \<Longrightarrow> advances s (snd (link_device_update t s))"
  unfolding link_device_update_def by (intro seq_adv op_adv op_inv)

lemma publish_device_update_adv [op_adv]: "advances s (snd (publish_device_update t s))"
  by (simp add: publish_device_update_def Let_def advance_defs)

lemma reopen_device_update_adv [op_adv]: "advances s (snd (reopen_device_update t s))"
  by (simp add: reopen_device_update_def Let_def advance_defs update_tuple_matches_def)

lemma finish_device_update_adv [op_adv]: "advances s (snd (finish_device_update t s))"
  by (auto simp: finish_device_update_def Let_def advance_defs)

lemma recover_link_adv:
  "recovery_inv s \<Longrightarrow> advances s (recover_link t s)"
  using activate_device_update_adv [of s t]
  by (simp add: recover_link_def Let_def) (auto simp add: advance_defs)

lemma close_unless_adv:
  "advances s (snd (f s)) \<Longrightarrow> (up_state (m_update s) = st \<Longrightarrow> fst (f s)) \<Longrightarrow>
     advances s (close_unless st f s)"
  by (auto simp: close_unless_def split: prod.split)

lemma terminate_update_adv: "advances s (terminate_update s)"
  by (auto simp: terminate_update_def advance_defs)

lemma recover_dead_device_update_adv [op_adv]:
  assumes "recovery_inv s"
  shows "advances s (snd (recover_dead_device_update t s))"
proof (cases "up_tag (m_update s) = t")
  case True
  let ?s0 = "s\<lparr>m_update := (m_update s)\<lparr>up_owner := Owner_Dead\<rparr>\<rparr>"
  let ?s1 = "recover_link t ?s0"
  let ?s2 = "close_unless Update_Active (publish_device_update t) ?s1"
  let ?s3 = "close_unless Update_FencePublished (reopen_device_update t) ?s2"
  have s0: "recovery_inv ?s0" "advances s ?s0"
    using inv_set_update [OF assms inv_tags(3) [OF assms] inv_parts(5) [OF assms]]
    by (simp_all add: inv_set_update assms inv_tags inv_parts advance_defs)
  have s1: "recovery_inv ?s1" "up_tag (m_update ?s1) = t"
    using True recover_link_inv [OF s0(1), of t] by simp_all
  have s2: "recovery_inv ?s2" "up_tag (m_update ?s2) = t" "advances ?s1 ?s2"
    using s1 by (auto intro!: close_unless_inv close_unless_adv op_inv op_adv publish_succeeds
        simp: close_unless_tag)
  note s0(2)
  also have "advances ?s0 ?s1" by (rule recover_link_adv [OF s0(1)])
  also note s2(3)
  also have "advances ?s2 ?s3" using s2 by (auto intro!: close_unless_adv op_adv reopen_succeeds)
  also have "advances ?s3 (terminate_update ?s3)" by (rule terminate_update_adv)
  finally have "advances s (terminate_update ?s3)" .
  with True show ?thesis by (simp add: recover_dead_device_update_def Let_def)
qed (simp add: recover_dead_device_update_def)

lemma expire_live_device_update_adv [op_adv]:
  assumes "recovery_inv s"
  shows "advances s (snd (expire_live_device_update t s))"
proof (cases "fst (expire_live_device_update t s)")
  case True
  then have live: "up_state (m_update s) \<noteq> Update_Free" "up_state (m_update s) \<noteq> Update_Aborted"
    "up_state (m_update s) \<noteq> Update_Closed" "up_state (m_update s) \<noteq> Update_Terminal"
    "up_state (m_update s) \<noteq> Update_Quarantined"
    by (auto simp: expire_live_device_update_def Let_def split: if_splits)
  then have "m_device_state s \<noteq> Device_Closed"
    using inv_parts(5) [OF assms] by (cases "up_state (m_update s)") (auto simp: update_ok_def)
  then have "m_view_state s = View_Open"
    using inv_parts(3) [OF assms] by (auto simp: controls_ok_def)
  moreover have "quarantine (s\<lparr>m_update := (m_update s)\<lparr>up_state := Update_Quarantined\<rparr>\<rparr>) = quarantine s"
    using live by (simp add: quarantine_def quarantine_update_def)
  ultimately show ?thesis
    using quarantine_adv [OF assms] by (simp add: expire_live_device_update_def Let_def)
qed (auto simp: expire_live_device_update_def Let_def split: if_splits)

section \<open>Ranges and publications\<close>

lemma set_range_at_adv [simp]: "advances s (set_range_at slot r t) = advances s t"
  by (cases slot) (simp_all add: set_range_at_def advance_defs)

lemma archive_adv: "advances s (snd (archive_retired_range r s))"
  by (simp add: archive_retired_range_def advance_defs)

lemma advances_ranges [simp]:
  "advances s (t\<lparr>m_range := r\<rparr>) = advances s t"
  "advances s (t\<lparr>m_following_range := r\<rparr>) = advances s t"
  by (simp_all add: advance_defs)

lemma advances_range_tag:
  "advances s t \<Longrightarrow> m_range_tag_high_water t \<le> x \<Longrightarrow>
     advances s (t\<lparr>m_range_tag_high_water := x\<rparr>)"
  by (auto simp add: advance_defs)

lemma archive_tag [simp]:
  "m_range_tag_high_water (snd (archive_retired_range r s)) = m_range_tag_high_water s"
  by (simp add: archive_retired_range_def)

lemma claim_range_adv [op_adv]: "advances s (snd (claim_range t n s))"
  using archive_adv [of s "m_range s"]
  by (auto simp: claim_range_def Let_def case_prod_unfold next_tag_iff less_imp_le
      split: option.split intro!: advances_range_tag)

lemma prepare_range_adv [op_adv]: "advances s (snd (prepare_range t s))"
  by (simp add: prepare_range_def split: option.split)

lemma widen_eq_iff [simp]: "widen a = widen b \<longleftrightarrow> a = b"
  by (metis narrow_widen)

lemma open_range_adv [op_adv]:
  assumes "recovery_inv s"
  shows "advances s (snd (open_range t s))"
proof (cases "fst (open_range t s)")
  case False
  then show ?thesis by (auto simp: open_range_def Let_def split: option.splits if_splits)
next
  case True
  then obtain slot where prep: "rg_state (range_at s slot) = Range_Prepared"
    and gen: "m_range_token_generation s < generation_terminal (m_limits s)"
      "widen (rg_token_generation (range_at s slot)) = widen (m_range_token_generation s + 1)"
    and eq: "open_range t s = (True, set_range_at slot ((range_at s slot)\<lparr>rg_state := Range_Open\<rparr>)
      (s\<lparr>m_allocation_high_water := rg_end (range_at s slot),
         m_range_token_generation := rg_token_generation (range_at s slot)\<rparr>))"
    by (rule open_range_success) blast
  have "ranges_ok (m_limits s) (m_allocation_high_water s) (m_range s) (m_following_range s)"
    by (rule inv_parts(6) [OF assms])
  then have "valid_range (m_limits s) (range_at s slot)"
    "rg_begin (range_at s slot) = m_allocation_high_water s + 1"
    using prep by (cases slot; simp add: range_at_def ranges_ok_def)+
  moreover have "m_allocation_high_water s < sequence_terminal (m_limits s)"
    using inv_parts(2) [OF assms] by (simp add: counters_ok_def)
  ultimately have "m_allocation_high_water s \<le> rg_end (range_at s slot)"
    using prepared_bounds(1) [OF _ prep] by blast
  then show ?thesis
    unfolding eq snd_conv set_range_at_adv
    using gen word_less_Suc [OF gen(1)] by (auto simp add: advance_defs)
qed

lemma reserve_range_adv [op_adv]:
  "recovery_inv s \<Longrightarrow> advances s (snd (reserve_range t n s))"
  unfolding reserve_range_def by (intro seq_adv seq_inv op_adv op_inv)

lemma advance_range_head_adv [op_adv]: "advances s (snd (advance_range_head s))"
  using archive_adv [of s "m_range s"] by (simp add: advance_range_head_def Let_def case_prod_unfold)

lemma claim_publication_token_adv [op_adv]: "advances s (snd (claim_publication_token k t b s))"
  by (simp add: claim_publication_token_def Let_def advance_defs next_tag_iff moves_on_def
      split: option.split)

lemma claim_publication_adv [op_adv]: "advances s (snd (claim_publication t b s))"
  by (simp add: claim_publication_def claim_publication_token_adv split: option.split)

lemma prepare_publication_adv [op_adv]: "advances s (snd (prepare_publication t s))"
  by (simp add: prepare_publication_def Let_def advance_defs)

lemma link_publication_adv [op_adv]: "advances s (snd (link_publication t s))"
  by (simp add: link_publication_def Let_def advance_defs)

lemma activate_publication_adv [op_adv]: "advances s (snd (activate_publication t s))"
  by (simp add: activate_publication_def Let_def advance_defs)

lemma apply_publication_adv [op_adv]:
  assumes "recovery_inv s"
  shows "advances s (snd (apply_publication t s))"
proof (cases "fst (apply_publication t s)")
  case False
  then show ?thesis using apply_publication_cases [of t s] by auto
next
  case True
  then have p: "pb_state (m_publication s) = Publish_Active"
    "\<not> pb_payload_applied (m_publication s)"
    by (auto simp: apply_publication_def Let_def split: option.splits if_splits)
  then have "live_publish_state (pb_state (m_publication s))" by simp
  from publication_okD(4) [OF inv_parts(8) [OF assms] this p(2)]
  have "m_publication_cursor s < pb_target_sequence (m_publication s)" by blast
  with True show ?thesis
    using apply_publication_cases [of t s] p by (auto simp: advance_defs)
qed

lemma mark_publication_adv [op_adv]: "advances s (snd (mark_publication t s))"
  by (simp add: mark_publication_def Let_def advance_defs)

lemma finish_publication_adv [op_adv]: "advances s (snd (finish_publication t s))"
  by (auto simp: finish_publication_eq Let_def advance_defs)

lemma abort_publication_adv [op_adv]: "advances s (snd (abort_publication t s))"
  by (auto simp: abort_publication_def Let_def advance_defs)

lemma compensate_adv: "advances s (snd (compensate s))"
  using word_less_Suc [of "m_publication_cursor s" "sequence_terminal (m_limits s)"]
  by (simp add: compensate_eq advance_defs less_imp_le)

lemma dead_publisher_adv: "advances s (dead_publisher s)"
  by (simp add: advance_defs)

lemma driven_adv:
  assumes "recovery_inv s"
  shows "advances s (driven t s)"
proof -
  let ?s2 = "if pb_state (m_publication s) = Publish_Linking
    then snd (activate_publication t s) else s"
  let ?s3 = "if pb_state (m_publication ?s2) = Publish_Active \<and>
    \<not> pb_payload_applied (m_publication ?s2) then snd (apply_publication t ?s2) else ?s2"
  have "recovery_inv ?s2" "advances s ?s2" using assms by (auto intro: op_inv op_adv)
  moreover from this have "advances ?s2 ?s3" by (auto intro: op_adv)
  moreover have "advances ?s3 (driven t s)"
    by (simp only: driven_def Let_def mark_publication_adv advances_refl split: if_split) simp
  ultimately show ?thesis by (blast intro: advances_trans)
qed

lemma settle_linked_adv:
  assumes "recovery_inv s" and "pb_state (m_publication s) = Publish_Published"
  shows "advances s (snd (settle_linked t s))"
proof -
  have "m_view_state s = View_Open"
    using publication_okD(1) [OF inv_parts(8) [OF assms(1)]] assms(2) by simp
  then have "advances s (quarantine s)" by (rule quarantine_adv [OF assms(1)])
  moreover have "advances s (snd (finish_publication t (snd (compensate s))))"
    by (rule advances_trans [OF compensate_adv finish_publication_adv])
  ultimately show ?thesis by (simp add: settle_linked_def op_adv)
qed

lemma recover_dead_publication_adv [op_adv]:
  assumes "recovery_inv s"
  shows "advances s (snd (recover_dead_publication t s))"
proof -
  note dead = owner_dead_inv [OF assms]
  consider (other) "pb_tag (m_publication s) \<noteq> t"
    | (unlinked) "pb_tag (m_publication s) = t" "pb_state (m_publication s) = Publish_Initializing \<or>
         pb_state (m_publication s) = Publish_Prepared \<or> pb_state (m_publication s) = Publish_Aborted"
    | (linked) "pb_tag (m_publication s) = t" "pb_state (m_publication s) = Publish_Linking \<or>
         pb_state (m_publication s) = Publish_Active \<or> pb_state (m_publication s) = Publish_Published"
    | (settled) "pb_tag (m_publication s) = t" "pb_state (m_publication s) = Publish_Free \<or>
         pb_state (m_publication s) = Publish_Terminal \<or> pb_state (m_publication s) = Publish_Quarantined"
    by (cases "pb_state (m_publication s)") auto
  then show ?thesis
  proof cases
    case unlinked
    have "advances s (s\<lparr>m_publication :=
        (m_publication s)\<lparr>pb_owner := Owner_Dead, pb_state := Publish_Aborted\<rparr>\<rparr>)"
      using unlinked(2) by (elim disjE) (simp_all add: advance_defs)
    from advances_trans [OF this finish_publication_adv [of _ t]] show ?thesis
      by (simp only: recover_unlinked_eq [OF unlinked])
  next
    case linked
    let ?d = "driven t (dead_publisher s)"
    have "pb_state (m_publication ?d) = Publish_Published"
      using driven_fields [OF dead, of t] linked by simp
    from settle_linked_adv [OF driven_inv [OF dead] this]
    have "advances ?d (snd (settle_linked t ?d))" .
    with dead_publisher_adv driven_adv [OF dead] show ?thesis
      unfolding recover_linked_eq [OF assms linked] by (blast intro: advances_trans)
  next
    case settled
    show ?thesis by (simp only: recover_settled_eq [OF settled] snd_conv dead_publisher_adv)
  qed (simp add: recover_dead_publication_def)
qed

lemma expire_live_publication_adv [op_adv]:
  assumes "recovery_inv s"
  shows "advances s (snd (expire_live_publication t s))"
proof (cases "fst (expire_live_publication t s)")
  case True
  then have live: "live_publish_state (pb_state (m_publication s))"
    by (cases "pb_state (m_publication s)")
      (auto simp: expire_live_publication_def Let_def split: if_splits)
  then have "m_view_state s = View_Open"
    using publication_okD(1) [OF inv_parts(8) [OF assms]] by simp
  then show ?thesis
    using quarantine_adv [OF assms] expire_publication_eq [OF assms live]
    by (simp add: expire_live_publication_def Let_def)
qed (auto simp: expire_live_publication_def Let_def split: if_splits)

lemma reclaim_publication_adv [op_adv]: "advances s (snd (reclaim_publication t s))"
  by (simp add: reclaim_publication_def advance_defs next_tag_iff moves_on_def empty_publication_def)

section \<open>Every run\<close>

lemma recovery_step_adv: "recovery_inv s \<Longrightarrow> advances s (recovery_step x s)"
  by (cases x) (simp_all add: recovery_step_def op_adv close_view_adv close_device_adv)

interpretation recovery_run: progress_component recovery_step recovery_inv advances
  by unfold_locales (auto intro: recovery_step_adv advances_trans)

lemma out_of_service_stays:
  "recovery_inv s \<Longrightarrow> m_view_state s \<noteq> View_Open \<Longrightarrow> m_view_state (recovery_step x s) \<noteq> View_Open"
  using recovery_step_adv [of s x] by (simp add: advances_def service_leaves_def)

interpretation recovery_exit: stable_component recovery_step recovery_inv
  "\<lambda>s. m_view_state s \<noteq> View_Open"
  by unfold_locales (rule out_of_service_stays)

end
