(* ===== verification/RecoverySafety.thy ===== *)
theory RecoverySafety
  imports RecoveryProgress
begin

text \<open>
  What the recovery model promises its clients, in every reachable state: the source's own
  consistency check holds, a fenced read that validates saw no change in between, an admission
  commits at most once and never after its generation has passed, sequence numbers are never
  reused, and the takeover of a dead owner's record always ends in a settled one.
\<close>

inductive reachable :: "model \<Rightarrow> bool" where
  initial: "m_valid (new_model lim hw g e vid) \<Longrightarrow> reachable (new_model lim hw g e vid)"
| step: "reachable s \<Longrightarrow> reachable (recovery_step x s)"

lemma reachable_inv: "reachable s \<Longrightarrow> recovery_inv s"
  by (induction rule: reachable.induct) (auto intro: new_model_inv recovery_step_inv)

lemma reachable_run: "reachable s \<Longrightarrow> reachable (run_ops recovery_step xs s)"
  by (induction xs arbitrary: s) (auto intro: reachable.step)

lemma reachable_advances: "reachable s \<Longrightarrow> advances s (run_ops recovery_step xs s)"
  by (rule recovery_run.run_le) (rule reachable_inv)

text \<open>A small concrete instance for the evaluated examples.\<close>

definition demo_limits :: limits where
  "demo_limits = \<lparr>sequence_terminal = 100, generation_terminal = 50, tag_terminal = 40,
     epoch_terminal = 60\<rparr>"

definition demo_model :: model where
  "demo_model = new_model demo_limits 10 1 1 \<lparr>daemon_incarnation = 7, view_serial = 9\<rparr>"

lemma demo_reachable: "reachable demo_model"
  unfolding demo_model_def by (rule reachable.initial) (simp add: new_model_def demo_limits_def)

lemma demo_run_reachable: "reachable (run_ops recovery_step xs demo_model)"
  by (rule reachable_run [OF demo_reachable])

lemmas demo_defs = demo_model_def demo_limits_def new_model_def empty_attempt_def empty_lease_def
  empty_update_def empty_range_def empty_publication_def

lemmas lease_defs = enter_attempt_def reserve_lease_def seq_and_def claim_lease_def
  materialize_lease_def next_tag_def controls_match_def recovery_step_def

section \<open>Consistency\<close>

text \<open>C1. The consistency check of the recovery model (\<open>invariants_hold\<close>) holds in every state
  the model can reach from a valid construction by any sequence of operations with any
  arguments, failed operations included.\<close>

theorem reachable_invariants_hold:
  assumes "m_valid (new_model lim hw g e vid)"
  shows "invariants_hold (run_ops recovery_step ops (new_model lim hw g e vid))"
  by (rule recovery_inv_invariants_hold [OF recovery_safe.run_inv [OF new_model_inv [OF assms]]])

theorem reachable_invariants_hold_witness:
  "m_valid (new_model demo_limits 10 1 1 \<lparr>daemon_incarnation = 7, view_serial = 9\<rparr>) \<and>
   invariants_hold (run_ops recovery_step [Enter_Attempt 1, Reserve_Lease 1 1, Close_View]
     (new_model demo_limits 10 1 1 \<lparr>daemon_incarnation = 7, view_serial = 9\<rparr>))"
proof -
  have "m_valid (new_model demo_limits 10 1 1 \<lparr>daemon_incarnation = 7, view_serial = 9\<rparr>)"
    by (simp add: new_model_def demo_limits_def)
  with reachable_invariants_hold [OF this, of "[Enter_Attempt 1, Reserve_Lease 1 1, Close_View]"]
  show ?thesis by blast
qed

section \<open>Fenced reads\<close>

lemma sandwich:
  fixes a b c :: "'n::order"
  shows "a \<le> b \<Longrightarrow> b \<le> c \<Longrightarrow> c = a \<Longrightarrow> b = a"
  by simp

text \<open>C2. A fenced read is sound: when the snapshot taken by \<open>begin_read\<close> validates in
  \<open>finish_read\<close> after any number of operations, then at every moment in between the view and the
  device were open at the snapshot's generations and the epoch was the snapshot's, so no update
  was linked and nothing was closed while the reader was reading.\<close>

theorem fenced_read_sound:
  assumes "reachable s" and "begin_read s = Some snap"
    and "finish_read (run_ops recovery_step (before @ after) s) snap"
  shows "controls_match (run_ops recovery_step before s) (rs_view_generation snap)
           (rs_device_generation snap) \<and>
         m_epoch (run_ops recovery_step before s) = rs_epoch snap"
proof -
  let ?m = "run_ops recovery_step before s" and ?t = "run_ops recovery_step (before @ after) s"
  have snap: "m_view_state s = View_Open" "m_device_state s = Device_Open"
    "rs_view_generation snap = m_view_generation s"
    "rs_device_generation snap = m_device_generation s" "rs_epoch snap = m_epoch s"
    using assms(2) by (auto simp: begin_read_def controls_match_def split: if_splits)
  have fin: "m_view_state ?t = View_Open" "m_view_generation ?t = m_view_generation s"
    "m_device_generation ?t = m_device_generation s" "m_epoch ?t = m_epoch s"
    using assms(3) snap by (simp_all add: finish_read_def controls_match_def)
  have sm: "advances s ?m" by (rule reachable_advances [OF assms(1)])
  have mt: "advances ?m ?t"
    using reachable_advances [OF reachable_run [OF assms(1)], of before after] by simp
  have "m_view_generation ?m = m_view_generation s"
    "m_device_generation ?m = m_device_generation s" "m_epoch ?m = m_epoch s"
    using sm mt fin unfolding advances_def counters_advance_def by (metis sandwich)+
  moreover have "m_view_state ?m = View_Open"
    using mt fin(1) unfolding advances_def service_leaves_def by metis
  moreover have "m_device_state ?m = Device_Open"
    using sm snap(2) calculation(2) unfolding advances_def service_leaves_def by fastforce
  moreover have "m_valid ?m" using reachable_inv [OF reachable_run [OF assms(1)]] by (rule inv_parts)
  ultimately show ?thesis using snap by (simp add: controls_match_def)
qed

theorem fenced_read_sound_witness:
  "controls_match (run_ops recovery_step [Enter_Attempt 1] demo_model) 1 1 \<and>
   m_epoch (run_ops recovery_step [Enter_Attempt 1] demo_model) = 1"
proof -
  let ?snap = "\<lparr>rs_view_id = \<lparr>daemon_incarnation = 7, view_serial = 9\<rparr>, rs_view_generation = 1,
    rs_device_generation = 1, rs_epoch = 1\<rparr> :: read_snapshot"
  have "begin_read demo_model = Some ?snap"
    by (simp add: begin_read_def controls_match_def demo_defs)
  moreover have "finish_read (run_ops recovery_step ([Enter_Attempt 1] @ [Reserve_Lease 1 1])
      demo_model) ?snap"
    by (simp add: finish_read_def demo_defs lease_defs)
  ultimately show ?thesis
    using fenced_read_sound [OF demo_reachable, of ?snap "[Enter_Attempt 1]" "[Reserve_Lease 1 1]"]
    by simp
qed

text \<open>C11. Linking a device update fences every earlier reader: once \<open>complete_device_update_link\<close>
  succeeded, the device generation and the epoch have strictly grown, no admission lease is live,
  and a snapshot taken before it never validates again, whatever happens later.\<close>

theorem linked_update_fences:
  assumes "reachable s" and "fst (complete_device_update_link tag s)"
  defines "s' \<equiv> snd (complete_device_update_link tag s)"
  shows "m_device_generation s < m_device_generation s' \<and> m_epoch s < m_epoch s' \<and>
    \<not> has_live_lease s' \<and>
    (begin_read s = Some snap \<longrightarrow> \<not> finish_read (run_ops recovery_step ops s') snap)"
proof -
  let ?u = "m_update s"
  have g: "up_state ?u = Update_Linking" "m_device_generation s = up_old_generation ?u"
    "m_epoch s = up_old_epoch ?u" and eq: "s' = activate_device_update tag s"
    using assms(2) by (auto simp: s'_def complete_device_update_link_def Let_def split: if_splits)
  have "up_old_generation ?u < up_new_generation ?u" "up_old_epoch ?u < up_new_epoch ?u"
    using inv_parts(5) [OF reachable_inv [OF assms(1)]] g(1) by (simp_all add: update_ok_def)
  then have lt: "m_device_generation s < m_device_generation s'" "m_epoch s < m_epoch s'"
    using g by (simp_all add: eq activate_device_update_def Let_def)
  have "s' = recovery_step (Complete_Device_Update_Link tag) s"
    by (simp add: s'_def recovery_step_def)
  with assms(1) have "reachable s'" by (simp add: reachable.step)
  from reachable_advances [OF this] have "m_epoch s' \<le> m_epoch (run_ops recovery_step ops s')"
    by (simp add: advances_def counters_advance_def)
  with lt(2) have "m_epoch (run_ops recovery_step ops s') \<noteq> m_epoch s" by auto
  moreover have "begin_read s = Some snap \<Longrightarrow> rs_epoch snap = m_epoch s"
    by (auto simp: begin_read_def split: if_splits)
  moreover have "\<not> has_live_lease s'" by (simp add: eq activate_device_update_def Let_def)
  ultimately show ?thesis using lt by (auto simp: finish_read_def)
qed

theorem linked_update_fences_witness:
  "\<not> finish_read (run_ops recovery_step [Publish_Device_Update 1]
     (snd (complete_device_update_link 1
       (run_ops recovery_step [Prepare_Device_Update 1, Begin_Device_Update_Link 1] demo_model))))
     \<lparr>rs_view_id = \<lparr>daemon_incarnation = 7, view_serial = 9\<rparr>, rs_view_generation = 1,
       rs_device_generation = 1, rs_epoch = 1\<rparr>"
proof -
  let ?s = "run_ops recovery_step [Prepare_Device_Update 1, Begin_Device_Update_Link 1] demo_model"
  let ?snap = "\<lparr>rs_view_id = \<lparr>daemon_incarnation = 7, view_serial = 9\<rparr>, rs_view_generation = 1,
    rs_device_generation = 1, rs_epoch = 1\<rparr> :: read_snapshot"
  have "fst (complete_device_update_link 1 ?s)" by code_simp
  moreover have "begin_read ?s = Some ?snap"
    by code_simp
  ultimately show ?thesis
    using linked_update_fences [OF demo_run_reachable, of 1
        "[Prepare_Device_Update 1, Begin_Device_Update_Link 1]" ?snap "[Publish_Device_Update 1]"]
    by blast
qed

section \<open>Admission\<close>

lemma commit_needs_reserved:
  assumes "fst (begin_lease_commit_token tok s)"
  shows "ls_tag (m_lease s) = adm_lease_tag tok" and "lease_rank (ls_state (m_lease s)) = 2"
    and "m_view_generation s = adm_view_generation tok"
    and "m_device_generation s = adm_device_generation tok"
  using assms by (simp_all add: begin_lease_commit_token_def admission_token_matches_def
      controls_match_def split: if_splits)

text \<open>C13. An admission token commits at most once: after \<open>begin_lease_commit\<close> accepted a token, it
  rejects the same token in every later state, whatever operations run in between (releasing and
  re-claiming the lease included).\<close>

theorem admission_commits_once:
  assumes "reachable s" and "fst (begin_lease_commit_token tok s)"
  shows "\<not> fst (begin_lease_commit_token tok
    (run_ops recovery_step ops (snd (begin_lease_commit_token tok s))))"
proof -
  let ?s = "snd (begin_lease_commit_token tok s)"
  have l: "ls_tag (m_lease ?s) = adm_lease_tag tok" "ls_state (m_lease ?s) = Lease_Committing"
    using assms(2) by (auto simp: begin_lease_commit_token_def begin_lease_commit_def Let_def
        split: if_splits)
  have "?s = recovery_step (Begin_Lease_Commit_Token tok) s" by (simp add: recovery_step_def)
  with assms(1) have "reachable ?s" by (simp add: reachable.step)
  from reachable_advances [OF this, of ops]
  have "moves_on (adm_lease_tag tok) 3 (ls_tag (m_lease (run_ops recovery_step ops ?s)))
      (lease_rank (ls_state (m_lease (run_ops recovery_step ops ?s))))"
    using l by (simp add: advances_def records_advance_def)
  then show ?thesis
    using commit_needs_reserved [of tok "run_ops recovery_step ops ?s"] by (auto simp: moves_on_def)
qed

theorem admission_commits_once_witness:
  "let tok = \<lparr>adm_view_id = \<lparr>daemon_incarnation = 7, view_serial = 9\<rparr>, adm_view_generation = 1,
         adm_device_generation = 1, adm_attempt_tag = 1, adm_lease_tag = 1\<rparr>;
       s = run_ops recovery_step [Enter_Attempt 1, Reserve_Lease 1 1] demo_model
   in fst (begin_lease_commit_token tok s) \<and>
      \<not> fst (begin_lease_commit_token tok (run_ops recovery_step [Finish_Lease_Commit 1]
           (snd (begin_lease_commit_token tok s))))"
proof -
  let ?tok = "\<lparr>adm_view_id = \<lparr>daemon_incarnation = 7, view_serial = 9\<rparr>, adm_view_generation = 1,
    adm_device_generation = 1, adm_attempt_tag = 1, adm_lease_tag = 1\<rparr> :: admission_token"
  let ?s = "run_ops recovery_step [Enter_Attempt 1, Reserve_Lease 1 1] demo_model"
  have "fst (begin_lease_commit_token ?tok ?s)"
    by (simp add: lease_defs demo_defs begin_lease_commit_token_def begin_lease_commit_def
        admission_token_matches_def)
  then show ?thesis
    using admission_commits_once [OF demo_run_reachable, of ?tok] unfolding Let_def by blast
qed

text \<open>A stale admission token stays stale: once the view or the device has moved past the
  generation at which a token was current, no later state accepts it.\<close>

lemma stale_token_rejected:
  assumes "reachable s" and "admission_token_matches s tok"
    and "m_view_generation (run_ops recovery_step ops s) \<noteq> m_view_generation s \<or>
         m_device_generation (run_ops recovery_step ops s) \<noteq> m_device_generation s"
  shows "\<not> fst (begin_lease_commit_token tok (run_ops recovery_step (ops @ later) s))"
proof -
  let ?m = "run_ops recovery_step ops s" and ?t = "run_ops recovery_step (ops @ later) s"
  have sm: "advances s ?m" by (rule reachable_advances [OF assms(1)])
  have mt: "advances ?m ?t"
    using reachable_advances [OF reachable_run [OF assms(1)], of ops later] by simp
  have tok: "adm_view_generation tok = m_view_generation s"
    "adm_device_generation tok = m_device_generation s"
    using assms(2) by (simp_all add: admission_token_matches_def controls_match_def)
  have "m_view_generation ?t \<noteq> m_view_generation s \<or> m_device_generation ?t \<noteq> m_device_generation s"
    using sm mt assms(3) unfolding advances_def counters_advance_def by (metis sandwich)
  then show ?thesis using tok commit_needs_reserved(3,4) [of tok ?t] by auto
qed

text \<open>Leaving service is final: in every state reached after the view was closed or
  quarantined the view is still out of service, no lease is live, no read can begin, and neither
  an admission attempt nor a device update nor a range can be claimed.\<close>

lemma out_of_service_final:
  fixes ops :: "recovery_op list"
  assumes "reachable s" and "m_view_state s \<noteq> View_Open"
  defines "t \<equiv> run_ops recovery_step ops s"
  shows "m_view_state t = m_view_state s \<and> m_device_state t = Device_Closed \<and>
    \<not> has_live_lease t \<and> begin_read t = None \<and> \<not> fst (enter_attempt a t) \<and>
    \<not> fst (claim_device_update u t) \<and> \<not> fst (claim_range r n t)"
proof -
  have inv: "recovery_inv t" unfolding t_def by (rule reachable_inv [OF reachable_run [OF assms(1)]])
  have "m_view_state t \<noteq> View_Open"
    unfolding t_def by (rule recovery_exit.run_stays [OF reachable_inv [OF assms(1)] assms(2)])
  moreover have "m_view_state t = m_view_state s"
    using reachable_advances [OF assms(1), of ops] assms(2)
    by (simp add: t_def advances_def service_leaves_def)
  ultimately show ?thesis
    using inv_parts(3,4) [OF inv]
    by (auto simp: controls_ok_def lease_ok_def begin_read_def controls_match_def enter_attempt_def
        claim_device_update_def claim_range_def)
qed

section \<open>Publication\<close>









text \<open>C25. Sequence numbers are never reused: a publication is applied at a number strictly above
  the publication cursor and inside the open range, and any publication applied later gets a
  strictly larger number.\<close>

theorem applied_sequences_increase:
  assumes "reachable s" and "fst (apply_publication t s)"
    and "fst (apply_publication u (run_ops recovery_step ops (snd (apply_publication t s))))"
  shows "m_publication_cursor s < pb_target_sequence (m_publication s) \<and>
    rg_begin (m_range s) \<le> pb_target_sequence (m_publication s) \<and>
    pb_target_sequence (m_publication s) \<le> rg_end (m_range s) \<and>
    pb_target_sequence (m_publication s) < pb_target_sequence (m_publication
      (run_ops recovery_step ops (snd (apply_publication t s))))"
proof -
  have ap: "m_publication_cursor r < pb_target_sequence (m_publication r) \<and>
      rg_begin (m_range r) \<le> pb_target_sequence (m_publication r) \<and>
      pb_target_sequence (m_publication r) \<le> rg_end (m_range r) \<and>
      m_publication_cursor (snd (apply_publication v r)) = pb_target_sequence (m_publication r)"
    if r: "reachable r" and ok: "fst (apply_publication v r)" for r v
  proof -
    have st: "pb_state (m_publication r) = Publish_Active" "\<not> pb_payload_applied (m_publication r)"
      using ok by (auto simp: apply_publication_def Let_def split: option.splits if_splits)
    then have "live_publish_state (pb_state (m_publication r))" by simp
    with publication_okD(3,4) [OF inv_parts(8) [OF reachable_inv [OF r]]] st(2) show ?thesis
      using ok apply_publication_cases [of v r] by auto
  qed
  let ?s = "snd (apply_publication t s)" and ?t = "run_ops recovery_step ops (snd (apply_publication t s))"
  have "?s = recovery_step (Apply_Publication t) s" by (simp add: recovery_step_def)
  with assms(1) have s: "reachable ?s" by (simp add: reachable.step)
  have "m_publication_cursor ?s \<le> m_publication_cursor ?t"
    using reachable_advances [OF s] by (simp add: advances_def counters_advance_def)
  with ap [OF assms(1,2)] ap [OF reachable_run [OF s] assms(3)] show ?thesis by auto
qed

definition demo_publishing :: model where
  "demo_publishing = run_ops recovery_step
     [Reserve_Range 1 1, Claim_Publication 1 False, Prepare_Publication 1, Link_Publication 1,
      Activate_Publication 1] demo_model"

definition demo_next_publication :: "recovery_op list" where
  "demo_next_publication =
     [Mark_Publication 1, Finish_Publication 1, Reserve_Range 2 5, Claim_Publication 2 False,
      Prepare_Publication 2, Link_Publication 2, Activate_Publication 2]"

theorem applied_sequences_increase_witness:
  "pb_target_sequence (m_publication demo_publishing) = 11 \<and>
   11 < pb_target_sequence (m_publication
      (run_ops recovery_step demo_next_publication (snd (apply_publication 1 demo_publishing))))"
proof -
  have "fst (apply_publication 1 demo_publishing)" by code_simp
  moreover have "fst (apply_publication 2
      (run_ops recovery_step demo_next_publication (snd (apply_publication 1 demo_publishing))))"
    by code_simp
  moreover have "reachable demo_publishing"
    unfolding demo_publishing_def by (rule demo_run_reachable)
  moreover have "pb_target_sequence (m_publication demo_publishing) = 11" by code_simp
  ultimately show ?thesis
    using applied_sequences_increase [of demo_publishing 1 2 demo_next_publication] by simp
qed

section \<open>Taking over updates and leases\<close>

lemma close_unless_publish:
  assumes "recovery_inv s" and "up_tag (m_update s) = t"
  shows "close_unless Update_Active (publish_device_update t) s =
    (if up_state (m_update s) = Update_Active then snd (publish_device_update t s) else s)"
  using publish_succeeds [OF assms(1) _ assms(2)] by (auto simp: close_unless_def split: prod.split)

lemma close_unless_reopen:
  assumes "recovery_inv s" and "up_tag (m_update s) = t"
  shows "close_unless Update_FencePublished (reopen_device_update t) s =
    (if up_state (m_update s) = Update_FencePublished then snd (reopen_device_update t s) else s)"
  using reopen_succeeds [OF assms(1) _ assms(2)] by (auto simp: close_unless_def split: prod.split)

lemma publish_result:
  assumes "recovery_inv s" and "up_tag (m_update s) = t" and "up_state (m_update s) = Update_Active"
  shows "up_state (m_update (snd (publish_device_update t s))) = Update_FencePublished"
  using publish_succeeds [OF assms(1,3,2)] by (auto simp: publish_device_update_def Let_def split: if_splits)

lemma reopen_result:
  assumes "recovery_inv s" and "up_tag (m_update s) = t"
    and "up_state (m_update s) = Update_FencePublished"
  shows "up_state (m_update (snd (reopen_device_update t s))) = Update_Reopened"
  using reopen_succeeds [OF assms(1,3,2)] by (auto simp: reopen_device_update_def Let_def split: if_splits)

lemma recover_link_state:
  assumes "up_state (m_update s) \<noteq> Update_Free" and "up_state (m_update s) \<noteq> Update_Quarantined"
  shows "up_state (m_update (recover_link t s)) = Update_Active \<or>
    up_state (m_update (recover_link t s)) = Update_FencePublished \<or>
    up_state (m_update (recover_link t s)) = Update_Reopened \<or>
    up_state (m_update (recover_link t s)) = Update_Aborted \<or>
    up_state (m_update (recover_link t s)) = Update_Closed \<or>
    up_state (m_update (recover_link t s)) = Update_Terminal"
  using assms by (cases "up_state (m_update s)")
    (simp_all add: recover_link_def activate_device_update_def Let_def)

text \<open>Taking over a dead updater always finishes the update: unless the record is free or
  quarantined the takeover succeeds, leaves the record \<open>Terminal\<close>, and the device is open or closed
  but no longer updating.\<close>

lemma recover_update_outcome:
  assumes "reachable s" and "up_tag (m_update s) = t"
    and "up_state (m_update s) \<noteq> Update_Free" and "up_state (m_update s) \<noteq> Update_Quarantined"
  shows "fst (recover_dead_device_update t s) \<and>
    up_state (m_update (snd (recover_dead_device_update t s))) = Update_Terminal \<and>
    m_device_state (snd (recover_dead_device_update t s)) \<noteq> Device_Updating"
proof -
  let ?s0 = "s\<lparr>m_update := (m_update s)\<lparr>up_owner := Owner_Dead\<rparr>\<rparr>"
  let ?s1 = "recover_link t ?s0"
  let ?s2 = "if up_state (m_update ?s1) = Update_Active then snd (publish_device_update t ?s1) else ?s1"
  let ?s3 = "if up_state (m_update ?s2) = Update_FencePublished
    then snd (reopen_device_update t ?s2) else ?s2"
  have inv: "recovery_inv s" by (rule reachable_inv [OF assms(1)])
  have "recovery_inv ?s0"
    by (rule inv_set_update [OF inv]) (simp_all add: inv_tags [OF inv] inv_parts(5) [OF inv])
  then have s1: "recovery_inv ?s1" "up_tag (m_update ?s1) = t"
    using recover_link_inv [of ?s0 t] assms(2) by simp_all
  have s2: "recovery_inv ?s2" "up_tag (m_update ?s2) = t"
    using s1 publish_device_update_inv [OF s1(1)] by simp_all
  have l: "up_state (m_update ?s1) = Update_Active \<or> up_state (m_update ?s1) = Update_FencePublished \<or>
    up_state (m_update ?s1) = Update_Reopened \<or> up_state (m_update ?s1) = Update_Aborted \<or>
    up_state (m_update ?s1) = Update_Closed \<or> up_state (m_update ?s1) = Update_Terminal"
    using recover_link_state [of ?s0 t] assms(3,4) by simp
  have "up_state (m_update ?s2) = Update_FencePublished \<or> up_state (m_update ?s2) = Update_Reopened \<or>
    up_state (m_update ?s2) = Update_Aborted \<or> up_state (m_update ?s2) = Update_Closed \<or>
    up_state (m_update ?s2) = Update_Terminal"
    using l publish_result [OF s1] by auto
  then have "up_state (m_update ?s3) = Update_Reopened \<or> up_state (m_update ?s3) = Update_Aborted \<or>
    up_state (m_update ?s3) = Update_Closed \<or> up_state (m_update ?s3) = Update_Terminal"
    using reopen_result [OF s2] by auto
  then have "up_state (m_update (terminate_update ?s3)) = Update_Terminal"
    by (auto simp: terminate_update_def)
  moreover have eq: "recover_dead_device_update t s =
      (up_state (m_update (terminate_update ?s3)) = Update_Terminal, terminate_update ?s3)"
    using assms(2) by (simp only: recover_dead_device_update_def Let_def
        close_unless_publish [OF s1] close_unless_reopen [OF s2] simp_thms if_False)
  ultimately show ?thesis
    using inv_parts(5) [OF recover_dead_device_update_inv [OF inv, of t]] unfolding eq
    by (simp add: update_ok_def)
qed

text \<open>Taking over a dead lease owner settles the lease: unless it is free or quarantined the
  takeover succeeds and no lease is live afterwards; a lease whose commit finished and whose target
  was written is released with its publication marker set, and an uncommitted one is tombstoned.\<close>

lemma recover_lease_outcome:
  assumes "live_lease_state (ls_state (m_lease s))" and "ls_tag (m_lease s) = t"
  shows "fst (recover_dead_lease t s) \<and> \<not> has_live_lease (snd (recover_dead_lease t s)) \<and>
    ls_tag (m_lease (snd (recover_dead_lease t s))) = t \<and>
    (if ls_state (m_lease s) = Lease_Published \<or>
        ls_state (m_lease s) = Lease_Committed \<and> ls_target_written (m_lease s)
     then ls_state (m_lease (snd (recover_dead_lease t s))) = Lease_Released
     else ls_state (m_lease (snd (recover_dead_lease t s))) = Lease_Tombstoned) \<and>
    (ls_state (m_lease s) = Lease_Committed \<and> ls_target_written (m_lease s) \<longrightarrow>
     ls_publication_marker (m_lease (snd (recover_dead_lease t s))))"
  using assms by (cases "ls_state (m_lease s)") (auto simp: recover_dead_lease_def Let_def)

end
