(* ===== verification/Lifecycle.thy ===== *)
theory Lifecycle
  imports Prelude
begin

text \<open>
  The lifecycle coordinator (\<open>runtime/core/include/metaflux/runtime/lifecycle.hpp\<close> and
  \<open>runtime/core/src/lifecycle.cpp\<close>): the authority that adds, removes, resets and recovers the
  logical device and drives up to three mirrors through prepare, quiesce, drain and commit.

  Mirror callbacks and the clock are function pointers the coordinator is given. They are
  functions over an environment \<open>'e\<close>, so that they may keep state of their own; they do not
  re-enter the coordinator. A null pointer is \<open>None\<close>. Enumerations a caller can fill with any
  byte, and which the source therefore range-checks, stay bytes.
\<close>

section \<open>Data\<close>

datatype lifecycle_state =
  Absent | Present | Online | Quiescing | Draining | Resetting | Lost

datatype lifecycle_result =
  Accepted | Duplicate | Stale | Conflict | Invalid | ResourceExhausted | CallbackRejected
| DeviceLost | Timeout

datatype resolve_result = Resolve_Online | Resolve_DeviceLost | Resolve_Absent | Resolve_Unknown

datatype mirror_stage =
  Stage_Prepare | Stage_Quiesce | Stage_Drain | Stage_Commit | Stage_Abort | Stage_PublishLost

abbreviation Op_Add :: u8 where "Op_Add \<equiv> 1"
abbreviation Op_Remove :: u8 where "Op_Remove \<equiv> 2"
abbreviation Op_Reset :: u8 where "Op_Reset \<equiv> 3"
abbreviation Op_TransportLoss :: u8 where "Op_TransportLoss \<equiv> 4"
abbreviation Op_Recover :: u8 where "Op_Recover \<equiv> 5"

record request =
  rq_request_id :: u64
  rq_logical_device_id :: u64
  rq_daemon_incarnation :: u64
  rq_expected_identity_record_id :: u64
  rq_expected_generation :: u64
  rq_expected_epoch :: u64
  rq_deadline_tick :: u64
  rq_source :: u8
  rq_operation :: u8

record candidate =
  cd_generation :: u64
  cd_identity_record_id :: u64
  cd_epoch :: u64

record snapshot_record =
  sn_state :: lifecycle_state
  sn_logical_device_id :: u64
  sn_identity_record_id :: u64
  sn_generation :: u64
  sn_epoch :: u64
  sn_generation_high_water :: u64
  sn_identity_high_water :: u64
  sn_daemon_incarnation :: u64

record mirror_event =
  me_request :: request
  me_stage :: mirror_stage
  me_state_before :: lifecycle_state
  me_state_after :: lifecycle_state
  me_old_generation :: u64
  me_old_identity_record_id :: u64
  me_old_epoch :: u64
  me_candidate :: candidate

type_synonym 'e mirror_callback = "u64 \<Rightarrow> mirror_event \<Rightarrow> 'e \<Rightarrow> bool \<times> 'e"
type_synonym 'e mirror_lost_callback = "u64 \<Rightarrow> mirror_event \<Rightarrow> 'e \<Rightarrow> 'e"
type_synonym 'e clock = "'e \<Rightarrow> u64 \<times> 'e"

record 'e mirror =
  mi_kind :: u8
  mi_name :: string
  mi_context :: u64
  mi_prepare :: "'e mirror_callback option"
  mi_quiesce :: "'e mirror_callback option"
  mi_drain :: "'e mirror_callback option"
  mi_commit :: "'e mirror_callback option"
  mi_abort :: "'e mirror_callback option"
  mi_publish_lost :: "'e mirror_lost_callback option"

definition empty_mirror :: "'e mirror" where
  "empty_mirror = \<lparr>mi_kind = 1, mi_name = '''', mi_context = 0, mi_prepare = None,
     mi_quiesce = None, mi_drain = None, mi_commit = None, mi_abort = None,
     mi_publish_lost = None\<rparr>"

record 'e config =
  cf_logical_device_id :: u64
  cf_daemon_incarnation :: u64
  cf_initial_identity_record_id :: u64
  cf_initial_generation :: u64
  cf_initial_epoch :: u64
  cf_initial_state :: lifecycle_state
  cf_identity_record_terminal :: u64
  cf_generation_terminal :: u64
  cf_epoch_terminal :: u64
  cf_clock :: "'e clock option"

definition default_config :: "'e config" where
  "default_config = \<lparr>cf_logical_device_id = 1, cf_daemon_incarnation = 1,
     cf_initial_identity_record_id = 1, cf_initial_generation = 1, cf_initial_epoch = 1,
     cf_initial_state = Online, cf_identity_record_terminal = - 1, cf_generation_terminal = - 1,
     cf_epoch_terminal = - 1, cf_clock = None\<rparr>"

record result_details =
  rd_result :: lifecycle_result
  rd_snapshot :: snapshot_record
  rd_candidate_generation :: u64
  rd_candidate_identity_record_id :: u64

record request_record =
  rr_used :: bool
  rr_request :: request
  rr_result :: lifecycle_result
  rr_candidate_generation :: u64
  rr_candidate_identity_record_id :: u64

record tombstone =
  ts_generation :: u64
  ts_identity_record_id :: u64
  ts_epoch :: u64

record transaction =
  tx_request :: request
  tx_candidate :: candidate
  tx_target_state :: lifecycle_state
  tx_old_state :: lifecycle_state
  tx_old_generation :: u64
  tx_old_identity_record_id :: u64
  tx_old_epoch :: u64
  tx_has_candidate :: bool
  tx_touched_mask :: u32
  tx_committed_mask :: u32
  tx_committed_count :: u32
  tx_timed_out :: bool

text \<open>The default member initialisers.\<close>

definition empty_request :: request where
  "empty_request = \<lparr>rq_request_id = 0, rq_logical_device_id = 0, rq_daemon_incarnation = 0,
     rq_expected_identity_record_id = 0, rq_expected_generation = 0, rq_expected_epoch = 0,
     rq_deadline_tick = 0, rq_source = 1, rq_operation = Op_Add\<rparr>"

definition empty_candidate :: candidate where
  "empty_candidate = \<lparr>cd_generation = 0, cd_identity_record_id = 0, cd_epoch = 0\<rparr>"

definition empty_request_record :: request_record where
  "empty_request_record = \<lparr>rr_used = False, rr_request = empty_request, rr_result = Invalid,
     rr_candidate_generation = 0, rr_candidate_identity_record_id = 0\<rparr>"

definition empty_tombstone :: tombstone where
  "empty_tombstone = \<lparr>ts_generation = 0, ts_identity_record_id = 0, ts_epoch = 0\<rparr>"

definition kMaxMirrors :: nat where "kMaxMirrors = 3"
definition kRequestCapacity :: nat where "kRequestCapacity = 4096"
definition kTombstoneCapacity :: nat where "kTombstoneCapacity = 2048"

record 'e coordinator =
  co_config :: "'e config"
  co_valid :: bool
  co_state :: lifecycle_state
  co_logical_device_id :: u64
  co_daemon_incarnation :: u64
  co_identity_record_id :: u64
  co_generation :: u64
  co_epoch :: u64
  co_identity_high_water :: u64
  co_generation_high_water :: u64
  co_mirrors :: "'e mirror list"
  co_mirror_count :: u32
  co_requests :: "request_record list"
  co_tombstones :: "tombstone list"
  co_tombstone_count :: u32

section \<open>Construction\<close>

definition new_coordinator :: "'e config \<Rightarrow> 'e coordinator" where
  "new_coordinator cf =
    (let st = cf_initial_state cf; g = cf_initial_generation cf; i = cf_initial_identity_record_id cf;
         terminals_valid = cf_identity_record_terminal cf > 1 \<and> cf_generation_terminal cf > 1 \<and>
           cf_epoch_terminal cf > 1;
         initial_values_valid = cf_logical_device_id cf \<noteq> 0 \<and> cf_daemon_incarnation cf \<noteq> 0 \<and>
           cf_initial_epoch cf \<noteq> 0 \<and> cf_initial_epoch cf < cf_epoch_terminal cf;
         state_values_valid = (st = Absent \<and> g = 0 \<and> i = 0) \<or>
           (st \<noteq> Absent \<and> g \<noteq> 0 \<and> g < cf_generation_terminal cf \<and>
            i \<noteq> 0 \<and> i < cf_identity_record_terminal cf);
         high_water_valid = g < cf_generation_terminal cf \<and> i < cf_identity_record_terminal cf \<and>
           g \<ge> g \<and> i \<ge> i
     in \<lparr>co_config = cf,
         co_valid = (terminals_valid \<and> initial_values_valid \<and> state_values_valid \<and> high_water_valid),
         co_state = st, co_logical_device_id = cf_logical_device_id cf,
         co_daemon_incarnation = cf_daemon_incarnation cf, co_identity_record_id = i,
         co_generation = g, co_epoch = cf_initial_epoch cf, co_identity_high_water = i,
         co_generation_high_water = g, co_mirrors = replicate kMaxMirrors empty_mirror,
         co_mirror_count = 0, co_requests = replicate kRequestCapacity empty_request_record,
         co_tombstones = replicate kTombstoneCapacity empty_tombstone, co_tombstone_count = 0\<rparr>)"

text \<open>The move constructor: the new object and what is left of the old one.\<close>

definition move_coordinator :: "'e coordinator \<Rightarrow> 'e coordinator \<times> 'e coordinator" where
  "move_coordinator other =
    (other, other\<lparr>co_valid := False, co_mirror_count := 0, co_tombstone_count := 0\<rparr>)"

section \<open>Queries\<close>

definition snapshot :: "'e coordinator \<Rightarrow> snapshot_record" where
  "snapshot c = \<lparr>sn_state = co_state c, sn_logical_device_id = co_logical_device_id c,
     sn_identity_record_id = co_identity_record_id c, sn_generation = co_generation c,
     sn_epoch = co_epoch c, sn_generation_high_water = co_generation_high_water c,
     sn_identity_high_water = co_identity_high_water c,
     sn_daemon_incarnation = co_daemon_incarnation c\<rparr>"

definition live_tombstones :: "'e coordinator \<Rightarrow> tombstone list" where
  "live_tombstones c = take (unat (co_tombstone_count c)) (co_tombstones c)"

definition resolve :: "'e coordinator \<Rightarrow> u64 \<Rightarrow> resolve_result" where
  "resolve c generation =
    (if generation = 0 then Resolve_Absent
     else if generation = co_generation c
     then (if co_state c = Online then Resolve_Online else Resolve_DeviceLost)
     else if list_ex (\<lambda>t. ts_generation t = generation) (live_tombstones c)
     then Resolve_DeviceLost
     else Resolve_Unknown)"

definition generation_consumed :: "'e coordinator \<Rightarrow> u64 \<Rightarrow> bool" where
  "generation_consumed c generation \<longleftrightarrow>
     generation \<noteq> 0 \<and> generation \<le> co_generation_high_water c"

section \<open>Mirrors\<close>

definition is_valid_source :: "u8 \<Rightarrow> bool" where
  "is_valid_source v \<longleftrightarrow> v \<ge> 1 \<and> v \<le> 7"

definition is_valid_operation :: "u8 \<Rightarrow> bool" where
  "is_valid_operation v \<longleftrightarrow> v \<ge> Op_Add \<and> v \<le> Op_Recover"

definition is_valid_mirror_kind :: "u8 \<Rightarrow> bool" where
  "is_valid_mirror_kind v \<longleftrightarrow> v \<ge> 1 \<and> v \<le> 3"

definition live_mirrors :: "'e coordinator \<Rightarrow> 'e mirror list" where
  "live_mirrors c = take (unat (co_mirror_count c)) (co_mirrors c)"

definition register_mirror :: "'e mirror \<Rightarrow> 'e coordinator flagged" where
  "register_mirror m c =
    (if \<not> co_valid c \<or> unat (co_mirror_count c) \<ge> kMaxMirrors \<or>
        \<not> is_valid_mirror_kind (mi_kind m) \<or> mi_name m = []
     then (False, c)
     else if list_ex (\<lambda>x. mi_kind x = mi_kind m) (live_mirrors c) then (False, c)
     else (True, c\<lparr>co_mirrors := (co_mirrors c)[unat (co_mirror_count c) := m],
                   co_mirror_count := co_mirror_count c + 1\<rparr>))"

definition unregister_mirror :: "u8 \<Rightarrow> u64 \<Rightarrow> 'e coordinator flagged" where
  "unregister_mirror kind context c =
    (if \<not> co_valid c \<or> context = 0 \<or> \<not> is_valid_mirror_kind kind then (False, c)
     else
       case find_index (\<lambda>m. mi_kind m = kind \<and> mi_context m = context) (live_mirrors c) of
         None \<Rightarrow> (False, c)
       | Some index \<Rightarrow>
           (let last = unat (co_mirror_count c - 1);
                ms = (co_mirrors c)[index := co_mirrors c ! last]
            in (True, c\<lparr>co_mirrors := ms[last := empty_mirror],
                        co_mirror_count := co_mirror_count c - 1\<rparr>)))"

definition event_state :: "transaction \<Rightarrow> mirror_stage \<Rightarrow> lifecycle_state" where
  "event_state tx stage =
    (if stage = Stage_Abort then tx_target_state tx
     else if stage = Stage_PublishLost then Lost
     else if rq_operation (tx_request tx) = Op_Add then
       (case stage of Stage_Prepare \<Rightarrow> Present | Stage_Quiesce \<Rightarrow> Quiescing
        | Stage_Drain \<Rightarrow> Draining | Stage_Commit \<Rightarrow> Online | _ \<Rightarrow> tx_target_state tx)
     else if rq_operation (tx_request tx) = Op_Remove then
       (case stage of Stage_Prepare \<Rightarrow> Quiescing | Stage_Quiesce \<Rightarrow> Draining
        | Stage_Drain \<Rightarrow> Absent | Stage_Commit \<Rightarrow> Absent | _ \<Rightarrow> tx_target_state tx)
     else if rq_operation (tx_request tx) = Op_Reset \<or> rq_operation (tx_request tx) = Op_Recover then
       (case stage of Stage_Prepare \<Rightarrow> Quiescing | Stage_Quiesce \<Rightarrow> Draining
        | Stage_Drain \<Rightarrow> Resetting | Stage_Commit \<Rightarrow> Online | _ \<Rightarrow> tx_target_state tx)
     else tx_target_state tx)"

definition mirror_event_of :: "transaction \<Rightarrow> mirror_stage \<Rightarrow> mirror_event" where
  "mirror_event_of tx stage = \<lparr>me_request = tx_request tx, me_stage = stage,
     me_state_before = tx_old_state tx, me_state_after = event_state tx stage,
     me_old_generation = tx_old_generation tx,
     me_old_identity_record_id = tx_old_identity_record_id tx, me_old_epoch = tx_old_epoch tx,
     me_candidate = tx_candidate tx\<rparr>"

text \<open>The deadline test, which reads the clock only when there is a clock and a deadline.\<close>

definition past_deadline :: "'e config \<Rightarrow> u64 \<Rightarrow> 'e \<Rightarrow> bool \<times> 'e" where
  "past_deadline cf deadline e =
    (if deadline = 0 then (False, e)
     else case cf_clock cf of
            None \<Rightarrow> (False, e)
          | Some clock \<Rightarrow> (let (now, e') = clock e in (now \<ge> deadline, e')))"

definition select_callback ::
    "mirror_stage \<Rightarrow> 'e mirror_callback option \<Rightarrow> 'e mirror \<Rightarrow> 'e mirror_callback option" where
  "select_callback stage callback m =
    (case stage of Stage_Prepare \<Rightarrow> mi_prepare m | Stage_Quiesce \<Rightarrow> mi_quiesce m
     | Stage_Drain \<Rightarrow> mi_drain m | Stage_Commit \<Rightarrow> mi_commit m | Stage_Abort \<Rightarrow> mi_abort m
     | Stage_PublishLost \<Rightarrow> callback)"

text \<open>The loop of \<open>invoke\<close> over the registered mirrors, the first of which has the given index.\<close>

fun invoke_loop ::
    "'e config \<Rightarrow> mirror_stage \<Rightarrow> 'e mirror_callback option \<Rightarrow> nat \<Rightarrow> 'e mirror list \<Rightarrow>
     transaction \<Rightarrow> 'e \<Rightarrow> bool \<times> transaction \<times> 'e" where
  "invoke_loop cf stage callback index [] tx e = (True, tx, e)"
| "invoke_loop cf stage callback index (m # ms) tx e =
    (let (late, e1) = past_deadline cf (rq_deadline_tick (tx_request tx)) e in
     if late then (False, tx\<lparr>tx_timed_out := True\<rparr>, e1)
     else case select_callback stage callback m of
            None \<Rightarrow> invoke_loop cf stage callback (Suc index) ms tx e1
          | Some selected \<Rightarrow>
              (let tx1 = tx\<lparr>tx_touched_mask := or (tx_touched_mask tx) (push_bit index 1)\<rparr>;
                   (ok, e2) = selected (mi_context m) (mirror_event_of tx1 stage) e1
               in if \<not> ok then (False, tx1, e2)
                  else invoke_loop cf stage callback (Suc index) ms
                    (if stage = Stage_Commit
                     then tx1\<lparr>tx_committed_mask := or (tx_committed_mask tx1) (push_bit index 1),
                              tx_committed_count := tx_committed_count tx1 + 1\<rparr>
                     else tx1) e2))"

definition invoke ::
    "'e coordinator \<Rightarrow> mirror_stage \<Rightarrow> transaction \<Rightarrow> 'e \<Rightarrow> bool \<times> transaction \<times> 'e" where
  "invoke c stage tx e = invoke_loop (co_config c) stage None 0 (live_mirrors c) tx e"

fun abort_loop :: "nat \<Rightarrow> 'e mirror list \<Rightarrow> transaction \<Rightarrow> 'e \<Rightarrow> 'e" where
  "abort_loop index [] tx e = e"
| "abort_loop index (m # ms) tx e =
    abort_loop (Suc index) ms tx
      (if and (tx_touched_mask tx) (push_bit index 1) = 0 \<or>
          and (tx_committed_mask tx) (push_bit index 1) \<noteq> 0
       then e
       else case mi_abort m of
              None \<Rightarrow> e
            | Some f \<Rightarrow> snd (f (mi_context m) (mirror_event_of tx Stage_Abort) e))"

definition abort :: "'e coordinator \<Rightarrow> transaction \<Rightarrow> 'e \<Rightarrow> 'e" where
  "abort c tx e = abort_loop 0 (live_mirrors c) tx e"

fun publish_lost_loop :: "'e mirror list \<Rightarrow> transaction \<Rightarrow> 'e \<Rightarrow> 'e" where
  "publish_lost_loop [] tx e = e"
| "publish_lost_loop (m # ms) tx e =
    publish_lost_loop ms tx
      (case mi_publish_lost m of
         None \<Rightarrow> e
       | Some f \<Rightarrow> f (mi_context m) (mirror_event_of tx Stage_PublishLost) e)"

definition publish_lost :: "'e coordinator \<Rightarrow> transaction \<Rightarrow> 'e \<Rightarrow> 'e" where
  "publish_lost c tx e = publish_lost_loop (live_mirrors c) tx e"

section \<open>Requests and reservations\<close>

definition same_request :: "request \<Rightarrow> request \<Rightarrow> bool" where
  "same_request l r \<longleftrightarrow>
     rq_request_id l = rq_request_id r \<and> rq_logical_device_id l = rq_logical_device_id r \<and>
     rq_daemon_incarnation l = rq_daemon_incarnation r \<and>
     rq_expected_identity_record_id l = rq_expected_identity_record_id r \<and>
     rq_expected_generation l = rq_expected_generation r \<and>
     rq_expected_epoch l = rq_expected_epoch r \<and> rq_deadline_tick l = rq_deadline_tick r \<and>
     rq_source l = rq_source r \<and> rq_operation l = rq_operation r"

definition valid_request :: "'e coordinator \<Rightarrow> request \<Rightarrow> 'e \<Rightarrow> bool \<times> 'e" where
  "valid_request c rq e =
    (if rq_request_id rq = 0 \<or> rq_logical_device_id rq \<noteq> co_logical_device_id c \<or>
        rq_daemon_incarnation rq \<noteq> co_daemon_incarnation c \<or> \<not> is_valid_source (rq_source rq) \<or>
        \<not> is_valid_operation (rq_operation rq)
     then (False, e)
     else
       (let (late, e1) = past_deadline (co_config c) (rq_deadline_tick rq) e in
        if late then (False, e1)
        else (rq_expected_epoch rq = co_epoch c \<and>
              rq_expected_identity_record_id rq = co_identity_record_id c \<and>
              rq_expected_generation rq = co_generation c, e1)))"

definition find_request :: "'e coordinator \<Rightarrow> u64 \<Rightarrow> request_record option" where
  "find_request c request_id =
     find (\<lambda>r. rr_used r \<and> rq_request_id (rr_request r) = request_id) (co_requests c)"

definition free_request :: "'e coordinator \<Rightarrow> nat option" where
  "free_request c = find_index (\<lambda>r. \<not> rr_used r) (co_requests c)"

definition remember_request ::
    "request \<Rightarrow> lifecycle_result \<Rightarrow> result_details \<Rightarrow> 'e coordinator \<Rightarrow> 'e coordinator" where
  "remember_request rq result details c =
    (case free_request c of
       None \<Rightarrow> c
     | Some i \<Rightarrow> c\<lparr>co_requests := (co_requests c)[i :=
         \<lparr>rr_used = True, rr_request = rq, rr_result = result,
          rr_candidate_generation = rd_candidate_generation details,
          rr_candidate_identity_record_id = rd_candidate_identity_record_id details\<rparr>]\<rparr>)"

definition reserve_candidate :: "'e coordinator \<Rightarrow> (candidate \<times> 'e coordinator) option" where
  "reserve_candidate c =
    (if co_generation_high_water c \<ge> cf_generation_terminal (co_config c) - 1 \<or>
        co_identity_high_water c \<ge> cf_identity_record_terminal (co_config c) - 1
     then None
     else
       (let g = co_generation_high_water c + 1; i = co_identity_high_water c + 1
        in Some (\<lparr>cd_generation = g, cd_identity_record_id = i, cd_epoch = co_epoch c\<rparr>,
                 c\<lparr>co_generation_high_water := g, co_identity_high_water := i\<rparr>)))"

definition reserve_epoch :: "'e coordinator \<Rightarrow> u64 option" where
  "reserve_epoch c =
    (if co_epoch c \<ge> cf_epoch_terminal (co_config c) - 1 then None else Some (co_epoch c + 1))"

definition reserve_tombstone :: "'e coordinator \<Rightarrow> bool" where
  "reserve_tombstone c \<longleftrightarrow> unat (co_tombstone_count c) < kTombstoneCapacity"

definition append_tombstone :: "u64 \<Rightarrow> u64 \<Rightarrow> u64 \<Rightarrow> 'e coordinator \<Rightarrow> 'e coordinator" where
  "append_tombstone generation identity_record_id epoch c =
    (if unat (co_tombstone_count c) \<ge> kTombstoneCapacity then c
     else c\<lparr>co_tombstones := (co_tombstones c)[unat (co_tombstone_count c) :=
              \<lparr>ts_generation = generation, ts_identity_record_id = identity_record_id,
               ts_epoch = epoch\<rparr>],
            co_tombstone_count := co_tombstone_count c + 1\<rparr>)"

definition fill_details :: "lifecycle_result \<Rightarrow> transaction \<Rightarrow> 'e coordinator \<Rightarrow> result_details" where
  "fill_details result tx c = \<lparr>rd_result = result, rd_snapshot = snapshot c,
     rd_candidate_generation = cd_generation (tx_candidate tx),
     rd_candidate_identity_record_id = cd_identity_record_id (tx_candidate tx)\<rparr>"

text \<open>An early return sets the result and the snapshot; the candidate fields keep their zeros.\<close>

definition refuse :: "lifecycle_result \<Rightarrow> 'e coordinator \<Rightarrow> result_details" where
  "refuse result c = \<lparr>rd_result = result, rd_snapshot = snapshot c, rd_candidate_generation = 0,
     rd_candidate_identity_record_id = 0\<rparr>"

section \<open>Transactions\<close>

definition new_transaction ::
    "request \<Rightarrow> candidate \<Rightarrow> lifecycle_state \<Rightarrow> bool \<Rightarrow> 'e coordinator \<Rightarrow> transaction" where
  "new_transaction rq cd target has_candidate c =
    \<lparr>tx_request = rq, tx_candidate = cd, tx_target_state = target, tx_old_state = co_state c,
     tx_old_generation = co_generation c, tx_old_identity_record_id = co_identity_record_id c,
     tx_old_epoch = co_epoch c, tx_has_candidate = has_candidate, tx_touched_mask = 0,
     tx_committed_mask = 0, tx_committed_count = 0, tx_timed_out = False\<rparr>"

text \<open>\<open>invoke(Prepare) && invoke(Quiesce) && invoke(Drain)\<close>.\<close>

definition invoke_drain ::
    "'e coordinator \<Rightarrow> transaction \<Rightarrow> 'e \<Rightarrow> bool \<times> transaction \<times> 'e" where
  "invoke_drain c tx e =
    (let (ok1, tx1, e1) = invoke c Stage_Prepare tx e in
     if \<not> ok1 then (False, tx1, e1)
     else (let (ok2, tx2, e2) = invoke c Stage_Quiesce tx1 e1 in
           if \<not> ok2 then (False, tx2, e2) else invoke c Stage_Drain tx2 e2))"

definition failure :: "transaction \<Rightarrow> lifecycle_result" where
  "failure tx = (if tx_timed_out tx then Timeout else CallbackRejected)"

text \<open>The identity, generation and state the authority settles on.\<close>

definition install :: "candidate \<Rightarrow> lifecycle_state \<Rightarrow> 'e coordinator \<Rightarrow> 'e coordinator" where
  "install cd st c = c\<lparr>co_generation := cd_generation cd,
     co_identity_record_id := cd_identity_record_id cd, co_state := st\<rparr>"

definition apply_add ::
    "request \<Rightarrow> 'e coordinator \<Rightarrow> 'e \<Rightarrow> result_details \<times> 'e coordinator \<times> 'e" where
  "apply_add rq c e =
    (if co_state c \<noteq> Absent \<or> co_generation c \<noteq> 0 \<or> co_identity_record_id c \<noteq> 0
     then (refuse Invalid c, c, e)
     else case reserve_candidate c of
            None \<Rightarrow> (refuse ResourceExhausted c, c, e)
          | Some (cd, c1) \<Rightarrow>
              (let (drained, tx1, e1) = invoke_drain c1 (new_transaction rq cd Online True c1) e in
               if \<not> drained
               then (let e2 = abort c1 tx1 e1 in (fill_details (failure tx1) tx1 c1, c1, e2))
               else
                 (let (committed, tx2, e2) = invoke c1 Stage_Commit tx1 e1 in
                  if \<not> committed then
                    (let e3 = abort c1 tx2 e2 in
                     if tx_committed_count tx2 = 0 then (fill_details (failure tx2) tx2 c1, c1, e3)
                     else
                       (let c2 = install cd Lost c1; e4 = publish_lost c2 tx2 e3
                        in (fill_details (failure tx2) tx2 c2, c2, e4)))
                  else
                    (let c2 = install cd Online c1 in (fill_details Accepted tx2 c2, c2, e2)))))"

text \<open>The retirement of the current identity that every accepted removal ends with.\<close>

definition settle_absent :: "u64 \<Rightarrow> 'e coordinator \<Rightarrow> 'e coordinator" where
  "settle_absent next_epoch c =
    (append_tombstone (co_generation c) (co_identity_record_id c) next_epoch c)
      \<lparr>co_epoch := next_epoch, co_generation := 0, co_identity_record_id := 0, co_state := Absent\<rparr>"

definition apply_remove ::
    "request \<Rightarrow> 'e coordinator \<Rightarrow> 'e \<Rightarrow> result_details \<times> 'e coordinator \<times> 'e" where
  "apply_remove rq c e =
    (if (co_state c \<noteq> Online \<and> co_state c \<noteq> Lost) \<or> co_generation c = 0 \<or> \<not> reserve_tombstone c
     then (refuse (if co_state c = Lost then DeviceLost else Invalid) c, c, e)
     else case reserve_epoch c of
            None \<Rightarrow> (refuse ResourceExhausted c, c, e)
          | Some next_epoch \<Rightarrow>
              (let tx0 = new_transaction rq (empty_candidate\<lparr>cd_epoch := next_epoch\<rparr>) Absent False c;
                   (drained, tx1, e1) = invoke_drain c tx0 e in
               if \<not> drained then
                 (let e2 = abort c tx1 e1;
                      c1 = c\<lparr>co_state := Lost\<rparr>;
                      e3 = publish_lost c1 tx1 e2;
                      c2 = settle_absent next_epoch c1
                  in (fill_details (failure tx1) tx1 c2, c2, e3))
               else
                 (let (committed, tx2, e2) = invoke c Stage_Commit tx1 e1 in
                  if \<not> committed then
                    (let e3 = abort c tx2 e2;
                         e4 = publish_lost c tx2 e3;
                         c2 = settle_absent next_epoch c
                     in (fill_details (failure tx2) tx2 c2, c2, e4))
                  else
                    (let c2 = settle_absent next_epoch c
                     in (fill_details Accepted tx2 c2, c2, e2)))))"

text \<open>The old identity is retired and the candidate takes its place.\<close>

definition replace_identity ::
    "u64 \<Rightarrow> candidate \<Rightarrow> lifecycle_state \<Rightarrow> 'e coordinator \<Rightarrow> 'e coordinator" where
  "replace_identity next_epoch cd st c =
    install cd st
      ((append_tombstone (co_generation c) (co_identity_record_id c) next_epoch c)
         \<lparr>co_epoch := next_epoch\<rparr>)"

definition apply_reset_or_recover ::
    "request \<Rightarrow> 'e coordinator \<Rightarrow> 'e \<Rightarrow> result_details \<times> 'e coordinator \<times> 'e" where
  "apply_reset_or_recover rq c e =
    (let recover = (rq_operation rq = Op_Recover);
         state_allowed = (if recover then co_state c = Lost else co_state c = Online) in
     if \<not> state_allowed \<or> co_generation c = 0 \<or> \<not> reserve_tombstone c
     then (refuse (if co_state c = Lost then DeviceLost else Invalid) c, c, e)
     else case reserve_epoch c of
            None \<Rightarrow> (refuse ResourceExhausted c, c, e)
          | Some next_epoch \<Rightarrow>
          (case reserve_candidate c of
            None \<Rightarrow> (refuse ResourceExhausted c, c, e)
          | Some (cd0, c1) \<Rightarrow>
              (let cd = cd0\<lparr>cd_epoch := next_epoch\<rparr>;
                   (drained, tx1, e1) = invoke_drain c1 (new_transaction rq cd Online True c1) e in
               if \<not> drained
               then (let e2 = abort c1 tx1 e1 in (fill_details (failure tx1) tx1 c1, c1, e2))
               else
                 (let (committed, tx2, e2) = invoke c1 Stage_Commit tx1 e1 in
                  if \<not> committed then
                    (let e3 = abort c1 tx2 e2 in
                     if tx_committed_count tx2 = 0 then (fill_details (failure tx2) tx2 c1, c1, e3)
                     else
                       (let c2 = replace_identity next_epoch cd Lost c1;
                            e4 = publish_lost c2 tx2 e3
                        in (fill_details (failure tx2) tx2 c2, c2, e4)))
                  else
                    (let c2 = replace_identity next_epoch cd Online c1
                     in (fill_details Accepted tx2 c2, c2, e2))))))"

definition apply_transport_loss ::
    "request \<Rightarrow> 'e coordinator \<Rightarrow> 'e \<Rightarrow> result_details \<times> 'e coordinator \<times> 'e" where
  "apply_transport_loss rq c e =
    (if co_state c = Absent \<or> co_generation c = 0 then (refuse Invalid c, c, e)
     else if co_state c = Lost then (refuse DeviceLost c, c, e)
     else
       (let tx = new_transaction rq empty_candidate Lost False c;
            c1 = c\<lparr>co_state := Lost\<rparr>;
            e1 = publish_lost c1 tx e
        in (fill_details Accepted tx c1, c1, e1)))"

section \<open>Submitting a request\<close>

definition empty_snapshot :: snapshot_record where
  "empty_snapshot = \<lparr>sn_state = Absent, sn_logical_device_id = 0, sn_identity_record_id = 0,
     sn_generation = 0, sn_epoch = 0, sn_generation_high_water = 0, sn_identity_high_water = 0,
     sn_daemon_incarnation = 0\<rparr>"

definition empty_details :: result_details where
  "empty_details = \<lparr>rd_result = Invalid, rd_snapshot = empty_snapshot,
     rd_candidate_generation = 0, rd_candidate_identity_record_id = 0\<rparr>"

text \<open>The switch over the operation; a byte outside the enumeration leaves the defaults.\<close>

definition apply_operation ::
    "request \<Rightarrow> 'e coordinator \<Rightarrow> 'e \<Rightarrow> result_details \<times> 'e coordinator \<times> 'e" where
  "apply_operation rq c e =
    (if rq_operation rq = Op_Add then apply_add rq c e
     else if rq_operation rq = Op_Remove then apply_remove rq c e
     else if rq_operation rq = Op_Reset \<or> rq_operation rq = Op_Recover
     then apply_reset_or_recover rq c e
     else if rq_operation rq = Op_TransportLoss then apply_transport_loss rq c e
     else (empty_details, c, e))"

definition apply_request ::
    "request \<Rightarrow> 'e coordinator \<Rightarrow> 'e \<Rightarrow> result_details \<times> 'e coordinator \<times> 'e" where
  "apply_request rq c e =
    (if \<not> co_valid c then (refuse Invalid c, c, e)
     else case find_request c (rq_request_id rq) of
       Some previous \<Rightarrow>
         (if \<not> same_request (rr_request previous) rq then (refuse Conflict c, c, e)
          else ((refuse Duplicate c)\<lparr>
                  rd_candidate_generation := rr_candidate_generation previous,
                  rd_candidate_identity_record_id := rr_candidate_identity_record_id previous\<rparr>,
                c, e))
     | None \<Rightarrow>
         if free_request c = None then (refuse ResourceExhausted c, c, e)
         else
           (let (late, e1) = past_deadline (co_config c) (rq_deadline_tick rq) e in
            if late then (refuse Timeout c, c, e1)
            else
              (let (ok, e2) = valid_request c rq e1 in
               if \<not> ok then
                 (refuse (if rq_daemon_incarnation rq \<noteq> co_daemon_incarnation c \<or>
                             rq_expected_identity_record_id rq \<noteq> co_identity_record_id c \<or>
                             rq_expected_generation rq \<noteq> co_generation c \<or>
                             rq_expected_epoch rq \<noteq> co_epoch c
                          then Stale else Invalid) c, c, e2)
               else
                 (let (details, c1, e3) = apply_operation rq c e2
                  in (details, remember_request rq (rd_result details) details c1, e3)))))"

text \<open>Everything that can change the coordinator, with the environment beside it.\<close>

datatype 'e lifecycle_op =
  Register_Mirror "'e mirror" | Unregister_Mirror u8 u64 | Apply request

fun lifecycle_step :: "'e lifecycle_op \<Rightarrow> 'e coordinator \<times> 'e \<Rightarrow> 'e coordinator \<times> 'e" where
  "lifecycle_step (Register_Mirror m) (c, e) = (snd (register_mirror m c), e)"
| "lifecycle_step (Unregister_Mirror k x) (c, e) = (snd (unregister_mirror k x c), e)"
| "lifecycle_step (Apply rq) (c, e) = snd (apply_request rq c e)"

end
