(* ===== verification/LifecycleSpec.thy ===== *)
theory LifecycleSpec
  imports Lifecycle
begin

text \<open>
  What the lifecycle coordinator promises, whatever its mirrors and its clock do: an abstract
  authority with six kinds of step, and the proof that every submitted request is one of them.
  The authority's invariant is proved on the abstract steps and carried over to the coordinator.
\<close>

section \<open>The abstract authority\<close>

record authority =
  a_state :: lifecycle_state
  a_generation :: u64
  a_identity :: u64
  a_epoch :: u64
  a_generation_high_water :: u64
  a_identity_high_water :: u64
  a_tombstones :: "tombstone list"

record terminals =
  t_generation :: u64
  t_identity :: u64
  t_epoch :: u64

text \<open>Consuming the next generation and identity.\<close>

definition bump :: "authority \<Rightarrow> authority" where
  "bump a = a\<lparr>a_generation_high_water := a_generation_high_water a + 1,
     a_identity_high_water := a_identity_high_water a + 1\<rparr>"

definition can_bump :: "terminals \<Rightarrow> authority \<Rightarrow> bool" where
  "can_bump t a \<longleftrightarrow>
     a_generation_high_water a < t_generation t \<and> a_generation_high_water a + 1 < t_generation t \<and>
     a_identity_high_water a < t_identity t \<and> a_identity_high_water a + 1 < t_identity t"

definition take_next :: "lifecycle_state \<Rightarrow> authority \<Rightarrow> authority" where
  "take_next st a = (bump a)\<lparr>a_generation := a_generation_high_water a + 1,
     a_identity := a_identity_high_water a + 1, a_state := st\<rparr>"

definition bury :: "authority \<Rightarrow> authority" where
  "bury a = a\<lparr>a_tombstones := a_tombstones a @
       [\<lparr>ts_generation = a_generation a, ts_identity_record_id = a_identity a,
         ts_epoch = a_epoch a + 1\<rparr>],
     a_epoch := a_epoch a + 1\<rparr>"

definition can_bury :: "terminals \<Rightarrow> authority \<Rightarrow> bool" where
  "can_bury t a \<longleftrightarrow>
     a_generation a \<noteq> 0 \<and> length (a_tombstones a) < kTombstoneCapacity \<and>
     a_epoch a < t_epoch t \<and> a_epoch a + 1 < t_epoch t"

inductive authority_step :: "terminals \<Rightarrow> authority \<Rightarrow> authority \<Rightarrow> bool" for t :: terminals where
  stay: "authority_step t a a"
| burn: "can_bump t a \<Longrightarrow> authority_step t a (bump a)"
| create: "a_state a = Absent \<Longrightarrow> a_generation a = 0 \<Longrightarrow> a_identity a = 0 \<Longrightarrow> can_bump t a \<Longrightarrow>
    st = Online \<or> st = Lost \<Longrightarrow> authority_step t a (take_next st a)"
| retire: "a_state a = Online \<or> a_state a = Lost \<Longrightarrow> can_bury t a \<Longrightarrow>
    authority_step t a ((bury a)\<lparr>a_generation := 0, a_identity := 0, a_state := Absent\<rparr>)"
| replace: "a_state a = Online \<or> a_state a = Lost \<Longrightarrow> can_bury t a \<Longrightarrow> can_bump t a \<Longrightarrow>
    st = Online \<or> st = Lost \<Longrightarrow> authority_step t a (take_next st (bury a))"
| lose: "a_state a \<noteq> Absent \<Longrightarrow> a_state a \<noteq> Lost \<Longrightarrow> a_generation a \<noteq> 0 \<Longrightarrow>
    authority_step t a (a\<lparr>a_state := Lost\<rparr>)"

inductive_cases authority_stepE: "authority_step t a b"

definition authority_inv :: "terminals \<Rightarrow> authority \<Rightarrow> bool" where
  "authority_inv t a \<longleftrightarrow>
     (a_state a = Absent \<longleftrightarrow> a_generation a = 0) \<and> (a_generation a = 0 \<longleftrightarrow> a_identity a = 0) \<and>
     a_generation a \<le> a_generation_high_water a \<and> a_identity a \<le> a_identity_high_water a \<and>
     a_generation_high_water a < t_generation t \<and> a_identity_high_water a < t_identity t \<and>
     0 < a_epoch a \<and> a_epoch a < t_epoch t \<and>
     length (a_tombstones a) \<le> kTombstoneCapacity \<and>
     sorted_wrt (<) (map ts_generation (a_tombstones a)) \<and>
     (\<forall>x \<in> set (a_tombstones a). 0 < ts_generation x \<and>
        ts_generation x \<le> a_generation_high_water a \<and>
        (a_generation a \<noteq> 0 \<longrightarrow> ts_generation x < a_generation a))"

lemma bump_inv:
  assumes "authority_inv t a" and "can_bump t a"
  shows "authority_inv t (bump a)"
  using assms word_less_Suc [of "a_generation_high_water a" "t_generation t"]
    word_less_Suc [of "a_identity_high_water a" "t_identity t"]
  by (fastforce simp: authority_inv_def bump_def can_bump_def)

lemma take_next_inv:
  assumes "can_bump t a" and "st \<noteq> Absent"
    and "0 < a_epoch a" and "a_epoch a < t_epoch t" and "length (a_tombstones a) \<le> kTombstoneCapacity"
    and "sorted_wrt (<) (map ts_generation (a_tombstones a))"
    and "\<And>x. x \<in> set (a_tombstones a) \<Longrightarrow>
      0 < ts_generation x \<and> ts_generation x \<le> a_generation_high_water a"
  shows "authority_inv t (take_next st a)"
proof -
  have g: "a_generation_high_water a < t_generation t" "a_identity_high_water a < t_identity t"
    using assms(1) by (simp_all add: can_bump_def)
  show ?thesis
    using assms word_less_Suc [OF g(1)] word_Suc_nonzero [OF g(1)] word_Suc_nonzero [OF g(2)]
    by (fastforce simp: authority_inv_def take_next_def bump_def can_bump_def)
qed

lemma bury_facts:
  assumes "authority_inv t a" and "can_bury t a"
  shows "0 < a_epoch (bury a)" and "a_epoch (bury a) < t_epoch t"
    and "length (a_tombstones (bury a)) \<le> kTombstoneCapacity"
    and "sorted_wrt (<) (map ts_generation (a_tombstones (bury a)))"
    and "\<And>x. x \<in> set (a_tombstones (bury a)) \<Longrightarrow>
      0 < ts_generation x \<and> ts_generation x \<le> a_generation_high_water a"
  using assms word_Suc_nonzero [of "a_epoch a" "t_epoch t"]
  by (auto simp: authority_inv_def can_bury_def bury_def sorted_wrt_append word_gt_0)

lemma authority_step_inv:
  assumes "authority_step t a b" and "authority_inv t a"
  shows "authority_inv t b"
  using assms(1)
proof cases
  case burn
  then show ?thesis using bump_inv assms(2) by blast
next
  case (create st)
  then show ?thesis
    using assms(2) take_next_inv [of t a st] by (auto simp: authority_inv_def)
next
  case retire
  then show ?thesis
    using assms(2) bury_facts [OF assms(2)] by (auto simp: authority_inv_def bury_def)
next
  case (replace st)
  have "can_bump t (bury a)" using replace by (simp add: can_bump_def bury_def)
  moreover have "a_generation_high_water (bury a) = a_generation_high_water a"
    by (simp add: bury_def)
  moreover have "st \<noteq> Absent" using replace by auto
  ultimately show ?thesis
    using replace(1) take_next_inv [of t "bury a" st] bury_facts [OF assms(2) replace(3)] by auto
qed (use assms(2) in \<open>simp_all add: authority_inv_def\<close>)

text \<open>A generation that is consumed and not online can never be online again.\<close>

definition spent :: "u64 \<Rightarrow> authority \<Rightarrow> bool" where
  "spent g a \<longleftrightarrow>
     g \<le> a_generation_high_water a \<and> (a_generation a = g \<longrightarrow> a_state a \<noteq> Online)"

lemma authority_step_spent:
  assumes "authority_step t a b" and "authority_inv t a" and "spent g a"
  shows "spent g b"
proof -
  have lt: "a_generation_high_water a < a_generation_high_water a + 1" if "can_bump t a"
    using that word_less_Suc by (auto simp: can_bump_def)
  from assms(1) show ?thesis
    by cases (use assms(2,3) lt in \<open>auto simp: spent_def bump_def take_next_def bury_def authority_inv_def\<close>)
qed

definition monotone :: "authority \<Rightarrow> authority \<Rightarrow> bool" where
  "monotone a b \<longleftrightarrow>
     a_generation_high_water a \<le> a_generation_high_water b \<and>
     a_identity_high_water a \<le> a_identity_high_water b \<and> a_epoch a \<le> a_epoch b \<and>
     (\<exists>ts. a_tombstones b = a_tombstones a @ ts)"

lemma authority_step_monotone: "authority_step t a b \<Longrightarrow> monotone a b"
  using word_less_Suc [of "a_generation_high_water a" "t_generation t"]
    word_less_Suc [of "a_identity_high_water a" "t_identity t"]
    word_less_Suc [of "a_epoch a" "t_epoch t"]
  by (elim authority_stepE)
    (auto simp: monotone_def bump_def take_next_def bury_def can_bump_def can_bury_def)

section \<open>The coordinator refines the authority\<close>

definition authority_of :: "'e coordinator \<Rightarrow> authority" where
  "authority_of c = \<lparr>a_state = co_state c, a_generation = co_generation c,
     a_identity = co_identity_record_id c, a_epoch = co_epoch c,
     a_generation_high_water = co_generation_high_water c,
     a_identity_high_water = co_identity_high_water c, a_tombstones = live_tombstones c\<rparr>"

lemma authority_of_sel [simp]:
  "a_state (authority_of c) = co_state c" "a_generation (authority_of c) = co_generation c"
  "a_identity (authority_of c) = co_identity_record_id c" "a_epoch (authority_of c) = co_epoch c"
  "a_generation_high_water (authority_of c) = co_generation_high_water c"
  "a_identity_high_water (authority_of c) = co_identity_high_water c"
  "a_tombstones (authority_of c) = live_tombstones c"
  by (simp_all add: authority_of_def)

definition terminals_of :: "'e coordinator \<Rightarrow> terminals" where
  "terminals_of c = \<lparr>t_generation = cf_generation_terminal (co_config c),
     t_identity = cf_identity_record_terminal (co_config c),
     t_epoch = cf_epoch_terminal (co_config c)\<rparr>"

definition tables_ok :: "'e coordinator \<Rightarrow> bool" where
  "tables_ok c \<longleftrightarrow>
     length (co_tombstones c) = kTombstoneCapacity \<and>
     unat (co_tombstone_count c) \<le> kTombstoneCapacity \<and>
     cf_generation_terminal (co_config c) \<noteq> 0 \<and> cf_identity_record_terminal (co_config c) \<noteq> 0 \<and>
     cf_epoch_terminal (co_config c) \<noteq> 0"

lemma below_terminal:
  fixes x t :: u64
  assumes "\<not> t - 1 \<le> x" and "t \<noteq> 0"
  shows "x < t" and "x + 1 < t"
proof -
  show "x < t" using assms by (auto simp: word_le_minus_one_iff)
  from word_Suc_le [OF this] show "x + 1 < t"
    using assms by (auto simp: word_le_minus_one_iff order.strict_iff_order)
qed

lemma reserve_candidate_refines:
  assumes "reserve_candidate c = Some (cd, c1)" and "tables_ok c"
  shows "can_bump (terminals_of c) (authority_of c)"
    and "cd_generation cd = co_generation_high_water c + 1"
    and "cd_identity_record_id cd = co_identity_high_water c + 1"
    and "c1 = c\<lparr>co_generation_high_water := co_generation_high_water c + 1,
           co_identity_high_water := co_identity_high_water c + 1\<rparr>"
  using assms below_terminal
  by (auto simp: reserve_candidate_def can_bump_def tables_ok_def terminals_of_def authority_of_def
      Let_def split: if_splits)

lemma live_tombstones_append:
  assumes "tables_ok c" and "reserve_tombstone c"
  shows "live_tombstones (append_tombstone g i e c) =
    live_tombstones c @ [\<lparr>ts_generation = g, ts_identity_record_id = i, ts_epoch = e\<rparr>]"
proof -
  have n: "unat (co_tombstone_count c) < 2048"
    using assms(2) by (simp add: reserve_tombstone_def kTombstoneCapacity_def)
  then have "co_tombstone_count c < 2048" by (simp add: word_less_nat_alt)
  from unat_Suc_below [OF this]
  have "unat (co_tombstone_count c + 1) = Suc (unat (co_tombstone_count c))" by simp
  with n assms show ?thesis
    by (simp add: live_tombstones_def append_tombstone_def tables_ok_def kTombstoneCapacity_def
        take_Suc_conv_app_nth)
qed

lemma tombstones_irrelevant [simp]:
  "live_tombstones (c\<lparr>co_state := st\<rparr>) = live_tombstones c"
  "live_tombstones (c\<lparr>co_generation := g\<rparr>) = live_tombstones c"
  "live_tombstones (c\<lparr>co_identity_record_id := g\<rparr>) = live_tombstones c"
  "live_tombstones (c\<lparr>co_epoch := g\<rparr>) = live_tombstones c"
  "live_tombstones (c\<lparr>co_generation_high_water := g\<rparr>) = live_tombstones c"
  "live_tombstones (c\<lparr>co_identity_high_water := g\<rparr>) = live_tombstones c"
  "live_tombstones (c\<lparr>co_requests := rs\<rparr>) = live_tombstones c"
  "live_tombstones (c\<lparr>co_mirrors := ms\<rparr>) = live_tombstones c"
  "live_tombstones (c\<lparr>co_mirror_count := n\<rparr>) = live_tombstones c"
  by (simp_all add: live_tombstones_def)

lemma append_tombstone_fields [simp]:
  "co_state (append_tombstone g i e c) = co_state c"
  "co_config (append_tombstone g i e c) = co_config c"
  "co_valid (append_tombstone g i e c) = co_valid c"
  "co_requests (append_tombstone g i e c) = co_requests c"
  "co_mirrors (append_tombstone g i e c) = co_mirrors c"
  "co_mirror_count (append_tombstone g i e c) = co_mirror_count c"
  "co_generation_high_water (append_tombstone g i e c) = co_generation_high_water c"
  "co_identity_high_water (append_tombstone g i e c) = co_identity_high_water c"
  "co_logical_device_id (append_tombstone g i e c) = co_logical_device_id c"
  "co_daemon_incarnation (append_tombstone g i e c) = co_daemon_incarnation c"
  by (simp_all add: append_tombstone_def)

lemma tables_ok_append: "tables_ok c \<Longrightarrow> tables_ok (append_tombstone g i e c)"
proof -
  have "unat n < 2048 \<Longrightarrow> unat (n + 1) \<le> 2048" for n :: u32 by unat_arith
  then show "tables_ok c \<Longrightarrow> ?thesis"
    by (auto simp: tables_ok_def append_tombstone_def kTombstoneCapacity_def)
qed

lemma can_bury_of:
  assumes "tables_ok c" and "reserve_tombstone c" and "reserve_epoch c = Some ne"
    and "co_generation c \<noteq> 0"
  shows "can_bury (terminals_of c) (authority_of c)" and "ne = co_epoch c + 1"
proof -
  have "length (live_tombstones c) < kTombstoneCapacity"
    using assms(1,2) by (simp add: live_tombstones_def tables_ok_def reserve_tombstone_def)
  moreover have "co_epoch c < cf_epoch_terminal (co_config c) \<and>
      co_epoch c + 1 < cf_epoch_terminal (co_config c)"
    using assms(1,3) below_terminal [of "cf_epoch_terminal (co_config c)" "co_epoch c"]
    by (auto simp: reserve_epoch_def tables_ok_def split: if_splits)
  ultimately show "can_bury (terminals_of c) (authority_of c)"
    using assms(4) by (simp add: can_bury_def authority_of_def terminals_of_def)
  show "ne = co_epoch c + 1" using assms(3) by (simp add: reserve_epoch_def split: if_splits)
qed

subsection \<open>Outcomes do not depend on the callbacks\<close>

lemma apply_add_outcome:
  assumes "apply_add rq c e = (d, c', e')"
  shows "c' = c \<or>
    co_state c = Absent \<and> co_generation c = 0 \<and> co_identity_record_id c = 0 \<and>
    (\<exists>cd c1. reserve_candidate c = Some (cd, c1) \<and>
       (c' = c1 \<or> c' = install cd Lost c1 \<or> c' = install cd Online c1))"
  using assms unfolding apply_add_def Let_def
  by (simp add: case_prod_unfold split: if_splits option.splits prod.splits)
    (metis prod.collapse)+

lemma apply_remove_outcome:
  assumes "apply_remove rq c e = (d, c', e')"
  shows "c' = c \<or>
    (co_state c = Online \<or> co_state c = Lost) \<and> co_generation c \<noteq> 0 \<and> reserve_tombstone c \<and>
    (\<exists>ne. reserve_epoch c = Some ne \<and>
      (c' = settle_absent ne c \<or> c' = settle_absent ne (c\<lparr>co_state := Lost\<rparr>)))"
  using assms unfolding apply_remove_def Let_def
  by (auto simp: case_prod_unfold split: if_splits option.splits)

lemma apply_transport_loss_outcome:
  assumes "apply_transport_loss rq c e = (d, c', e')"
  shows "c' = c \<or> co_state c \<noteq> Absent \<and> co_state c \<noteq> Lost \<and> co_generation c \<noteq> 0 \<and>
    c' = c\<lparr>co_state := Lost\<rparr>"
  using assms unfolding apply_transport_loss_def Let_def by (auto split: if_splits)

lemma apply_reset_outcome:
  assumes "apply_reset_or_recover rq c e = (d, c', e')"
  shows "c' = c \<or>
    (co_state c = Online \<or> co_state c = Lost) \<and> co_generation c \<noteq> 0 \<and> reserve_tombstone c \<and>
    (\<exists>ne cd c1. reserve_epoch c = Some ne \<and> reserve_candidate c = Some (cd, c1) \<and>
      (c' = c1 \<or> c' = replace_identity ne (cd\<lparr>cd_epoch := ne\<rparr>) Lost c1 \<or>
       c' = replace_identity ne (cd\<lparr>cd_epoch := ne\<rparr>) Online c1))"
  using assms unfolding apply_reset_or_recover_def Let_def
  by (auto simp: case_prod_unfold split: if_splits option.splits)

lemma settle_absent_refines:
  assumes "tables_ok c" and "reserve_tombstone c" and "reserve_epoch c = Some ne"
    and "co_generation c \<noteq> 0"
  shows "authority_of (settle_absent ne c) =
    (bury (authority_of c))\<lparr>a_generation := 0, a_identity := 0, a_state := Absent\<rparr>"
  using live_tombstones_append [OF assms(1,2)] can_bury_of(2) [OF assms]
  by (simp add: authority_of_def settle_absent_def bury_def)

lemma install_refines:
  assumes "reserve_candidate c = Some (cd, c1)" and "tables_ok c"
  shows "authority_of (install cd st c1) = take_next st (authority_of c)"
    and "authority_of c1 = bump (authority_of c)"
  using reserve_candidate_refines [OF assms]
  by (simp_all add: authority_of_def install_def take_next_def bump_def)

lemma replace_identity_refines:
  assumes "reserve_candidate c = Some (cd, c1)" and "tables_ok c" and "reserve_tombstone c"
    and "reserve_epoch c = Some ne" and "co_generation c \<noteq> 0"
  shows "authority_of (replace_identity ne (cd\<lparr>cd_epoch := ne\<rparr>) st c1) =
    take_next st (bury (authority_of c))"
proof -
  note r = reserve_candidate_refines [OF assms(1,2)]
  have "tables_ok c1" "reserve_tombstone c1"
    using assms(2,3) r(4) by (simp_all add: tables_ok_def reserve_tombstone_def)
  from live_tombstones_append [OF this] show ?thesis
    using r can_bury_of(2) [OF assms(2,3,4,5)]
    by (simp add: authority_of_def replace_identity_def install_def take_next_def bury_def bump_def)
qed

lemma settle_absent_lost:
  "settle_absent ne (c\<lparr>co_state := Lost\<rparr>) = settle_absent ne c"
  by (simp add: settle_absent_def append_tombstone_def)

lemmas steps_of = authority_step.stay
  authority_step.burn [where a = "authority_of c" for c]
  authority_step.create [where a = "authority_of c" for c, unfolded authority_of_sel]
  authority_step.retire [where a = "authority_of c" for c, unfolded authority_of_sel]
  authority_step.replace [where a = "authority_of c" for c, unfolded authority_of_sel]

lemma apply_operation_cases:
  assumes "apply_operation rq c e = (d, c', e')"
  obtains (add) "apply_add rq c e = (d, c', e')" | (remove) "apply_remove rq c e = (d, c', e')"
  | (reset) "apply_reset_or_recover rq c e = (d, c', e')"
  | (loss) "apply_transport_loss rq c e = (d, c', e')" | (none) "c' = c"
  using assms by (auto simp: apply_operation_def split: if_splits)

lemma apply_operation_refines:
  assumes "apply_operation rq c e = (d, c', e')" and "tables_ok c"
  shows "authority_step (terminals_of c) (authority_of c) (authority_of c')"
proof -
  from assms(1) show ?thesis
  proof (cases rule: apply_operation_cases)
    case add
    from apply_add_outcome [OF this] show ?thesis
      using install_refines [OF _ assms(2)] reserve_candidate_refines(1) [OF _ assms(2)]
      by (auto intro: steps_of)
  next
    case remove
    from apply_remove_outcome [OF this] show ?thesis
    proof (elim disjE)
      assume "c' = c" then show ?thesis by (simp add: authority_step.stay)
    next
      assume *: "(co_state c = Online \<or> co_state c = Lost) \<and> co_generation c \<noteq> 0 \<and>
        reserve_tombstone c \<and> (\<exists>ne. reserve_epoch c = Some ne \<and>
          (c' = settle_absent ne c \<or> c' = settle_absent ne (c\<lparr>co_state := Lost\<rparr>)))"
      then obtain ne where ne: "reserve_epoch c = Some ne" "c' = settle_absent ne c"
        by (auto simp: settle_absent_lost)
      then show ?thesis
        using * settle_absent_refines [OF assms(2) _ ne(1)] can_bury_of(1) [OF assms(2) _ ne(1)]
        by (auto intro: steps_of)
    qed
  next
    case reset
    from apply_reset_outcome [OF this] show ?thesis
    proof (elim disjE conjE exE)
      assume "c' = c" then show ?thesis by (simp add: authority_step.stay)
    qed (use install_refines(2) [OF _ assms(2)] reserve_candidate_refines(1) [OF _ assms(2)]
        replace_identity_refines [OF _ assms(2)] can_bury_of(1) [OF assms(2)]
        in \<open>auto intro: steps_of\<close>)
  next
    case loss
    from apply_transport_loss_outcome [OF this] show ?thesis
      using authority_step.lose [of "authority_of c" "terminals_of c"] authority_step.stay
      by (auto simp: authority_of_def)
  qed (simp add: authority_step.stay)
qed

lemma remember_fields [simp]:
  "authority_of (remember_request rq r d c) = authority_of c"
  "tables_ok (remember_request rq r d c) = tables_ok c"
  "terminals_of (remember_request rq r d c) = terminals_of c"
  "co_valid (remember_request rq r d c) = co_valid c"
  "co_config (remember_request rq r d c) = co_config c"
  "co_mirrors (remember_request rq r d c) = co_mirrors c"
  "co_mirror_count (remember_request rq r d c) = co_mirror_count c"
  "co_logical_device_id (remember_request rq r d c) = co_logical_device_id c"
  "co_daemon_incarnation (remember_request rq r d c) = co_daemon_incarnation c"
  by (simp_all add: remember_request_def authority_of_def tables_ok_def terminals_of_def
      split: option.split)

lemma apply_request_cases:
  assumes "apply_request rq c e = (d, c', e')"
  obtains (refused) "c' = c" "rd_result d \<noteq> Accepted"
  | (dispatched) c1 e1 e2 where "co_valid c" "find_request c (rq_request_id rq) = None"
      "free_request c \<noteq> None" "apply_operation rq c e1 = (d, c1, e2)"
      "c' = remember_request rq (rd_result d) d c1" "e' = e2"
      "rq_expected_generation rq = co_generation c"
      "rq_expected_identity_record_id rq = co_identity_record_id c"
      "rq_expected_epoch rq = co_epoch c"
proof -
  have "c' = c \<and> rd_result d \<noteq> Accepted \<or> (\<exists>c1 e1 e2. co_valid c \<and> find_request c (rq_request_id rq) = None \<and>
      free_request c \<noteq> None \<and> apply_operation rq c e1 = (d, c1, e2) \<and>
      c' = remember_request rq (rd_result d) d c1 \<and> e' = e2 \<and>
      rq_expected_generation rq = co_generation c \<and>
      rq_expected_identity_record_id rq = co_identity_record_id c \<and>
      rq_expected_epoch rq = co_epoch c)"
    using assms unfolding apply_request_def valid_request_def Let_def
    by (auto simp: refuse_def split: if_splits option.splits prod.splits)
  then show thesis using refused dispatched by blast
qed

text \<open>The fields no operation changes, and the table bounds.\<close>

definition frame :: "'e coordinator \<Rightarrow> 'e coordinator \<Rightarrow> bool" where
  "frame c c' \<longleftrightarrow>
     co_config c' = co_config c \<and> co_valid c' = co_valid c \<and> co_requests c' = co_requests c \<and>
     co_mirrors c' = co_mirrors c \<and> co_mirror_count c' = co_mirror_count c \<and>
     co_logical_device_id c' = co_logical_device_id c \<and>
     co_daemon_incarnation c' = co_daemon_incarnation c \<and> (tables_ok c \<longrightarrow> tables_ok c')"

lemma frame_refl [simp]: "frame c c" by (simp add: frame_def)

lemma frame_reserve: "reserve_candidate c = Some (cd, c1) \<Longrightarrow> frame c c1"
  by (auto simp: reserve_candidate_def frame_def tables_ok_def Let_def split: if_splits)

lemma tables_ok_cong:
  "co_config c' = co_config c \<Longrightarrow> co_tombstones c' = co_tombstones c \<Longrightarrow>
   co_tombstone_count c' = co_tombstone_count c \<Longrightarrow> tables_ok c' = tables_ok c"
  by (simp add: tables_ok_def)

lemma frame_install: "frame c c1 \<Longrightarrow> frame c (install cd st c1)"
  by (simp add: frame_def install_def tables_ok_def)

lemma frame_settle: "frame c (settle_absent ne c)"
  using tables_ok_append [of c] by (simp add: frame_def settle_absent_def tables_ok_def)

lemma frame_replace: "frame c c1 \<Longrightarrow> frame c (replace_identity ne cd st c1)"
  using tables_ok_append [of c1]
  by (simp add: frame_def replace_identity_def install_def tables_ok_def)

lemma apply_operation_frame:
  assumes "apply_operation rq c e = (d, c', e')"
  shows "frame c c'"
  using assms
proof (cases rule: apply_operation_cases)
  case add
  from apply_add_outcome [OF this] show ?thesis by (auto intro: frame_reserve frame_install)
next
  case remove
  from apply_remove_outcome [OF this] show ?thesis
    by (auto simp: settle_absent_lost intro: frame_settle)
next
  case reset
  from apply_reset_outcome [OF this] show ?thesis by (auto intro: frame_reserve frame_replace)
next
  case loss
  from apply_transport_loss_outcome [OF this] show ?thesis
    by (auto simp: frame_def tables_ok_def)
qed simp

end
