(* ===== verification/LifecycleInvariant.thy ===== *)
theory LifecycleInvariant
  imports LifecycleSpec
begin

text \<open>
  The invariant of the whole coordinator: the abstract authority's invariant together with the
  request, tombstone and mirror tables. Every operation keeps it for all mirrors and clocks, and
  the tables only grow.
\<close>

section \<open>The request table\<close>

definition requests_ok :: "request_record list \<Rightarrow> bool" where
  "requests_ok rs \<longleftrightarrow> length rs = kRequestCapacity \<and>
     (\<forall>i < length rs. \<forall>j < length rs. rr_used (rs ! i) \<and> rr_used (rs ! j) \<and>
        rq_request_id (rr_request (rs ! i)) = rq_request_id (rr_request (rs ! j)) \<longrightarrow> i = j)"

lemma find_nth_unique:
  assumes "i < length xs" and "P (xs ! i)" and "\<And>j. j < length xs \<Longrightarrow> P (xs ! j) \<Longrightarrow> j = i"
  shows "find P xs = Some (xs ! i)"
proof -
  have "\<not> P (xs ! j)" if "j < i" for j
    using assms(1) assms(3) [of j] that by auto
  then show ?thesis using assms(1,2) unfolding find_Some_iff by blast
qed

lemma find_request_NoneD:
  "find_request c k = None \<Longrightarrow> i < length (co_requests c) \<Longrightarrow> rr_used (co_requests c ! i) \<Longrightarrow>
     rq_request_id (rr_request (co_requests c ! i)) \<noteq> k"
  by (auto simp: find_request_def find_None_iff)

lemma find_request_SomeE:
  assumes "find_request c k = Some r"
  obtains i where "i < length (co_requests c)" "co_requests c ! i = r" "rr_used r"
    "rq_request_id (rr_request r) = k"
  using assms by (auto simp: find_request_def find_Some_iff)

lemma free_request_SomeD:
  "free_request c = Some i \<Longrightarrow> i < length (co_requests c) \<and> \<not> rr_used (co_requests c ! i)"
  using find_index_Some by (fastforce simp: free_request_def)

text \<open>Remembering a fresh request keeps the table well-formed, finds the new record, and keeps
  every old one.\<close>

lemma remember_ok:
  assumes "requests_ok (co_requests c)" and "find_request c (rq_request_id rq) = None"
  shows "requests_ok (co_requests (remember_request rq r d c))"
proof (cases "free_request c")
  case (Some i)
  then show ?thesis
    using assms(1) free_request_SomeD [OF Some] find_request_NoneD [OF assms(2)]
      find_request_NoneD [OF assms(2), THEN not_sym]
    by (auto simp: remember_request_def requests_ok_def nth_list_update)
qed (use assms in \<open>simp add: remember_request_def\<close>)

lemma remember_found:
  assumes "requests_ok (co_requests c)" and "find_request c (rq_request_id rq) = None"
    and "free_request c \<noteq> None"
  shows "find_request (remember_request rq r d c) (rq_request_id rq) =
    Some \<lparr>rr_used = True, rr_request = rq, rr_result = r,
      rr_candidate_generation = rd_candidate_generation d,
      rr_candidate_identity_record_id = rd_candidate_identity_record_id d\<rparr>"
proof -
  from assms(3) obtain i where i: "free_request c = Some i" by blast
  let ?new = "\<lparr>rr_used = True, rr_request = rq, rr_result = r,
    rr_candidate_generation = rd_candidate_generation d,
    rr_candidate_identity_record_id = rd_candidate_identity_record_id d\<rparr>"
  let ?rs = "(co_requests c)[i := ?new]"
  have "find (\<lambda>x. rr_used x \<and> rq_request_id (rr_request x) = rq_request_id rq) ?rs = Some (?rs ! i)"
    using free_request_SomeD [OF i] find_request_NoneD [OF assms(2)]
    by (intro find_nth_unique) (auto simp: nth_list_update split: if_splits)
  then show ?thesis
    using free_request_SomeD [OF i] by (simp add: remember_request_def find_request_def i)
qed

lemma remember_keeps:
  assumes "requests_ok (co_requests c)" and "find_request c (rq_request_id rq) = None"
    and "find_request c k = Some x"
  shows "find_request (remember_request rq r d c) k = Some x"
proof (cases "free_request c")
  case None
  then show ?thesis using assms by (simp add: remember_request_def)
next
  case (Some i)
  from assms(3) obtain j where j: "j < length (co_requests c)" "co_requests c ! j = x" "rr_used x"
    "rq_request_id (rr_request x) = k" by (rule find_request_SomeE)
  have k: "k \<noteq> rq_request_id rq" using assms(2,3) by auto
  let ?rs = "co_requests (remember_request rq r d c)"
  have x: "?rs ! j = x" "j < length ?rs"
    using j free_request_SomeD [OF Some] by (auto simp: remember_request_def Some nth_list_update)
  have "find (\<lambda>y. rr_used y \<and> rq_request_id (rr_request y) = k) ?rs = Some (?rs ! j)"
  proof (rule find_nth_unique [OF x(2)])
    show "rr_used (?rs ! j) \<and> rq_request_id (rr_request (?rs ! j)) = k" using x j by simp
    show "m = j" if "m < length ?rs" "rr_used (?rs ! m) \<and> rq_request_id (rr_request (?rs ! m)) = k"
      for m
      using that x j remember_ok [OF assms(1,2), of r d] unfolding requests_ok_def by metis
  qed
  then show ?thesis using x(1) by (simp add: find_request_def)
qed

section \<open>The mirror table\<close>

definition mirrors_ok :: "'e coordinator \<Rightarrow> bool" where
  "mirrors_ok c \<longleftrightarrow>
     length (co_mirrors c) = kMaxMirrors \<and> unat (co_mirror_count c) \<le> kMaxMirrors \<and>
     distinct (map mi_kind (live_mirrors c))"

lemma register_mirror_cases:
  "register_mirror m c = (False, c) \<or>
   register_mirror m c = (True, c\<lparr>co_mirrors := (co_mirrors c)[unat (co_mirror_count c) := m],
     co_mirror_count := co_mirror_count c + 1\<rparr>)"
  by (simp add: register_mirror_def)

lemma register_mirror_live:
  assumes "mirrors_ok c" and "fst (register_mirror m c)"
  shows "live_mirrors (snd (register_mirror m c)) = live_mirrors c @ [m]"
    and "unat (co_mirror_count (snd (register_mirror m c))) \<le> kMaxMirrors"
proof -
  have n: "unat (co_mirror_count c) < 3"
    using assms(2) by (auto simp: register_mirror_def kMaxMirrors_def split: if_splits)
  then have "co_mirror_count c < 3" by (simp add: word_less_nat_alt)
  from unat_Suc_below [OF this]
  have s: "unat (co_mirror_count c + 1) = Suc (unat (co_mirror_count c))" by simp
  have eq: "snd (register_mirror m c) = c\<lparr>co_mirrors := (co_mirrors c)[unat (co_mirror_count c) := m],
      co_mirror_count := co_mirror_count c + 1\<rparr>"
    using assms(2) register_mirror_cases [of m c] by auto
  show "live_mirrors (snd (register_mirror m c)) = live_mirrors c @ [m]"
    using n assms(1) s
    by (simp add: eq live_mirrors_def mirrors_ok_def kMaxMirrors_def take_Suc_conv_app_nth)
  show "unat (co_mirror_count (snd (register_mirror m c))) \<le> kMaxMirrors"
    using n s by (simp add: eq kMaxMirrors_def)
qed

lemma register_mirror_ok:
  assumes "mirrors_ok c"
  shows "mirrors_ok (snd (register_mirror m c))"
proof (cases "fst (register_mirror m c)")
  case True
  then have "\<not> list_ex (\<lambda>x. mi_kind x = mi_kind m) (live_mirrors c)"
    by (auto simp: register_mirror_def split: if_splits)
  then have "mi_kind m \<notin> mi_kind ` set (live_mirrors c)" by (auto simp: list_ex_iff)
  moreover have "length (co_mirrors (snd (register_mirror m c))) = length (co_mirrors c)"
    by (simp add: register_mirror_def)
  ultimately show ?thesis
    using assms register_mirror_live [OF assms True] by (simp add: mirrors_ok_def)
qed (use assms register_mirror_cases [of m c] in \<open>auto\<close>)

lemma distinct_swap_remove:
  assumes "distinct (map f xs)" and "i < length xs"
  shows "distinct (map f (take (length xs - 1) (xs[i := xs ! (length xs - 1)])))"
proof -
  let ?n = "length xs - 1"
  have inj: "a < length xs \<Longrightarrow> b < length xs \<Longrightarrow> f (xs ! a) = f (xs ! b) \<longleftrightarrow> a = b" for a b
    using assms(1) by (auto simp: distinct_conv_nth)
  show ?thesis
    unfolding distinct_conv_nth using assms(2) by (auto simp: nth_list_update inj)
qed

lemma unregister_mirror_ok:
  assumes "mirrors_ok c"
  shows "mirrors_ok (snd (unregister_mirror k x c))"
proof (cases "fst (unregister_mirror k x c)")
  case True
  let ?n = "unat (co_mirror_count c)"
  obtain i where i: "find_index (\<lambda>m. mi_kind m = k \<and> mi_context m = x) (live_mirrors c) = Some i"
    and eq: "snd (unregister_mirror k x c) = c\<lparr>co_mirrors :=
        ((co_mirrors c)[i := co_mirrors c ! unat (co_mirror_count c - 1)])
          [unat (co_mirror_count c - 1) := empty_mirror],
      co_mirror_count := co_mirror_count c - 1\<rparr>"
    using True by (auto simp: unregister_mirror_def Let_def split: if_splits option.splits)
  have len: "length (live_mirrors c) = ?n" "?n \<le> length (co_mirrors c)"
    using assms by (simp_all add: live_mirrors_def mirrors_ok_def)
  have lt: "i < ?n" using find_index_Some [OF i] len by simp
  then have pred: "unat (co_mirror_count c - 1) = ?n - 1" by unat_arith
  have nth: "co_mirrors c ! (?n - 1) = live_mirrors c ! (?n - 1)"
    using lt by (simp add: live_mirrors_def)
  have "live_mirrors (snd (unregister_mirror k x c)) =
      take (?n - 1) ((live_mirrors c)[i := live_mirrors c ! (?n - 1)])"
    using lt len by (simp add: eq pred nth [symmetric]) (simp add: live_mirrors_def pred take_update_swap list_update_beyond)
  moreover have "distinct (map mi_kind \<dots>)"
    using distinct_swap_remove [of mi_kind "live_mirrors c" i] assms lt len by (simp add: mirrors_ok_def)
  ultimately show ?thesis
    using assms lt by (auto simp: mirrors_ok_def eq pred)
qed (use assms in \<open>auto simp: unregister_mirror_def Let_def split: if_splits option.splits\<close>)

section \<open>The coordinator\<close>

definition coordinator_inv :: "'e coordinator \<Rightarrow> bool" where
  "coordinator_inv c \<longleftrightarrow>
     co_valid c \<and> tables_ok c \<and> authority_inv (terminals_of c) (authority_of c) \<and>
     requests_ok (co_requests c) \<and> mirrors_ok c \<and>
     co_logical_device_id c \<noteq> 0 \<and> co_daemon_incarnation c \<noteq> 0"

lemma new_coordinator_inv:
  assumes "co_valid (new_coordinator cf)"
  shows "coordinator_inv (new_coordinator cf)"
proof -
  let ?c = "new_coordinator cf"
  have v: "cf_identity_record_terminal cf > 1" "cf_generation_terminal cf > 1"
    "cf_epoch_terminal cf > 1" "cf_initial_epoch cf \<noteq> 0"
    "cf_initial_epoch cf < cf_epoch_terminal cf"
    "cf_initial_generation cf < cf_generation_terminal cf"
    "cf_initial_identity_record_id cf < cf_identity_record_terminal cf"
    "cf_initial_state cf = Absent \<longleftrightarrow> cf_initial_generation cf = 0"
    "cf_initial_generation cf = 0 \<longleftrightarrow> cf_initial_identity_record_id cf = 0"
    using assms by (auto simp: new_coordinator_def Let_def)
  have f: "co_config ?c = cf" "co_state ?c = cf_initial_state cf" "live_tombstones ?c = []"
    "co_generation ?c = cf_initial_generation cf" "co_epoch ?c = cf_initial_epoch cf"
    "co_identity_record_id ?c = cf_initial_identity_record_id cf"
    "co_generation_high_water ?c = cf_initial_generation cf"
    "co_identity_high_water ?c = cf_initial_identity_record_id cf"
    "live_mirrors ?c = []" "co_requests ?c = replicate kRequestCapacity empty_request_record"
    "length (co_mirrors ?c) = kMaxMirrors" "length (co_tombstones ?c) = kTombstoneCapacity"
    "co_mirror_count ?c = 0" "co_tombstone_count ?c = 0"
    by (simp_all add: new_coordinator_def Let_def live_tombstones_def live_mirrors_def)
  have "tables_ok ?c" using v f by (auto simp: tables_ok_def)
  moreover have "authority_inv (terminals_of ?c) (authority_of ?c)"
    using v f by (simp add: authority_inv_def terminals_of_def word_gt_0)
  moreover have "requests_ok (co_requests ?c)"
    by (simp add: requests_ok_def f empty_request_record_def)
  moreover have "mirrors_ok ?c" by (simp add: mirrors_ok_def f)
  moreover have "co_logical_device_id ?c \<noteq> 0" "co_daemon_incarnation ?c \<noteq> 0"
    using assms by (simp_all add: new_coordinator_def Let_def)
  ultimately show ?thesis using assms by (simp add: coordinator_inv_def)
qed

lemma apply_request_inv:
  assumes "coordinator_inv c" and "apply_request rq c e = (d, c', e')"
  shows "coordinator_inv c'"
  using assms(2)
proof (cases rule: apply_request_cases)
  case refused
  then show ?thesis using assms(1) by simp
next
  case (dispatched c1 e1 e2)
  note f = apply_operation_frame [OF dispatched(4), unfolded frame_def]
  have t: "tables_ok c" using assms(1) by (simp add: coordinator_inv_def)
  have trm: "terminals_of c1 = terminals_of c" using f by (simp add: terminals_of_def)
  have "authority_inv (terminals_of c1) (authority_of c1)"
    using authority_step_inv [OF apply_operation_refines [OF dispatched(4) t]] assms(1)
    by (simp add: trm coordinator_inv_def)
  moreover have "find_request c1 (rq_request_id rq) = None"
    using dispatched(2) f by (simp add: find_request_def)
  then have "requests_ok (co_requests (remember_request rq (rd_result d) d c1))"
    using assms(1) f by (intro remember_ok) (simp_all add: coordinator_inv_def)
  ultimately show ?thesis
    using assms(1) f dispatched(5)
    by (auto simp: coordinator_inv_def mirrors_ok_def live_mirrors_def)
qed

lemma mirror_ops_frame:
  "authority_of (snd (register_mirror m c)) = authority_of c"
  "tables_ok (snd (register_mirror m c)) = tables_ok c"
  "terminals_of (snd (register_mirror m c)) = terminals_of c"
  "co_valid (snd (register_mirror m c)) = co_valid c"
  "co_requests (snd (register_mirror m c)) = co_requests c"
  "co_logical_device_id (snd (register_mirror m c)) = co_logical_device_id c"
  "co_daemon_incarnation (snd (register_mirror m c)) = co_daemon_incarnation c"
  "co_logical_device_id (snd (unregister_mirror k x c)) = co_logical_device_id c"
  "co_daemon_incarnation (snd (unregister_mirror k x c)) = co_daemon_incarnation c"
  "authority_of (snd (unregister_mirror k x c)) = authority_of c"
  "tables_ok (snd (unregister_mirror k x c)) = tables_ok c"
  "terminals_of (snd (unregister_mirror k x c)) = terminals_of c"
  "co_valid (snd (unregister_mirror k x c)) = co_valid c"
  "co_requests (snd (unregister_mirror k x c)) = co_requests c"
  by (simp_all add: register_mirror_def unregister_mirror_def authority_of_def tables_ok_def
      terminals_of_def Let_def split: option.split)

lemma lifecycle_step_inv:
  assumes "coordinator_inv (fst s)"
  shows "coordinator_inv (fst (lifecycle_step x s))"
proof -
  obtain c e where s: "s = (c, e)" by (cases s)
  show ?thesis
  proof (cases x)
    case (Apply rq)
    obtain d c' e' where "apply_request rq c e = (d, c', e')" by (cases "apply_request rq c e")
    then show ?thesis using apply_request_inv [of c rq e d c' e'] assms by (simp add: s Apply)
  qed (use assms in \<open>simp_all add: s coordinator_inv_def mirror_ops_frame register_mirror_ok
      unregister_mirror_ok\<close>)
qed

interpretation lifecycle_safe: invariant_component lifecycle_step "\<lambda>s. coordinator_inv (fst s)"
  by unfold_locales (rule lifecycle_step_inv)

section \<open>Progress\<close>

text \<open>The authority only moves forward and no request is ever forgotten.\<close>

definition lifecycle_le :: "'e coordinator \<times> 'e \<Rightarrow> 'e coordinator \<times> 'e \<Rightarrow> bool" where
  "lifecycle_le s s' \<longleftrightarrow>
     monotone (authority_of (fst s)) (authority_of (fst s')) \<and>
     (\<forall>k r. find_request (fst s) k = Some r \<longrightarrow> find_request (fst s') k = Some r)"

lemma monotone_trans: "monotone a b \<Longrightarrow> monotone b c \<Longrightarrow> monotone a c"
  by (fastforce simp: monotone_def)

lemma apply_request_le:
  assumes "coordinator_inv c" and "apply_request rq c e = (d, c', e')"
  shows "lifecycle_le (c, e) (c', e')"
  using assms(2)
proof (cases rule: apply_request_cases)
  case refused
  then show ?thesis by (simp add: lifecycle_le_def monotone_def)
next
  case (dispatched c1 e1 e2)
  have t: "tables_ok c" using assms(1) by (simp add: coordinator_inv_def)
  have r: "co_requests c1 = co_requests c"
    using apply_operation_frame [OF dispatched(4)] by (simp add: frame_def)
  then have find: "find_request c1 k = find_request c k" for k by (simp add: find_request_def)
  have "find_request c k = Some x \<Longrightarrow> find_request c' k = Some x" for k x
    using remember_keeps [of c1 rq k x] assms(1) dispatched(2,5) r
    by (simp add: find coordinator_inv_def)
  then show ?thesis
    using authority_step_monotone [OF apply_operation_refines [OF dispatched(4) t]] dispatched(5)
    by (simp add: lifecycle_le_def)
qed

lemma lifecycle_step_le:
  assumes "coordinator_inv (fst s)"
  shows "lifecycle_le s (lifecycle_step x s)"
proof -
  obtain c e where s: "s = (c, e)" by (cases s)
  show ?thesis
  proof (cases x)
    case (Apply rq)
    obtain d c' e' where "apply_request rq c e = (d, c', e')" by (cases "apply_request rq c e")
    then show ?thesis using apply_request_le [of c rq e d c' e'] assms by (simp add: s Apply)
  qed (simp_all add: s lifecycle_le_def find_request_def mirror_ops_frame monotone_def)
qed

interpretation lifecycle_run: progress_component lifecycle_step "\<lambda>s. coordinator_inv (fst s)" lifecycle_le
proof
  show "lifecycle_le s s" for s :: "'e coordinator \<times> 'e" by (simp add: lifecycle_le_def monotone_def)
  show "lifecycle_le s u" if "lifecycle_le s t" "lifecycle_le t u" for s t u :: "'e coordinator \<times> 'e"
    using that monotone_trans unfolding lifecycle_le_def by blast
  show "lifecycle_le s (lifecycle_step x s)" if "coordinator_inv (fst s)" for s :: "'e coordinator \<times> 'e" and x
    using that by (rule lifecycle_step_le)
qed

section \<open>Spent and lost generations\<close>

lemma lifecycle_step_authority:
  assumes "coordinator_inv (fst s)"
  shows "authority_step (terminals_of (fst s)) (authority_of (fst s))
    (authority_of (fst (lifecycle_step x s)))"
proof -
  obtain c e where s: "s = (c, e)" by (cases s)
  show ?thesis
  proof (cases x)
    case (Apply rq)
    obtain d c' e' where a: "apply_request rq c e = (d, c', e')" by (cases "apply_request rq c e")
    from a show ?thesis
    proof (cases rule: apply_request_cases)
      case refused
      then show ?thesis using a by (simp add: s Apply authority_step.stay)
    next
      case (dispatched c1 e1 e2)
      then show ?thesis
        using apply_operation_refines [OF dispatched(4)] assms a
        by (simp add: s Apply coordinator_inv_def)
    qed
  qed (simp_all add: s mirror_ops_frame authority_step.stay)
qed

lemma lifecycle_step_spent:
  "coordinator_inv (fst s) \<Longrightarrow> spent g (authority_of (fst s)) \<Longrightarrow>
     spent g (authority_of (fst (lifecycle_step x s)))"
  by (rule authority_step_spent [OF lifecycle_step_authority]) (simp_all add: coordinator_inv_def)

interpretation lifecycle_spent: stable_component lifecycle_step "\<lambda>s. coordinator_inv (fst s)"
  "\<lambda>s. spent g (authority_of (fst s))"
  by unfold_locales (rule lifecycle_step_spent)

definition lost_generation :: "u64 \<Rightarrow> authority \<Rightarrow> bool" where
  "lost_generation g a \<longleftrightarrow> g \<noteq> 0 \<and>
     (if a_generation a = g then a_state a \<noteq> Online else g \<in> ts_generation ` set (a_tombstones a))"

lemma authority_step_lost:
  assumes "authority_step t a b" and "authority_inv t a" and "lost_generation g a"
  shows "lost_generation g b"
proof -
  have le: "g \<le> a_generation_high_water a"
    using assms(2,3) by (auto simp: lost_generation_def authority_inv_def split: if_splits)
  have new: "a_generation_high_water a + 1 \<noteq> g" if "can_bump t a"
    using that word_less_Suc [of "a_generation_high_water a" "t_generation t"] le
    by (auto simp: can_bump_def)
  from assms(1) show ?thesis
    by cases (use assms(2,3) new in \<open>auto simp: lost_generation_def bump_def take_next_def bury_def
        authority_inv_def split: if_splits\<close>)
qed

lemma lifecycle_step_lost:
  "coordinator_inv (fst s) \<Longrightarrow> lost_generation g (authority_of (fst s)) \<Longrightarrow>
     lost_generation g (authority_of (fst (lifecycle_step x s)))"
  by (rule authority_step_lost [OF lifecycle_step_authority]) (simp_all add: coordinator_inv_def)

interpretation lifecycle_lost: stable_component lifecycle_step "\<lambda>s. coordinator_inv (fst s)"
  "\<lambda>s. lost_generation g (authority_of (fst s))"
  by unfold_locales (rule lifecycle_step_lost)

lemma resolve_lost_iff: "resolve c g = Resolve_DeviceLost \<longleftrightarrow> lost_generation g (authority_of c)"
  by (auto simp: resolve_def lost_generation_def list_ex_iff)

end
