(* ===== verification/LifecycleQuiet.thy ===== *)
theory LifecycleQuiet
  imports LifecycleInvariant
begin

text \<open>
  The coordinator with mirrors that accept every event: each request that passes its guards is
  accepted, with a known resulting state. This is the ground for the capacity statement and for
  the concrete examples.
\<close>

section \<open>Accepting mirrors\<close>

definition accepts_always :: "'e mirror_callback option \<Rightarrow> bool" where
  "accepts_always cb \<longleftrightarrow> (\<forall>f. cb = Some f \<longrightarrow> (\<forall>x ev e. fst (f x ev e)))"

definition accepting :: "'e mirror \<Rightarrow> bool" where
  "accepting m \<longleftrightarrow> accepts_always (mi_prepare m) \<and> accepts_always (mi_quiesce m) \<and>
     accepts_always (mi_drain m) \<and> accepts_always (mi_commit m)"

definition quiet :: "'e coordinator \<Rightarrow> bool" where
  "quiet c \<longleftrightarrow> list_all accepting (live_mirrors c)"

definition same_transaction :: "transaction \<Rightarrow> transaction \<Rightarrow> bool" where
  "same_transaction tx tx' \<longleftrightarrow>
     tx_request tx' = tx_request tx \<and> tx_candidate tx' = tx_candidate tx"

lemma invoke_loop_accepting:
  assumes "list_all accepting ms" and "rq_deadline_tick (tx_request tx) = 0"
    and "stage \<noteq> Stage_Abort" and "stage \<noteq> Stage_PublishLost"
  shows "\<exists>tx' e'. invoke_loop cf stage None i ms tx e = (True, tx', e') \<and> same_transaction tx tx'"
  using assms
proof (induction ms arbitrary: i tx e)
  case Nil
  then show ?case by (simp add: same_transaction_def)
next
  case (Cons m ms)
  have acc: "accepts_always (select_callback stage None m)"
    using Cons.prems by (cases stage) (simp_all add: accepting_def select_callback_def)
  have late: "past_deadline cf 0 e = (False, e)"
    by (simp add: past_deadline_def)
  show ?case
  proof (cases "select_callback stage None m")
    case None
    then show ?thesis using Cons.IH [of tx "Suc i" e] Cons.prems by (simp add: late)
  next
    case (Some f)
    let ?tx1 = "tx\<lparr>tx_touched_mask := or (tx_touched_mask tx) (push_bit i 1)\<rparr>"
    let ?tx2 = "if stage = Stage_Commit
      then ?tx1\<lparr>tx_committed_mask := or (tx_committed_mask ?tx1) (push_bit i 1),
        tx_committed_count := tx_committed_count ?tx1 + 1\<rparr> else ?tx1"
    obtain e2 where e2: "f (mi_context m) (mirror_event_of ?tx1 stage) e = (True, e2)"
      using acc Some unfolding accepts_always_def by (metis prod.collapse)
    have req: "rq_deadline_tick (tx_request ?tx2) = 0" "same_transaction tx ?tx2"
      using Cons.prems(2) by (simp_all add: same_transaction_def)
    from Cons.IH [OF _ req(1) Cons.prems(3,4), of "Suc i" e2] Cons.prems(1)
    obtain tx' e' where "invoke_loop cf stage None (Suc i) ms ?tx2 e2 = (True, tx', e')"
      "same_transaction ?tx2 tx'" by auto
    moreover have "invoke_loop cf stage None i (m # ms) tx e =
        invoke_loop cf stage None (Suc i) ms ?tx2 e2"
      using Cons.prems(2) e2 by (simp add: late Some Let_def del: push_bit_of_1)
    ultimately show ?thesis using req(2) unfolding same_transaction_def by metis
  qed
qed

lemma invoke_quiet:
  assumes "quiet c" and "rq_deadline_tick (tx_request tx) = 0"
    and "stage \<noteq> Stage_Abort" and "stage \<noteq> Stage_PublishLost"
  obtains tx' e' where "invoke c stage tx e = (True, tx', e')" "same_transaction tx tx'"
  using invoke_loop_accepting [OF assms(1) [unfolded quiet_def] assms(2-4)]
  unfolding invoke_def by blast

lemma invoke_drain_quiet:
  assumes "quiet c" and "rq_deadline_tick (tx_request tx) = 0"
  obtains tx' e' where "invoke_drain c tx e = (True, tx', e')" "same_transaction tx tx'"
proof -
  obtain tx1 e1 where 1: "invoke c Stage_Prepare tx e = (True, tx1, e1)" "same_transaction tx tx1"
    using invoke_quiet [OF assms, of Stage_Prepare] by blast
  then have "rq_deadline_tick (tx_request tx1) = 0" using assms(2) by (simp add: same_transaction_def)
  from invoke_quiet [OF assms(1) this, of Stage_Quiesce e1] obtain tx2 e2 where
    2: "invoke c Stage_Quiesce tx1 e1 = (True, tx2, e2)" "same_transaction tx1 tx2" by blast
  then have "rq_deadline_tick (tx_request tx2) = 0"
    using 1 assms(2) by (simp add: same_transaction_def)
  from invoke_quiet [OF assms(1) this, of Stage_Drain e2] obtain tx3 e3 where
    3: "invoke c Stage_Drain tx2 e2 = (True, tx3, e3)" "same_transaction tx2 tx3" by blast
  show thesis by (rule that [of tx3 e3]) (use 1 2 3 in \<open>simp_all add: invoke_drain_def same_transaction_def\<close>)
qed

section \<open>Accepted operations\<close>

lemma quiet_reserve: "reserve_candidate c = Some (cd, c1) \<Longrightarrow> quiet c1 = quiet c"
  by (auto simp: reserve_candidate_def quiet_def live_mirrors_def Let_def split: if_splits)

lemma apply_add_quiet:
  assumes "quiet c" and "rq_deadline_tick rq = 0" and "co_state c = Absent" and "co_generation c = 0"
    and "co_identity_record_id c = 0" and "reserve_candidate c = Some (cd, c1)"
  obtains d e' where "apply_add rq c e = (d, install cd Online c1, e')" "rd_result d = Accepted"
    "rd_candidate_generation d = cd_generation cd"
proof -
  let ?tx = "new_transaction rq cd Online True c1"
  have q: "quiet c1" using assms(1,6) by (simp add: quiet_reserve)
  have "rq_deadline_tick (tx_request ?tx) = 0" using assms(2) by (simp add: new_transaction_def)
  from invoke_drain_quiet [OF q this] obtain tx1 e1 where
    1: "invoke_drain c1 ?tx e = (True, tx1, e1)" "same_transaction ?tx tx1" by metis
  then have "rq_deadline_tick (tx_request tx1) = 0" using assms(2)
    by (simp add: same_transaction_def new_transaction_def)
  from invoke_quiet [OF q this, of Stage_Commit e1] obtain tx2 e2 where
    2: "invoke c1 Stage_Commit tx1 e1 = (True, tx2, e2)" "same_transaction tx1 tx2" by blast
  show thesis
    by (rule that [of "fill_details Accepted tx2 (install cd Online c1)" e2])
      (use 1 2 assms in \<open>simp_all add: apply_add_def Let_def fill_details_def same_transaction_def
        new_transaction_def\<close>)
qed

lemma apply_remove_quiet:
  assumes "quiet c" and "rq_deadline_tick rq = 0" and "co_state c = Online \<or> co_state c = Lost"
    and "co_generation c \<noteq> 0" and "reserve_tombstone c" and "reserve_epoch c = Some ne"
  obtains d e' where "apply_remove rq c e = (d, settle_absent ne c, e')" "rd_result d = Accepted"
proof -
  let ?tx = "new_transaction rq (empty_candidate\<lparr>cd_epoch := ne\<rparr>) Absent False c"
  have "rq_deadline_tick (tx_request ?tx) = 0" using assms(2) by (simp add: new_transaction_def)
  from invoke_drain_quiet [OF assms(1) this] obtain tx1 e1 where
    1: "invoke_drain c ?tx e = (True, tx1, e1)" "same_transaction ?tx tx1" by metis
  then have "rq_deadline_tick (tx_request tx1) = 0" using assms(2)
    by (simp add: same_transaction_def new_transaction_def)
  from invoke_quiet [OF assms(1) this, of Stage_Commit e1] obtain tx2 e2 where
    2: "invoke c Stage_Commit tx1 e1 = (True, tx2, e2)" by blast
  show thesis
    by (rule that [of "fill_details Accepted tx2 (settle_absent ne c)" e2])
      (use 1 2 assms in \<open>auto simp: apply_remove_def Let_def fill_details_def\<close>)
qed

lemma apply_reset_quiet:
  assumes "quiet c" and "rq_deadline_tick rq = 0" and "rq_operation rq = Op_Reset"
    and "co_state c = Online" and "co_generation c \<noteq> 0" and "reserve_tombstone c"
    and "reserve_epoch c = Some ne" and "reserve_candidate c = Some (cd, c1)"
  obtains d e' where "apply_reset_or_recover rq c e =
      (d, replace_identity ne (cd\<lparr>cd_epoch := ne\<rparr>) Online c1, e')" "rd_result d = Accepted"
    "rd_candidate_generation d = cd_generation cd"
proof -
  let ?cd = "cd\<lparr>cd_epoch := ne\<rparr>"
  let ?tx = "new_transaction rq ?cd Online True c1"
  have q: "quiet c1" using assms(1,8) by (simp add: quiet_reserve)
  have "rq_deadline_tick (tx_request ?tx) = 0" using assms(2) by (simp add: new_transaction_def)
  from invoke_drain_quiet [OF q this] obtain tx1 e1 where
    1: "invoke_drain c1 ?tx e = (True, tx1, e1)" "same_transaction ?tx tx1" by metis
  then have "rq_deadline_tick (tx_request tx1) = 0" using assms(2)
    by (simp add: same_transaction_def new_transaction_def)
  from invoke_quiet [OF q this, of Stage_Commit e1] obtain tx2 e2 where
    2: "invoke c1 Stage_Commit tx1 e1 = (True, tx2, e2)" "same_transaction tx1 tx2" by blast
  show thesis
    by (rule that [of "fill_details Accepted tx2 (replace_identity ne ?cd Online c1)" e2])
      (use 1 2 assms in \<open>simp_all add: apply_reset_or_recover_def Let_def fill_details_def
        same_transaction_def new_transaction_def\<close>)
qed

section \<open>Requests for the current snapshot\<close>

text \<open>A request as a client forms it from a snapshot, with no deadline.\<close>

definition request_for :: "u64 \<Rightarrow> u8 \<Rightarrow> 'e coordinator \<Rightarrow> request" where
  "request_for k oper c = \<lparr>rq_request_id = k, rq_logical_device_id = co_logical_device_id c,
     rq_daemon_incarnation = co_daemon_incarnation c,
     rq_expected_identity_record_id = co_identity_record_id c,
     rq_expected_generation = co_generation c, rq_expected_epoch = co_epoch c,
     rq_deadline_tick = 0, rq_source = 1, rq_operation = oper\<rparr>"

definition used_requests :: "'e coordinator \<Rightarrow> nat" where
  "used_requests c = length (filter rr_used (co_requests c))"

definition ids_below :: "u64 \<Rightarrow> 'e coordinator \<Rightarrow> bool" where
  "ids_below k c \<longleftrightarrow>
     list_all (\<lambda>r. rr_used r \<longrightarrow> rq_request_id (rr_request r) < k) (co_requests c)"

lemma length_filter_update:
  "i < length xs \<Longrightarrow> \<not> P (xs ! i) \<Longrightarrow> P x \<Longrightarrow>
   length (filter P (xs[i := x])) = Suc (length (filter P xs))"
proof (induction xs arbitrary: i)
  case (Cons y xs)
  then show ?case by (cases i) auto
qed simp

lemma ids_below_find: "ids_below k c \<Longrightarrow> find_request c k = None"
  by (fastforce simp: ids_below_def find_request_def find_None_iff list_all_iff)

lemma used_requests_free: "used_requests c < length (co_requests c) \<Longrightarrow> free_request c \<noteq> None"
  by (metis used_requests_def filter_True find_index_None free_request_def less_irrefl)

lemma remember_counts:
  assumes "free_request c \<noteq> None" and "ids_below k c" and "rq_request_id rq = k" and "k < k'"
  shows "used_requests (remember_request rq r d c) = Suc (used_requests c)"
    and "ids_below k' (remember_request rq r d c)"
    and "length (co_requests (remember_request rq r d c)) = length (co_requests c)"
proof -
  obtain i where i: "free_request c = Some i" using assms(1) by auto
  note f = free_request_SomeD [OF i]
  show "used_requests (remember_request rq r d c) = Suc (used_requests c)"
    using f by (simp add: used_requests_def remember_request_def i length_filter_update)
  show "ids_below k' (remember_request rq r d c)"
    using assms(2-4) set_update_subset_insert [of "co_requests c" i]
    by (fastforce simp: ids_below_def remember_request_def i list_all_iff)
  show "length (co_requests (remember_request rq r d c)) = length (co_requests c)"
    by (simp add: remember_request_def i)
qed

text \<open>A request formed from the snapshot reaches its operation.\<close>

lemma request_for_applies:
  assumes "co_valid c" and "k \<noteq> 0" and "is_valid_operation oper"
    and "find_request c k = None" and "free_request c \<noteq> None"
    and "apply_operation (request_for k oper c) c e = (d, c1, e1)"
  shows "apply_request (request_for k oper c) c e =
    (d, remember_request (request_for k oper c) (rd_result d) d c1, e1)"
  using assms
  by (auto simp: apply_request_def request_for_def past_deadline_def valid_request_def
      is_valid_source_def)

section \<open>Room in the fixed tables\<close>

text \<open>Room for \<open>q\<close> more requests, \<open>g\<close> generations, \<open>t\<close> tombstones and \<open>p\<close> epochs, the next request
  id being \<open>k\<close>.\<close>

definition room :: "nat \<Rightarrow> nat \<Rightarrow> nat \<Rightarrow> nat \<Rightarrow> u64 \<Rightarrow> 'e coordinator \<Rightarrow> bool" where
  "room q g t p k c \<longleftrightarrow>
     coordinator_inv c \<and> quiet c \<and> 0 < k \<and> ids_below k c \<and> unat k + q < 2 ^ 64 \<and>
     used_requests c + q \<le> kRequestCapacity \<and>
     unat (co_tombstone_count c) + t \<le> kTombstoneCapacity \<and>
     unat (co_generation_high_water c) + g < unat (cf_generation_terminal (co_config c)) \<and>
     unat (co_identity_high_water c) + g < unat (cf_identity_record_terminal (co_config c)) \<and>
     unat (co_epoch c) + p < unat (cf_epoch_terminal (co_config c))"

definition submit :: "u64 \<Rightarrow> u8 \<Rightarrow> 'e coordinator \<Rightarrow> 'e \<Rightarrow> lifecycle_result \<times> 'e coordinator \<times> 'e" where
  "submit k oper c e =
    (let (d, c', e') = apply_request (request_for k oper c) c e in (rd_result d, c', e'))"

lemma word_room: "unat (x :: u64) + Suc n < unat y \<Longrightarrow> \<not> y - 1 \<le> x \<and> unat (x + 1) = unat x + 1"
  by unat_arith

lemma room_reserve_candidate:
  assumes "room q (Suc g) t p k c"
  obtains "reserve_candidate c = Some (\<lparr>cd_generation = co_generation_high_water c + 1,
      cd_identity_record_id = co_identity_high_water c + 1, cd_epoch = co_epoch c\<rparr>,
      c\<lparr>co_generation_high_water := co_generation_high_water c + 1,
        co_identity_high_water := co_identity_high_water c + 1\<rparr>)"
    "unat (co_generation_high_water c + 1) = unat (co_generation_high_water c) + 1"
    "unat (co_identity_high_water c + 1) = unat (co_identity_high_water c) + 1"
  using assms word_room [of "co_generation_high_water c" g "cf_generation_terminal (co_config c)"]
    word_room [of "co_identity_high_water c" g "cf_identity_record_terminal (co_config c)"]
  by (simp add: reserve_candidate_def room_def Let_def)

lemma room_reserve_epoch:
  assumes "room q g t (Suc p) k c"
  obtains "reserve_epoch c = Some (co_epoch c + 1)" "unat (co_epoch c + 1) = unat (co_epoch c) + 1"
  using assms word_room [of "co_epoch c" p "cf_epoch_terminal (co_config c)"]
  by (simp add: reserve_epoch_def room_def)

lemma room_reserve_tombstone:
  assumes "room q g (Suc t) p k c"
  obtains "reserve_tombstone c" "unat (co_tombstone_count c + 1) = unat (co_tombstone_count c) + 1"
proof -
  have "unat (co_tombstone_count c) < 2048"
    using assms by (simp add: room_def kTombstoneCapacity_def)
  then have "unat (co_tombstone_count c + 1) = unat (co_tombstone_count c) + 1"
    by (simp add: unat_word_ariths)
  then show thesis using that assms by (simp add: reserve_tombstone_def room_def)
qed

text \<open>Submitting a request whose operation is accepted uses up one request entry and what its
  operation uses.\<close>

lemma submit_accepted:
  assumes "room (Suc q) g t p k c" and "is_valid_operation oper"
    and "apply_operation (request_for k oper c) c e = (d, c1, e1)" and "rd_result d = Accepted"
    and "unat (co_tombstone_count c1) + t' \<le> kTombstoneCapacity"
    and "unat (co_generation_high_water c1) + g' < unat (cf_generation_terminal (co_config c))"
    and "unat (co_identity_high_water c1) + g' < unat (cf_identity_record_terminal (co_config c))"
    and "unat (co_epoch c1) + p' < unat (cf_epoch_terminal (co_config c))"
  obtains c' where "submit k oper c e = (Accepted, c', e1)" "co_state c' = co_state c1"
    "room q g' t' p' (k + 1) c'"
proof -
  let ?rq = "request_for k oper c"
  let ?c' = "remember_request ?rq (rd_result d) d c1"
  have inv: "coordinator_inv c" and k: "k \<noteq> 0" and ids: "ids_below k c"
    using assms(1) by (auto simp: room_def)
  have len: "length (co_requests c) = kRequestCapacity" "co_valid c"
    using inv by (simp_all add: coordinator_inv_def requests_ok_def)
  have free: "free_request c \<noteq> None"
    by (rule used_requests_free) (use assms(1) len in \<open>simp add: room_def\<close>)
  have run: "apply_request ?rq c e = (d, ?c', e1)"
    by (rule request_for_applies [OF len(2) k assms(2) ids_below_find [OF ids] free assms(3)])
  have fr: "co_requests c1 = co_requests c" "co_config c1 = co_config c"
    "live_mirrors c1 = live_mirrors c"
    using apply_operation_frame [OF assms(3)] by (simp_all add: frame_def live_mirrors_def)
  have k1: "k < k + 1" "unat (k + 1) = unat k + 1" "0 < k + 1"
    using assms(1) by (simp_all add: room_def word_less_nat_alt unat_word_ariths)
  have c1: "free_request c1 \<noteq> None" "ids_below k c1" "rq_request_id ?rq = k"
    using free ids fr by (simp_all add: free_request_def ids_below_def request_for_def)
  note counts = remember_counts [OF c1 k1(1), of "rd_result d" d]
  have keep: "co_config ?c' = co_config c" "live_mirrors ?c' = live_mirrors c"
    "co_tombstone_count ?c' = co_tombstone_count c1" "co_epoch ?c' = co_epoch c1"
    "co_generation_high_water ?c' = co_generation_high_water c1"
    "co_identity_high_water ?c' = co_identity_high_water c1" "co_state ?c' = co_state c1"
    using fr by (simp_all add: remember_request_def live_mirrors_def split: option.split)
  have "room q g' t' p' (k + 1) ?c'"
    using assms(1,5-8) counts keep k1 fr apply_request_inv [OF inv run]
    by (simp add: room_def quiet_def used_requests_def)
  then show thesis using that [of ?c'] run assms(4) keep by (simp add: submit_def)
qed

text \<open>The three operations of a cycle.\<close>

lemma submit_reset:
  assumes "room (Suc q) (Suc g) (Suc t) (Suc p) k c" and "co_state c = Online"
  obtains c' e' where "submit k Op_Reset c e = (Accepted, c', e')" "co_state c' = Online"
    "room q g t p (k + 1) c'"
proof -
  let ?rq = "request_for k Op_Reset c"
  let ?ne = "co_epoch c + 1"
  let ?c1 = "c\<lparr>co_generation_high_water := co_generation_high_water c + 1,
      co_identity_high_water := co_identity_high_water c + 1\<rparr>"
  let ?cd = "\<lparr>cd_generation = co_generation_high_water c + 1,
      cd_identity_record_id = co_identity_high_water c + 1, cd_epoch = co_epoch c\<rparr>"
  let ?c2 = "replace_identity ?ne (?cd\<lparr>cd_epoch := ?ne\<rparr>) Online ?c1"
  obtain cand: "reserve_candidate c = Some (?cd, ?c1)"
    and hw: "unat (co_generation_high_water c + 1) = unat (co_generation_high_water c) + 1"
      "unat (co_identity_high_water c + 1) = unat (co_identity_high_water c) + 1"
    using room_reserve_candidate [OF assms(1)] by blast
  obtain ep: "reserve_epoch c = Some ?ne" and ep1: "unat ?ne = unat (co_epoch c) + 1"
    using room_reserve_epoch [OF assms(1)] by blast
  obtain ts: "reserve_tombstone c"
    and ts1: "unat (co_tombstone_count c + 1) = unat (co_tombstone_count c) + 1"
    using room_reserve_tombstone [OF assms(1)] by blast
  have inv: "authority_inv (terminals_of c) (authority_of c)" "quiet c"
    using assms(1) by (simp_all add: room_def coordinator_inv_def)
  have "co_generation c \<noteq> 0" using inv(1) assms(2) by (auto simp: authority_inv_def authority_of_def)
  moreover have "rq_deadline_tick ?rq = 0" "rq_operation ?rq = Op_Reset"
    by (simp_all add: request_for_def)
  ultimately obtain d e' where
    "apply_reset_or_recover ?rq c e = (d, ?c2, e')" "rd_result d = Accepted"
    using apply_reset_quiet [OF inv(2) _ _ assms(2) _ ts ep cand, of ?rq e] by blast
  then have op: "apply_operation ?rq c e = (d, ?c2, e')" "rd_result d = Accepted"
    by (simp_all add: apply_operation_def request_for_def)
  have new: "co_tombstone_count ?c2 = co_tombstone_count c + 1" "co_state ?c2 = Online"
    "co_generation_high_water ?c2 = co_generation_high_water c + 1"
    "co_identity_high_water ?c2 = co_identity_high_water c + 1" "co_epoch ?c2 = ?ne"
    using ts by (simp_all add: replace_identity_def install_def append_tombstone_def
        reserve_tombstone_def)
  obtain c' where "submit k Op_Reset c e = (Accepted, c', e')" "co_state c' = co_state ?c2"
    "room q g t p (k + 1) c'"
    using submit_accepted [OF assms(1) _ op, of t g p] new hw ep1 ts1 assms(1)
    by (auto simp: is_valid_operation_def room_def)
  then show thesis using that new(2) by simp
qed

lemma submit_remove:
  assumes "room (Suc q) g (Suc t) (Suc p) k c" and "co_state c = Online"
  obtains c' e' where "submit k Op_Remove c e = (Accepted, c', e')" "co_state c' = Absent"
    "room q g t p (k + 1) c'"
proof -
  let ?rq = "request_for k Op_Remove c"
  let ?ne = "co_epoch c + 1"
  let ?c2 = "settle_absent ?ne c"
  obtain ep: "reserve_epoch c = Some ?ne" and ep1: "unat ?ne = unat (co_epoch c) + 1"
    using room_reserve_epoch [OF assms(1)] by blast
  obtain ts: "reserve_tombstone c"
    and ts1: "unat (co_tombstone_count c + 1) = unat (co_tombstone_count c) + 1"
    using room_reserve_tombstone [OF assms(1)] by blast
  have inv: "authority_inv (terminals_of c) (authority_of c)" "quiet c"
    using assms(1) by (simp_all add: room_def coordinator_inv_def)
  have "co_generation c \<noteq> 0" using inv(1) assms(2) by (auto simp: authority_inv_def authority_of_def)
  moreover have "rq_deadline_tick ?rq = 0" by (simp add: request_for_def)
  ultimately obtain d e' where "apply_remove ?rq c e = (d, ?c2, e')" "rd_result d = Accepted"
    using apply_remove_quiet [OF inv(2) _ _ _ ts ep, of ?rq e] assms(2) by blast
  then have op: "apply_operation ?rq c e = (d, ?c2, e')" "rd_result d = Accepted"
    by (simp_all add: apply_operation_def request_for_def)
  have new: "co_tombstone_count ?c2 = co_tombstone_count c + 1" "co_state ?c2 = Absent"
    "co_generation_high_water ?c2 = co_generation_high_water c"
    "co_identity_high_water ?c2 = co_identity_high_water c" "co_epoch ?c2 = ?ne"
    using ts by (simp_all add: settle_absent_def append_tombstone_def reserve_tombstone_def)
  obtain c' where "submit k Op_Remove c e = (Accepted, c', e')" "co_state c' = co_state ?c2"
    "room q g t p (k + 1) c'"
    using submit_accepted [OF assms(1) _ op, of t g p] new ep1 ts1 assms(1)
    by (auto simp: is_valid_operation_def room_def)
  then show thesis using that new(2) by simp
qed

lemma submit_add:
  assumes "room (Suc q) (Suc g) t p k c" and "co_state c = Absent"
  obtains c' e' where "submit k Op_Add c e = (Accepted, c', e')" "co_state c' = Online"
    "room q g t p (k + 1) c'"
proof -
  let ?rq = "request_for k Op_Add c"
  let ?c1 = "c\<lparr>co_generation_high_water := co_generation_high_water c + 1,
      co_identity_high_water := co_identity_high_water c + 1\<rparr>"
  let ?cd = "\<lparr>cd_generation = co_generation_high_water c + 1,
      cd_identity_record_id = co_identity_high_water c + 1, cd_epoch = co_epoch c\<rparr>"
  let ?c2 = "install ?cd Online ?c1"
  obtain cand: "reserve_candidate c = Some (?cd, ?c1)"
    and hw: "unat (co_generation_high_water c + 1) = unat (co_generation_high_water c) + 1"
      "unat (co_identity_high_water c + 1) = unat (co_identity_high_water c) + 1"
    using room_reserve_candidate [OF assms(1)] by blast
  have inv: "authority_inv (terminals_of c) (authority_of c)" "quiet c"
    using assms(1) by (simp_all add: room_def coordinator_inv_def)
  have "co_generation c = 0" "co_identity_record_id c = 0"
    using inv(1) assms(2) by (auto simp: authority_inv_def authority_of_def)
  moreover have "rq_deadline_tick ?rq = 0" by (simp add: request_for_def)
  ultimately obtain d e' where "apply_add ?rq c e = (d, ?c2, e')" "rd_result d = Accepted"
    using apply_add_quiet [OF inv(2) _ assms(2) _ _ cand, of ?rq e] by blast
  then have op: "apply_operation ?rq c e = (d, ?c2, e')" "rd_result d = Accepted"
    by (simp_all add: apply_operation_def request_for_def)
  have new: "co_tombstone_count ?c2 = co_tombstone_count c" "co_state ?c2 = Online"
    "co_generation_high_water ?c2 = co_generation_high_water c + 1"
    "co_identity_high_water ?c2 = co_identity_high_water c + 1" "co_epoch ?c2 = co_epoch c"
    by (simp_all add: install_def)
  obtain c' where "submit k Op_Add c e = (Accepted, c', e')" "co_state c' = co_state ?c2"
    "room q g t p (k + 1) c'"
    using submit_accepted [OF assms(1) _ op, of t g p] new hw assms(1)
    by (auto simp: is_valid_operation_def room_def)
  then show thesis using that new(2) by simp
qed

section \<open>Cycles\<close>

text \<open>A reset, a removal and an addition, \<open>n\<close> times over; the results in order.\<close>

fun run_cycles ::
    "nat \<Rightarrow> u64 \<Rightarrow> 'e coordinator \<Rightarrow> 'e \<Rightarrow> lifecycle_result list \<times> 'e coordinator \<times> 'e" where
  "run_cycles 0 k c e = ([], c, e)"
| "run_cycles (Suc n) k c e =
    (let (r1, c1, e1) = submit k Op_Reset c e;
         (r2, c2, e2) = submit (k + 1) Op_Remove c1 e1;
         (r3, c3, e3) = submit (k + 2) Op_Add c2 e2;
         (rs, c4, e4) = run_cycles n (k + 3) c3 e3
     in (r1 # r2 # r3 # rs, c4, e4))"

lemma run_cycles_accepted:
  assumes "room (3 * n) (2 * n) (2 * n) (2 * n) k c" and "co_state c = Online"
  shows "\<exists>c' e'. run_cycles n k c e = (replicate (3 * n) Accepted, c', e') \<and> co_state c' = Online"
  using assms
proof (induction n arbitrary: k c e)
  case (Suc n)
  let ?g = "2 * n"
  have n: "3 * Suc n = Suc (Suc (Suc (3 * n)))" "2 * Suc n = Suc (Suc ?g)" by simp_all
  obtain c1 e1 where 1: "submit k Op_Reset c e = (Accepted, c1, e1)" "co_state c1 = Online"
    "room (Suc (Suc (3 * n))) (Suc ?g) (Suc ?g) (Suc ?g) (k + 1) c1"
    using submit_reset [OF Suc.prems(1) [unfolded n] Suc.prems(2)] by blast
  obtain c2 e2 where 2: "submit (k + 1) Op_Remove c1 e1 = (Accepted, c2, e2)"
    "co_state c2 = Absent" "room (Suc (3 * n)) (Suc ?g) ?g ?g (k + 1 + 1) c2"
    using submit_remove [OF 1(3,2)] by blast
  obtain c3 e3 where 3: "submit (k + 1 + 1) Op_Add c2 e2 = (Accepted, c3, e3)"
    "co_state c3 = Online" "room (3 * n) ?g ?g ?g (k + 1 + 1 + 1) c3"
    using submit_add [OF 2(3,2)] by blast
  have k: "k + 1 + 1 = k + 2" "k + 2 + 1 = k + 3" by simp_all
  obtain c' e' where r: "run_cycles n (k + 3) c3 e3 = (replicate (3 * n) Accepted, c', e')"
    "co_state c' = Online" using Suc.IH [OF 3(3,2), of e3] unfolding k by blast
  have "submit (k + 2) Op_Add c2 e2 = (Accepted, c3, e3)" using 3(1) unfolding k .
  with 1(1) 2(1) r(1) have "run_cycles (Suc n) k c e =
      (Accepted # Accepted # Accepted # replicate (3 * n) Accepted, c', e')" by simp
  then show ?case using r(2) unfolding n by (metis replicate_Suc)
qed simp

section \<open>A new coordinator has room\<close>

lemma new_coordinator_room:
  assumes "co_valid (new_coordinator cf)" and "q \<le> kRequestCapacity" and "t \<le> kTombstoneCapacity"
    and "unat (cf_initial_generation cf) + g < unat (cf_generation_terminal cf)"
    and "unat (cf_initial_identity_record_id cf) + g < unat (cf_identity_record_terminal cf)"
    and "unat (cf_initial_epoch cf) + p < unat (cf_epoch_terminal cf)"
  shows "room q g t p 1 (new_coordinator cf)"
proof -
  let ?c = "new_coordinator cf"
  have f: "co_requests ?c = replicate kRequestCapacity empty_request_record"
    "live_mirrors ?c = []" "co_config ?c = cf" "co_tombstone_count ?c = 0"
    "co_generation_high_water ?c = cf_initial_generation cf" "co_epoch ?c = cf_initial_epoch cf"
    "co_identity_high_water ?c = cf_initial_identity_record_id cf"
    by (simp_all add: new_coordinator_def Let_def live_mirrors_def)
  have "used_requests ?c = 0" "ids_below 1 ?c"
    by (simp_all add: used_requests_def ids_below_def f empty_request_record_def
        filter_replicate list_all_iff)
  then show ?thesis
    using assms new_coordinator_inv [OF assms(1)]
    by (simp add: room_def f quiet_def kRequestCapacity_def)
qed

lemma register_mirror_keeps:
  "co_requests (snd (register_mirror m c)) = co_requests c"
  "co_config (snd (register_mirror m c)) = co_config c"
  "co_state (snd (register_mirror m c)) = co_state c"
  "co_epoch (snd (register_mirror m c)) = co_epoch c"
  "co_tombstone_count (snd (register_mirror m c)) = co_tombstone_count c"
  "co_generation_high_water (snd (register_mirror m c)) = co_generation_high_water c"
  "co_identity_high_water (snd (register_mirror m c)) = co_identity_high_water c"
  by (simp_all add: register_mirror_def)

lemma register_room:
  assumes "room q g t p k c" and "accepting m"
  shows "room q g t p k (snd (register_mirror m c))"
proof -
  have inv: "coordinator_inv c" and q: "quiet c" using assms(1) by (simp_all add: room_def)
  have "coordinator_inv (snd (register_mirror m c))"
    using lifecycle_step_inv [of "(c, undefined)" "Register_Mirror m"] inv by simp
  moreover have "quiet (snd (register_mirror m c))"
  proof (cases "fst (register_mirror m c)")
    case True
    then show ?thesis
      using register_mirror_live(1) [of c m] inv q assms(2) by (simp add: coordinator_inv_def quiet_def)
  qed (use q register_mirror_cases [of m c] in \<open>auto\<close>)
  ultimately show ?thesis
    using assms(1)
    by (simp add: room_def used_requests_def ids_below_def register_mirror_keeps)
qed

lemma registered_room:
  assumes "room q g t p k c" and "list_all accepting ms"
  shows "room q g t p k (fst (run_ops lifecycle_step (map Register_Mirror ms) (c, e))) \<and>
    co_state (fst (run_ops lifecycle_step (map Register_Mirror ms) (c, e))) = co_state c"
  using assms
proof (induction ms arbitrary: c)
  case (Cons m ms)
  then show ?case using register_room [of q g t p k c m] by (simp add: register_mirror_keeps)
qed simp

end
