(* ===== verification/LifecycleIngress.thy ===== *)
theory LifecycleIngress
  imports LifecycleQuiet
begin

text \<open>
  The way external events reach the coordinator: the normalizer that turns an event into a
  request, and the producer ingress that numbers events and submits them. An event kind is the
  byte the source passes around, since the switches have a branch for a byte outside the
  enumeration.
\<close>

section \<open>Normalizer\<close>

abbreviation Ev_AdminAdd :: u8 where "Ev_AdminAdd \<equiv> 1"
abbreviation Ev_AdminRemove :: u8 where "Ev_AdminRemove \<equiv> 2"
abbreviation Ev_AdminReset :: u8 where "Ev_AdminReset \<equiv> 3"
abbreviation Ev_VfioUserReset :: u8 where "Ev_VfioUserReset \<equiv> 4"
abbreviation Ev_QmpAdd :: u8 where "Ev_QmpAdd \<equiv> 5"
abbreviation Ev_QmpRemove :: u8 where "Ev_QmpRemove \<equiv> 6"
abbreviation Ev_QmpFailure :: u8 where "Ev_QmpFailure \<equiv> 7"
abbreviation Ev_Disconnect :: u8 where "Ev_Disconnect \<equiv> 8"
abbreviation Ev_DaemonRestart :: u8 where "Ev_DaemonRestart \<equiv> 9"
abbreviation Ev_MemfdDisconnect :: u8 where "Ev_MemfdDisconnect \<equiv> 10"
abbreviation Ev_CdevDisconnect :: u8 where "Ev_CdevDisconnect \<equiv> 11"

datatype normalization_result = Norm_Accepted | Norm_Invalid | Norm_Unsupported

record external_event =
  ev_request_id :: u64
  ev_logical_device_id :: u64
  ev_daemon_incarnation :: u64
  ev_expected_identity_record_id :: u64
  ev_expected_generation :: u64
  ev_expected_epoch :: u64
  ev_deadline_tick :: u64
  ev_kind :: u8

record event_mapping =
  em_source :: u8
  em_operation :: u8
  em_add :: bool

definition mapping_for :: "u8 \<Rightarrow> event_mapping option" where
  "mapping_for kind =
    (if kind = Ev_AdminAdd then Some \<lparr>em_source = 1, em_operation = Op_Add, em_add = True\<rparr>
     else if kind = Ev_AdminRemove
     then Some \<lparr>em_source = 1, em_operation = Op_Remove, em_add = False\<rparr>
     else if kind = Ev_AdminReset
     then Some \<lparr>em_source = 1, em_operation = Op_Reset, em_add = False\<rparr>
     else if kind = Ev_VfioUserReset
     then Some \<lparr>em_source = 4, em_operation = Op_Reset, em_add = False\<rparr>
     else if kind = Ev_QmpAdd then Some \<lparr>em_source = 5, em_operation = Op_Add, em_add = True\<rparr>
     else if kind = Ev_QmpRemove
     then Some \<lparr>em_source = 5, em_operation = Op_Remove, em_add = False\<rparr>
     else if kind = Ev_QmpFailure
     then Some \<lparr>em_source = 5, em_operation = Op_TransportLoss, em_add = False\<rparr>
     else if kind = Ev_Disconnect
     then Some \<lparr>em_source = 6, em_operation = Op_TransportLoss, em_add = False\<rparr>
     else if kind = Ev_MemfdDisconnect
     then Some \<lparr>em_source = 2, em_operation = Op_TransportLoss, em_add = False\<rparr>
     else if kind = Ev_CdevDisconnect
     then Some \<lparr>em_source = 3, em_operation = Op_TransportLoss, em_add = False\<rparr>
     else if kind = Ev_DaemonRestart
     then Some \<lparr>em_source = 7, em_operation = Op_Recover, em_add = False\<rparr>
     else None)"

definition capture_external_event ::
    "u8 \<Rightarrow> u64 \<Rightarrow> snapshot_record \<Rightarrow> u64 \<Rightarrow> external_event" where
  "capture_external_event kind request_id sn deadline_tick =
    (let add = (kind = Ev_AdminAdd \<or> kind = Ev_QmpAdd) in
     \<lparr>ev_request_id = request_id, ev_logical_device_id = sn_logical_device_id sn,
      ev_daemon_incarnation = sn_daemon_incarnation sn,
      ev_expected_identity_record_id = (if add then 0 else sn_identity_record_id sn),
      ev_expected_generation = (if add then 0 else sn_generation sn),
      ev_expected_epoch = sn_epoch sn, ev_deadline_tick = deadline_tick, ev_kind = kind\<rparr>)"

definition normalize :: "external_event \<Rightarrow> normalization_result \<times> request" where
  "normalize ev =
    (case mapping_for (ev_kind ev) of
       None \<Rightarrow> (Norm_Unsupported, empty_request)
     | Some em \<Rightarrow>
         if ev_request_id ev = 0 \<or> ev_logical_device_id ev = 0 \<or> ev_daemon_incarnation ev = 0 \<or>
            ev_expected_epoch ev = 0 \<or>
            (em_add em \<and> (ev_expected_identity_record_id ev \<noteq> 0 \<or> ev_expected_generation ev \<noteq> 0)) \<or>
            (\<not> em_add em \<and> (ev_expected_identity_record_id ev = 0 \<or> ev_expected_generation ev = 0))
         then (Norm_Invalid, empty_request)
         else (Norm_Accepted,
               \<lparr>rq_request_id = ev_request_id ev, rq_logical_device_id = ev_logical_device_id ev,
                rq_daemon_incarnation = ev_daemon_incarnation ev,
                rq_expected_identity_record_id = ev_expected_identity_record_id ev,
                rq_expected_generation = ev_expected_generation ev,
                rq_expected_epoch = ev_expected_epoch ev, rq_deadline_tick = ev_deadline_tick ev,
                rq_source = em_source em, rq_operation = em_operation em\<rparr>))"

section \<open>Dispatch\<close>

definition is_immediate_producer_kind :: "u8 \<Rightarrow> bool" where
  "is_immediate_producer_kind kind \<longleftrightarrow>
     kind = Ev_AdminReset \<or> kind = Ev_VfioUserReset \<or> kind = Ev_Disconnect \<or>
     kind = Ev_MemfdDisconnect \<or> kind = Ev_CdevDisconnect \<or> kind = Ev_DaemonRestart"

text \<open>The details a rejected event is answered with: the default result, which is \<open>Invalid\<close>, and the
  current snapshot.\<close>

definition submit_external_event ::
    "external_event \<Rightarrow> 'e coordinator \<Rightarrow> 'e \<Rightarrow>
     normalization_result \<times> result_details \<times> 'e coordinator \<times> 'e" where
  "submit_external_event ev c e =
    (let (normalized, rq) = normalize ev in
     if normalized \<noteq> Norm_Accepted
     then (normalized, empty_details\<lparr>rd_result := Invalid, rd_snapshot := snapshot c\<rparr>, c, e)
     else (let (d, c', e') = apply_request rq c e in (normalized, d, c', e')))"

definition capture_and_submit_external_event ::
    "u8 \<Rightarrow> u64 \<Rightarrow> u64 \<Rightarrow> 'e coordinator \<Rightarrow> 'e \<Rightarrow>
     normalization_result \<times> result_details \<times> 'e coordinator \<times> 'e" where
  "capture_and_submit_external_event kind request_id deadline_tick c e =
    (if \<not> is_immediate_producer_kind kind
     then (Norm_Unsupported, empty_details\<lparr>rd_snapshot := snapshot c\<rparr>, c, e)
     else submit_external_event
            (capture_external_event kind request_id (snapshot c) deadline_tick) c e)"

text \<open>The ingress holds the next request id, zero when the ids are used up; its reference to the
  coordinator is the coordinator passed along.\<close>

record producer_ingress =
  pi_next_request_id :: u64

definition capture ::
    "u8 \<Rightarrow> u64 \<Rightarrow> 'e coordinator \<Rightarrow> producer_ingress \<Rightarrow> external_event \<times> producer_ingress" where
  "capture kind deadline_tick c p =
    (if pi_next_request_id p = 0
     then (capture_external_event kind 0 (snapshot c) deadline_tick, p)
     else
       (let request_id = pi_next_request_id p;
            p' = (if pi_next_request_id p \<noteq> - 1
                  then p\<lparr>pi_next_request_id := pi_next_request_id p + 1\<rparr>
                  else p\<lparr>pi_next_request_id := 0\<rparr>)
        in (capture_external_event kind request_id (snapshot c) deadline_tick, p')))"

definition submit_immediate ::
    "u8 \<Rightarrow> u64 \<Rightarrow> producer_ingress \<Rightarrow> 'e coordinator \<Rightarrow> 'e \<Rightarrow>
     normalization_result \<times> result_details \<times> producer_ingress \<times> 'e coordinator \<times> 'e" where
  "submit_immediate kind deadline_tick p c e =
    (if \<not> is_immediate_producer_kind kind \<or> pi_next_request_id p = 0
     then ((if pi_next_request_id p = 0 then Norm_Invalid else Norm_Unsupported),
           empty_details\<lparr>rd_snapshot := snapshot c\<rparr>, p, c, e)
     else (let (ev, p') = capture kind deadline_tick c p;
               (n, d, c', e') = submit_external_event ev c e
           in (n, d, p', c', e')))"

section \<open>Results of submitted events\<close>

lemma operation_results:
  "rd_result (refuse r c) = r" "rd_result (fill_details r tx c) = r"
  "failure tx \<notin> {Stale, Duplicate, Conflict}" "rd_result empty_details = Invalid"
  by (simp_all add: refuse_def fill_details_def failure_def empty_details_def)

lemma apply_operation_result:
  assumes "apply_operation rq c e = (d, c', e')"
  shows "rd_result d \<notin> {Stale, Duplicate, Conflict}"
proof -
  have "rd_result (fst (apply_add rq c e)) \<notin> {Stale, Duplicate, Conflict}"
    by (auto simp: apply_add_def Let_def operation_results [simplified] split: option.split prod.split)
  moreover have "rd_result (fst (apply_remove rq c e)) \<notin> {Stale, Duplicate, Conflict}"
    by (auto simp: apply_remove_def Let_def operation_results [simplified] split: option.split prod.split)
  moreover have "rd_result (fst (apply_reset_or_recover rq c e)) \<notin> {Stale, Duplicate, Conflict}"
    by (auto simp: apply_reset_or_recover_def Let_def operation_results [simplified]
        split: option.split prod.split)
  moreover have "rd_result (fst (apply_transport_loss rq c e)) \<notin> {Stale, Duplicate, Conflict}"
    by (simp add: apply_transport_loss_def Let_def operation_results)
  ultimately show ?thesis
    using assms by (auto simp: apply_operation_def operation_results split: if_splits)
qed

text \<open>A request whose tuple is the current one and whose id is new is never answered as stale,
  duplicate or conflicting.\<close>

lemma fresh_request_result:
  assumes "apply_request rq c e = (d, c', e')" and "find_request c (rq_request_id rq) = None"
    and "rq_daemon_incarnation rq = co_daemon_incarnation c"
    and "rq_expected_identity_record_id rq = co_identity_record_id c"
    and "rq_expected_generation rq = co_generation c" and "rq_expected_epoch rq = co_epoch c"
  shows "rd_result d \<notin> {Stale, Duplicate, Conflict}"
  using assms apply_operation_result [of rq c]
  unfolding apply_request_def Let_def
  by (auto simp: refuse_def split: if_splits prod.splits)

lemma capture_normalized:
  assumes "normalize (capture_external_event kind k (snapshot c) dl) = (Norm_Accepted, rq)"
    and "\<not> (kind = Ev_AdminAdd \<or> kind = Ev_QmpAdd)"
  shows "rq_request_id rq = k" "rq_daemon_incarnation rq = co_daemon_incarnation c"
    "rq_expected_identity_record_id rq = co_identity_record_id c"
    "rq_expected_generation rq = co_generation c" "rq_expected_epoch rq = co_epoch c" "k \<noteq> 0"
  using assms
  by (auto simp: normalize_def capture_external_event_def Let_def snapshot_def
      split: if_splits option.splits)

section \<open>The ingress as the only producer\<close>

definition ingress_inv :: "producer_ingress \<times> 'e coordinator \<times> 'e \<Rightarrow> bool" where
  "ingress_inv s \<longleftrightarrow>
     (let (p, c, e) = s in
      coordinator_inv c \<and> (pi_next_request_id p = 0 \<or> ids_below (pi_next_request_id p) c))"

fun ingress_step ::
    "u8 \<times> u64 \<Rightarrow> producer_ingress \<times> 'e coordinator \<times> 'e \<Rightarrow> producer_ingress \<times> 'e coordinator \<times> 'e" where
  "ingress_step (kind, dl) (p, c, e) = snd (snd (submit_immediate kind dl p c e))"

lemma ids_below_Suc:
  assumes "ids_below k c" and "k \<noteq> - 1"
  shows "k < k + 1" and "ids_below (k + 1) c"
proof -
  show less: "k < k + 1"
    using assms(2) word_less_Suc [of k "- 1"] by (simp add: word_order.not_eq_extremum)
  show "ids_below (k + 1) c"
    using assms(1) less by (fastforce simp: ids_below_def list_all_iff)
qed

lemma apply_request_ids:
  assumes "apply_request rq c e = (d, c', e')" and "ids_below k c" and "rq_request_id rq = k"
    and "k \<noteq> - 1"
  shows "ids_below (k + 1) c'"
proof -
  note less = ids_below_Suc [OF assms(2,4)]
  from assms(1) show ?thesis
  proof (cases rule: apply_request_cases)
    case refused
    then show ?thesis using less(2) by simp
  next
    case (dispatched c1 e1 e2)
    have r: "co_requests c1 = co_requests c"
      using apply_operation_frame [OF dispatched(4)] by (simp add: frame_def)
    have "free_request c1 \<noteq> None" "ids_below k c1"
      using dispatched(3) assms(2) by (simp_all add: free_request_def ids_below_def r)
    from remember_counts(2) [OF this assms(3) less(1)] show ?thesis by (simp add: dispatched(5))
  qed
qed

lemma submit_immediate_cases:
  assumes "submit_immediate kind dl p c e = (n, d, p', c', e')"
  obtains (rejected) "\<not> is_immediate_producer_kind kind \<or> pi_next_request_id p = 0"
      "p' = p" "c' = c" "e' = e" "rd_result d = Invalid"
      "n = (if pi_next_request_id p = 0 then Norm_Invalid else Norm_Unsupported)"
  | (unnormalized) "is_immediate_producer_kind kind" "pi_next_request_id p \<noteq> 0"
      "pi_next_request_id p' = pi_next_request_id p + 1" "c' = c" "e' = e" "rd_result d = Invalid"
  | (applied) rq where "is_immediate_producer_kind kind" "pi_next_request_id p \<noteq> 0"
      "pi_next_request_id p' = pi_next_request_id p + 1"
      "normalize (capture_external_event kind (pi_next_request_id p) (snapshot c) dl) =
         (Norm_Accepted, rq)"
      "apply_request rq c e = (d, c', e')"
proof -
  have next_id: "pi_next_request_id (snd (capture kind dl c p)) = pi_next_request_id p + 1"
    if "pi_next_request_id p \<noteq> 0" using that by (simp add: capture_def)
  show thesis
    using assms next_id rejected unnormalized applied
    unfolding submit_immediate_def submit_external_event_def Let_def
    by (auto simp: capture_def empty_details_def split: if_splits prod.splits)
qed

lemma immediate_not_add: "is_immediate_producer_kind kind \<Longrightarrow> \<not> (kind = Ev_AdminAdd \<or> kind = Ev_QmpAdd)"
  by (auto simp: is_immediate_producer_kind_def)

lemma ingress_step_inv: "ingress_inv s \<Longrightarrow> ingress_inv (ingress_step x s)"
proof -
  assume a: "ingress_inv s"
  obtain kind dl p c e where x: "x = (kind, dl)" "s = (p, c, e)" by (cases x, cases s) auto
  obtain n d p' c' e' where r: "submit_immediate kind dl p c e = (n, d, p', c', e')"
    by (cases "submit_immediate kind dl p c e")
  let ?k = "pi_next_request_id p"
  have inv: "coordinator_inv c" and ids: "?k = 0 \<or> ids_below ?k c"
    using a by (simp_all add: ingress_inv_def x)
  from r have "coordinator_inv c' \<and> (pi_next_request_id p' = 0 \<or> ids_below (pi_next_request_id p') c')"
  proof (cases rule: submit_immediate_cases)
    case unnormalized
    then show ?thesis using inv ids ids_below_Suc(2) [of ?k c] by (cases "?k = - 1") auto
  next
    case (applied rq)
    have "rq_request_id rq = ?k"
      by (rule capture_normalized(1) [OF applied(4) immediate_not_add [OF applied(1)]])
    then show ?thesis
      using apply_request_inv [OF inv applied(5)] apply_request_ids [OF applied(5)] ids applied(2,3)
      by (cases "?k = - 1") auto
  qed (use inv ids in auto)
  then show "ingress_inv (ingress_step x s)" by (simp add: ingress_inv_def x r)
qed

interpretation ingress_safe: invariant_component ingress_step ingress_inv
  by unfold_locales (rule ingress_step_inv)

section \<open>What the ingress promises\<close>

text \<open>An event captured from a coordinator and submitted to it unchanged is a valid request:
  for every known event kind that fits the state of the device (an addition when it is absent, any
  other when it is not), a nonzero request id and no deadline, normalization accepts the captured
  event and the coordinator's own validation accepts the request.\<close>

lemma captured_event_is_valid:
  assumes "coordinator_inv c" and "mapping_for kind = Some em"
    and "em_add em \<longleftrightarrow> co_state c = Absent" and "k \<noteq> 0"
  shows "\<exists>rq. normalize (capture_external_event kind k (snapshot c) 0) = (Norm_Accepted, rq) \<and>
    rq_operation rq = em_operation em \<and> valid_request c rq e = (True, e)"
proof -
  have "em_add em \<longleftrightarrow> kind = Ev_AdminAdd \<or> kind = Ev_QmpAdd"
    "is_valid_source (em_source em)" "is_valid_operation (em_operation em)"
    using assms(2) by (auto simp: mapping_for_def is_valid_source_def is_valid_operation_def
        split: if_splits)
  moreover have "co_logical_device_id c \<noteq> 0" "co_daemon_incarnation c \<noteq> 0" "co_epoch c \<noteq> 0"
    "co_state c = Absent \<longleftrightarrow> co_generation c = 0" "co_generation c = 0 \<longleftrightarrow> co_identity_record_id c = 0"
    using assms(1) by (auto simp: coordinator_inv_def authority_inv_def)
  ultimately show ?thesis
    using assms(2-4)
    by (auto simp: normalize_def capture_external_event_def Let_def snapshot_def valid_request_def
        past_deadline_def)
qed

definition demo_authority :: "unit coordinator" where
  "demo_authority = new_coordinator default_config"

lemma demo_authority_inv: "coordinator_inv demo_authority" "co_state demo_authority = Online"
proof -
  have "(1 :: u64) < - 1" by code_simp
  then have "co_valid demo_authority" "co_state demo_authority = Online"
    by (simp_all add: demo_authority_def new_coordinator_def default_config_def Let_def)
  then show "coordinator_inv demo_authority" "co_state demo_authority = Online"
    by (simp_all add: demo_authority_def new_coordinator_inv)
qed

text \<open>C29. A coordinator fed only by one ingress never answers an event as stale, duplicate or
  conflicting, however many events went before and whatever the mirrors answered: every event
  carries the current authority tuple and a request id never used before. Once the ids are used
  up, every further event is rejected without touching the coordinator.\<close>

theorem ingress_events_are_fresh:
  assumes "ingress_inv (p, c, e)" and "run_ops ingress_step evs (p, c, e) = (p', c', e')"
    and "submit_immediate kind dl p' c' e' = (n, d, p'', c'', e'')"
  shows "rd_result d \<notin> {Stale, Duplicate, Conflict} \<and>
    (pi_next_request_id p' = 0 \<longrightarrow> n = Norm_Invalid \<and> p'' = p' \<and> c'' = c' \<and> e'' = e') \<and>
    (is_immediate_producer_kind kind \<and> pi_next_request_id p' \<noteq> 0 \<longrightarrow>
      pi_next_request_id p'' = pi_next_request_id p' + 1)"
proof -
  have inv: "ingress_inv (p', c', e')"
    using ingress_safe.run_inv [OF assms(1), of evs] assms(2) by simp
  from assms(3) show ?thesis
  proof (cases rule: submit_immediate_cases)
    case (applied rq)
    note t = capture_normalized [OF applied(4) immediate_not_add [OF applied(1)]]
    have "ids_below (pi_next_request_id p') c'"
      using inv applied(2) by (simp add: ingress_inv_def)
    from ids_below_find [OF this] have "find_request c' (rq_request_id rq) = None" by (simp add: t)
    from fresh_request_result [OF applied(5) this t(2-5)] show ?thesis using applied by simp
  qed auto
qed

theorem ingress_events_are_fresh_witness:
  "rd_result (fst (snd (submit_immediate Ev_Disconnect 0 \<lparr>pi_next_request_id = 1\<rparr>
     demo_authority ()))) \<notin> {Stale, Duplicate, Conflict}"
proof -
  let ?p = "\<lparr>pi_next_request_id = 1\<rparr> :: producer_ingress"
  let ?r = "submit_immediate Ev_Disconnect 0 ?p demo_authority ()"
  have "ids_below 1 demo_authority"
    by (simp add: ids_below_def demo_authority_def new_coordinator_def Let_def
        empty_request_record_def list_all_iff)
  then have "ingress_inv (?p, demo_authority, ())"
    by (simp add: ingress_inv_def demo_authority_inv)
  moreover have "?r = (fst ?r, fst (snd ?r), fst (snd (snd ?r)), fst (snd (snd (snd ?r))),
      snd (snd (snd (snd ?r))))" by (simp only: prod.collapse)
  ultimately show ?thesis
    using ingress_events_are_fresh [of ?p demo_authority "()" "[]" ?p demo_authority "()"] by auto
qed

end
