(* ===== verification/Msix.thy ===== *)
theory Msix
  imports Prelude
begin

text \<open>
  The notification ledger of the two MSI-X vectors: vector 0 carries admin and fatal events,
  vector 1 completions. The host's injection callback is a function on an environment of any
  type, so that "the callback was invoked" is visible as a use of that function.
\<close>

section \<open>State\<close>

datatype msix_status =
  Msix_success | Msix_invalid_argument | Msix_stale_generation | Msix_device_lost | Msix_masked
  | Msix_disarmed | Msix_injection_failed | Msix_no_pending | Msix_already_armed

record msix_vector_state =
  mv_masked :: bool
  mv_armed :: bool
  mv_pending :: bool
  mv_armed_timeline :: u64
  mv_pending_timeline :: u64
  mv_last_delivered_timeline :: u64
  mv_delivered_count :: u64

type_synonym 'e msix_inject = "u64 \<Rightarrow> u32 \<Rightarrow> 'e \<Rightarrow> bool \<times> 'e"

record 'e msix_ledger =
  ml_generation :: u64
  ml_inject :: "'e msix_inject option"
  ml_context :: u64
  ml_online :: bool
  ml_vectors :: "msix_vector_state list"

definition empty_vector :: msix_vector_state where
  "empty_vector = \<lparr>mv_masked = False, mv_armed = False, mv_pending = False, mv_armed_timeline = 0,
     mv_pending_timeline = 0, mv_last_delivered_timeline = 0, mv_delivered_count = 0\<rparr>"

abbreviation kVectorCount :: u32 where "kVectorCount \<equiv> 2"
abbreviation kAdminVector :: u32 where "kAdminVector \<equiv> 0"
abbreviation kCompletionVector :: u32 where "kCompletionVector \<equiv> 1"

definition empty_ledger :: "'e msix_ledger" where
  "empty_ledger = \<lparr>ml_generation = 0, ml_inject = None, ml_context = 0, ml_online = False,
     ml_vectors = replicate 2 empty_vector\<rparr>"

abbreviation vector_at :: "'e msix_ledger \<Rightarrow> u32 \<Rightarrow> msix_vector_state" where
  "vector_at l v \<equiv> ml_vectors l ! unat v"

definition set_vector :: "u32 \<Rightarrow> msix_vector_state \<Rightarrow> 'e msix_ledger \<Rightarrow> 'e msix_ledger" where
  "set_vector v st l = l\<lparr>ml_vectors := (ml_vectors l)[unat v := st]\<rparr>"

section \<open>Operations\<close>

definition msix_configure ::
    "u64 \<Rightarrow> 'e msix_inject option \<Rightarrow> u64 \<Rightarrow> 'e msix_ledger \<Rightarrow> msix_status \<times> 'e msix_ledger" where
  "msix_configure generation inject context l =
    (if generation = 0 then (Msix_invalid_argument, l)
     else (Msix_success,
           l\<lparr>ml_generation := generation, ml_inject := inject, ml_context := context,
             ml_online := True, ml_vectors := replicate 2 empty_vector\<rparr>))"

definition msix_check :: "u64 \<Rightarrow> u32 \<Rightarrow> 'e msix_ledger \<Rightarrow> msix_status" where
  "msix_check generation v l =
    (if v \<ge> kVectorCount \<or> generation = 0 then Msix_invalid_argument
     else if generation \<noteq> ml_generation l then Msix_stale_generation
     else if ml_online l then Msix_success else Msix_device_lost)"

text \<open>The vector after a successful injection.\<close>

definition delivered :: "u32 \<Rightarrow> msix_vector_state \<Rightarrow> msix_vector_state" where
  "delivered v st =
    (let st1 = st\<lparr>mv_last_delivered_timeline :=
           max (mv_last_delivered_timeline st) (mv_pending_timeline st)\<rparr>;
         st2 = (if mv_delivered_count st1 \<noteq> - 1
                then st1\<lparr>mv_delivered_count := mv_delivered_count st1 + 1\<rparr> else st1);
         st3 = st2\<lparr>mv_pending := False, mv_pending_timeline := 0\<rparr>
     in if v = kCompletionVector then st3\<lparr>mv_armed := False, mv_armed_timeline := 0\<rparr> else st3)"

definition deliver :: "u32 \<Rightarrow> 'e msix_ledger \<Rightarrow> 'e \<Rightarrow> msix_status \<times> 'e msix_ledger \<times> 'e" where
  "deliver v l e =
    (let st = vector_at l v in
     if \<not> mv_pending st then (Msix_no_pending, l, e)
     else if mv_masked st then (Msix_masked, l, e)
     else case ml_inject l of
            None \<Rightarrow> (Msix_injection_failed, l, e)
          | Some inject \<Rightarrow>
              (let (ok, e1) = inject (ml_context l) v e in
               if \<not> ok then (Msix_injection_failed, l, e1)
               else (Msix_success, set_vector v (delivered v st) l, e1)))"

definition set_mask ::
    "u64 \<Rightarrow> u32 \<Rightarrow> bool \<Rightarrow> 'e msix_ledger \<Rightarrow> 'e \<Rightarrow> msix_status \<times> 'e msix_ledger \<times> 'e" where
  "set_mask generation v masked l e =
    (let status = msix_check generation v l in
     if status \<noteq> Msix_success then (status, l, e)
     else
       (let l1 = set_vector v ((vector_at l v)\<lparr>mv_masked := masked\<rparr>) l in
        if masked \<or> \<not> mv_pending (vector_at l1 v) then (Msix_success, l1, e)
        else deliver v l1 e))"

definition arm_completion :: "u64 \<Rightarrow> u64 \<Rightarrow> 'e msix_ledger \<Rightarrow> msix_status \<times> 'e msix_ledger" where
  "arm_completion generation timeline l =
    (let status = msix_check generation kCompletionVector l in
     if status \<noteq> Msix_success \<or> timeline = 0
     then (if status = Msix_success then Msix_invalid_argument else status, l)
     else
       (let st = vector_at l kCompletionVector in
        if timeline \<le> mv_last_delivered_timeline st \<or>
           (mv_armed st \<and> timeline \<le> mv_armed_timeline st)
        then (Msix_already_armed, l)
        else (Msix_success, set_vector kCompletionVector
                (st\<lparr>mv_armed := True, mv_armed_timeline := timeline\<rparr>) l)))"

definition msix_notify ::
    "u64 \<Rightarrow> u32 \<Rightarrow> u64 \<Rightarrow> 'e msix_ledger \<Rightarrow> 'e \<Rightarrow> msix_status \<times> 'e msix_ledger \<times> 'e" where
  "msix_notify generation v timeline l e =
    (let status = msix_check generation v l in
     if status \<noteq> Msix_success \<or> timeline = 0
     then (if status = Msix_success then Msix_invalid_argument else status, l, e)
     else
       (let st = vector_at l v in
        if v = kCompletionVector \<and> (\<not> mv_armed st \<or> timeline < mv_armed_timeline st)
        then (Msix_disarmed, l, e)
        else
          (let st1 = st\<lparr>mv_pending := True,
                 mv_pending_timeline := max (mv_pending_timeline st) timeline\<rparr>;
               l1 = set_vector v st1 l in
           if mv_masked st1 then (Msix_masked, l1, e) else deliver v l1 e)))"

definition retry_pending ::
    "u64 \<Rightarrow> u32 \<Rightarrow> 'e msix_ledger \<Rightarrow> 'e \<Rightarrow> msix_status \<times> 'e msix_ledger \<times> 'e" where
  "retry_pending generation v l e =
    (let status = msix_check generation v l in
     if status \<noteq> Msix_success then (status, l, e)
     else if mv_pending (vector_at l v) then deliver v l e else (Msix_no_pending, l, e))"

definition msix_mark_lost :: "u64 \<Rightarrow> 'e msix_ledger \<Rightarrow> msix_status \<times> 'e msix_ledger" where
  "msix_mark_lost generation l =
    (if generation = 0 then (Msix_invalid_argument, l)
     else if generation \<noteq> ml_generation l then (Msix_stale_generation, l)
     else (Msix_success, l\<lparr>ml_online := False\<rparr>))"

text \<open>The output pointer is an option: \<open>None\<close> when it is null or nothing is written.\<close>

definition msix_snapshot ::
    "u64 \<Rightarrow> u32 \<Rightarrow> bool \<Rightarrow> 'e msix_ledger \<Rightarrow> msix_status \<times> msix_vector_state option" where
  "msix_snapshot generation v has_out l =
    (if \<not> has_out then (Msix_invalid_argument, None)
     else
       (let status = msix_check generation v l in
        if status \<noteq> Msix_success then (status, None) else (Msix_success, Some (vector_at l v))))"

fun msix_status_string :: "msix_status \<Rightarrow> string" where
  "msix_status_string Msix_success = ''success''"
| "msix_status_string Msix_invalid_argument = ''invalid-argument''"
| "msix_status_string Msix_stale_generation = ''stale-generation''"
| "msix_status_string Msix_device_lost = ''device-lost''"
| "msix_status_string Msix_masked = ''masked''"
| "msix_status_string Msix_disarmed = ''disarmed''"
| "msix_status_string Msix_injection_failed = ''injection-failed''"
| "msix_status_string Msix_no_pending = ''no-pending''"
| "msix_status_string Msix_already_armed = ''already-armed''"

datatype 'e msix_op =
  Configure u64 "'e msix_inject option" u64 | Set_Mask u64 u32 bool | Arm_Completion u64 u64
  | Notify u64 u32 u64 | Retry_Pending u64 u32 | Mark_Lost u64

fun msix_call :: "'e msix_op \<Rightarrow> 'e msix_ledger \<times> 'e \<Rightarrow> msix_status \<times> 'e msix_ledger \<times> 'e" where
  "msix_call (Configure g f x) (l, e) = (let (r, l') = msix_configure g f x l in (r, l', e))"
| "msix_call (Set_Mask g v m) (l, e) = set_mask g v m l e"
| "msix_call (Arm_Completion g t) (l, e) = (let (r, l') = arm_completion g t l in (r, l', e))"
| "msix_call (Notify g v t) (l, e) = msix_notify g v t l e"
| "msix_call (Retry_Pending g v) (l, e) = retry_pending g v l e"
| "msix_call (Mark_Lost g) (l, e) = (let (r, l') = msix_mark_lost g l in (r, l', e))"

definition msix_step :: "'e msix_op \<Rightarrow> 'e msix_ledger \<times> 'e \<Rightarrow> 'e msix_ledger \<times> 'e" where
  "msix_step x s = snd (msix_call x s)"

section \<open>Invariant\<close>

text \<open>A pending completion is armed and newer than everything delivered before; an armed
  timeline is newer than everything delivered; nothing is pending at timeline zero.\<close>

definition vector_ok :: "msix_vector_state \<Rightarrow> bool" where
  "vector_ok st \<longleftrightarrow> (if mv_pending st then 0 < mv_pending_timeline st else mv_pending_timeline st = 0)"

definition completion_ok :: "msix_vector_state \<Rightarrow> bool" where
  "completion_ok st \<longleftrightarrow>
     (mv_pending st \<longrightarrow> mv_armed st \<and> mv_last_delivered_timeline st < mv_pending_timeline st) \<and>
     (mv_armed st \<longrightarrow> mv_last_delivered_timeline st < mv_armed_timeline st)"

definition msix_inv :: "'e msix_ledger \<Rightarrow> bool" where
  "msix_inv l \<longleftrightarrow> length (ml_vectors l) = 2 \<and> vector_ok (ml_vectors l ! 0) \<and>
     vector_ok (ml_vectors l ! 1) \<and> completion_ok (ml_vectors l ! 1)"

lemma msix_check_success:
  assumes "msix_check g v l = Msix_success"
  shows "v = 0 \<or> v = 1" and "ml_online l" and "g = ml_generation l" and "g \<noteq> 0"
proof -
  have "v < 2" using assms by (simp add: msix_check_def not_le split: if_splits)
  then have "unat v < 2" by (simp add: word_less_nat_alt)
  then have "unat v = 0 \<or> unat v = 1" by linarith
  then show "v = 0 \<or> v = 1" by (metis unat_0 unat_1 word_unat_eq_iff)
qed (use assms in \<open>auto simp: msix_check_def split: if_splits\<close>)

lemma delivered_simps [simp]:
  "mv_masked (delivered v st) = mv_masked st" "\<not> mv_pending (delivered v st)"
  "mv_pending_timeline (delivered v st) = 0"
  "mv_last_delivered_timeline (delivered v st) =
     max (mv_last_delivered_timeline st) (mv_pending_timeline st)"
  "mv_armed (delivered v st) = (mv_armed st \<and> v \<noteq> kCompletionVector)"
  "mv_delivered_count (delivered v st) =
     (if mv_delivered_count st = - 1 then - 1 else mv_delivered_count st + 1)"
  by (simp_all add: delivered_def Let_def)

lemma deliver_cases:
  obtains (quiet) r where "deliver v l e = (r, l, e)" "r \<noteq> Msix_success"
      "\<not> mv_pending (vector_at l v) \<or> mv_masked (vector_at l v) \<or> ml_inject l = None"
  | (failed) f where "deliver v l e = (Msix_injection_failed, l, snd (f (ml_context l) v e))"
      "ml_inject l = Some f" "\<not> fst (f (ml_context l) v e)"
      "mv_pending (vector_at l v)" "\<not> mv_masked (vector_at l v)"
  | (sent) f where "deliver v l e =
        (Msix_success, set_vector v (delivered v (vector_at l v)) l, snd (f (ml_context l) v e))"
      "ml_inject l = Some f" "fst (f (ml_context l) v e)"
      "mv_pending (vector_at l v)" "\<not> mv_masked (vector_at l v)"
proof (cases "mv_pending (vector_at l v) \<and> \<not> mv_masked (vector_at l v)")
  case True
  then show thesis
  proof (cases "ml_inject l")
    case (Some f)
    have "deliver v l e = (if fst (f (ml_context l) v e)
        then (Msix_success, set_vector v (delivered v (vector_at l v)) l, snd (f (ml_context l) v e))
        else (Msix_injection_failed, l, snd (f (ml_context l) v e)))"
      using True Some by (auto simp: deliver_def Let_def case_prod_unfold)
    then show thesis using that True Some by (cases "fst (f (ml_context l) v e)") auto
  qed (use that True in \<open>simp add: deliver_def\<close>)
next
  case False
  then have "deliver v l e = (if mv_pending (vector_at l v) then Msix_masked else Msix_no_pending, l, e)"
    by (auto simp: deliver_def)
  then show thesis using quiet False by (cases "mv_pending (vector_at l v)") auto
qed

lemma deliver_inv:
  assumes "msix_inv l" and "v = 0 \<or> v = 1"
  shows "msix_inv (fst (snd (deliver v l e)))"
proof (cases rule: deliver_cases [of v l e])
  case (sent f)
  then show ?thesis
    using assms
    by (auto simp: msix_inv_def set_vector_def vector_ok_def completion_ok_def)
qed (use assms in auto)

lemma set_vector_inv:
  assumes "msix_inv l" and "v = 0 \<or> v = 1" and "vector_ok st" and "v = 1 \<Longrightarrow> completion_ok st"
  shows "msix_inv (set_vector v st l)"
  using assms by (auto simp: msix_inv_def set_vector_def)

lemma msix_inv_vector:
  assumes "msix_inv l" and "v = 0 \<or> v = 1"
  shows "vector_ok (vector_at l v)" and "v = 1 \<Longrightarrow> completion_ok (vector_at l v)"
    and "vector_at (set_vector v st l) v = st"
    and "w \<noteq> v \<Longrightarrow> w = 0 \<or> w = 1 \<Longrightarrow> vector_at (set_vector v st l) w = vector_at l w"
  using assms by (auto simp: msix_inv_def set_vector_def)

lemma msix_inv_frame [simp]:
  "msix_inv (l\<lparr>ml_online := b\<rparr>) = msix_inv l" by (simp add: msix_inv_def)

lemma set_mask_inv: "msix_inv l \<Longrightarrow> msix_inv (fst (snd (set_mask g v m l e)))"
proof (cases "msix_check g v l = Msix_success")
  case True
  note v = msix_check_success(1) [OF True]
  assume i: "msix_inv l"
  have "msix_inv (set_vector v ((vector_at l v)\<lparr>mv_masked := m\<rparr>) l)"
    by (rule set_vector_inv [OF i v])
      (use msix_inv_vector [OF i v] in \<open>auto simp: vector_ok_def completion_ok_def\<close>)
  then show ?thesis using True deliver_inv [OF _ v] unfolding set_mask_def Let_def by auto
qed (simp add: set_mask_def)

lemma arm_completion_inv: "msix_inv l \<Longrightarrow> msix_inv (snd (arm_completion g t l))"
  by (auto simp: arm_completion_def Let_def msix_inv_def set_vector_def vector_ok_def
      completion_ok_def not_le)

lemma notified_inv:
  assumes "msix_inv l" and "v = 0 \<or> v = 1" and "t \<noteq> 0"
    and "\<not> (v = kCompletionVector \<and> (\<not> mv_armed (vector_at l v) \<or> t < mv_armed_timeline (vector_at l v)))"
  shows "msix_inv (set_vector v ((vector_at l v)\<lparr>mv_pending := True,
    mv_pending_timeline := max (mv_pending_timeline (vector_at l v)) t\<rparr>) l)"
proof -
  have "0 < t" using assms(3) by (simp add: word_gt_0)
  then show ?thesis
    by (intro set_vector_inv [OF assms(1,2)])
      (use msix_inv_vector [OF assms(1,2)] assms(4) in
        \<open>auto simp: vector_ok_def completion_ok_def less_max_iff_disj\<close>)
qed

lemma msix_notify_inv: "msix_inv l \<Longrightarrow> msix_inv (fst (snd (msix_notify g v t l e)))"
proof (cases "msix_check g v l = Msix_success \<and> t \<noteq> 0 \<and>
    \<not> (v = kCompletionVector \<and> (\<not> mv_armed (vector_at l v) \<or> t < mv_armed_timeline (vector_at l v)))")
  case True
  then have v: "v = 0 \<or> v = 1" using msix_check_success(1) by blast
  assume "msix_inv l"
  from notified_inv [OF this v, of t] True show ?thesis
    using deliver_inv [OF _ v] by (auto simp: msix_notify_def Let_def)
qed (auto simp: msix_notify_def Let_def)

lemma msix_step_inv: "msix_inv (fst s) \<Longrightarrow> msix_inv (fst (msix_step x s))"
proof -
  assume i: "msix_inv (fst s)"
  obtain l e where s: "s = (l, e)" by (cases s)
  show ?thesis
  proof (cases x)
    case (Configure g f y)
    then show ?thesis using i
      by (auto simp: s msix_step_def msix_configure_def Let_def msix_inv_def empty_vector_def
          vector_ok_def completion_ok_def)
  next
    case (Retry_Pending g v)
    then show ?thesis using i deliver_inv [of l v e] msix_check_success(1) [of g v l]
      by (auto simp: s msix_step_def retry_pending_def Let_def)
  next
    case (Mark_Lost g)
    then show ?thesis using i by (simp add: s msix_step_def msix_mark_lost_def Let_def)
  qed (use i in \<open>simp_all add: s msix_step_def set_mask_inv arm_completion_inv msix_notify_inv
      case_prod_unfold Let_def\<close>)
qed

lemma empty_ledger_inv: "msix_inv empty_ledger"
  by (simp add: msix_inv_def empty_ledger_def empty_vector_def vector_ok_def completion_ok_def)

interpretation msix_safe: invariant_component msix_step "\<lambda>s. msix_inv (fst s)"
  by unfold_locales (rule msix_step_inv)

section \<open>Calls\<close>

text \<open>What a call leaves alone before it delivers: the arming and the delivery record.\<close>

definition same_record :: "'e msix_ledger \<Rightarrow> 'e msix_ledger \<Rightarrow> u32 \<Rightarrow> bool" where
  "same_record l l' v \<longleftrightarrow>
     mv_last_delivered_timeline (vector_at l' v) = mv_last_delivered_timeline (vector_at l v) \<and>
     mv_delivered_count (vector_at l' v) = mv_delivered_count (vector_at l v)"

definition before_delivery :: "'e msix_ledger \<Rightarrow> 'e msix_ledger \<Rightarrow> bool" where
  "before_delivery l l1 \<longleftrightarrow> msix_inv l1 \<and> ml_online l \<and> ml_inject l1 = ml_inject l \<and>
     ml_context l1 = ml_context l \<and>
     mv_armed (vector_at l1 1) = mv_armed (vector_at l 1) \<and>
     same_record l l1 0 \<and> same_record l l1 1"

definition configures :: "'e msix_op \<Rightarrow> bool" where
  "configures x \<longleftrightarrow> (\<exists>g f y. x = Configure g f y)"

lemma configures_simps [simp]:
  "configures (Configure g f y)" "\<not> configures (Set_Mask g v m)" "\<not> configures (Arm_Completion g t)"
  "\<not> configures (Notify g v t)" "\<not> configures (Retry_Pending g v)" "\<not> configures (Mark_Lost g)"
  by (simp_all add: configures_def)

lemma before_deliveryI:
  assumes "msix_inv l" and "msix_check g v l = Msix_success" and "msix_inv (set_vector v st l)"
    and "mv_armed st = mv_armed (vector_at l v)"
    and "mv_last_delivered_timeline st = mv_last_delivered_timeline (vector_at l v)"
    and "mv_delivered_count st = mv_delivered_count (vector_at l v)"
  shows "before_delivery l (set_vector v st l)"
  using assms msix_check_success [OF assms(2)]
  by (auto simp: before_delivery_def same_record_def set_vector_def msix_inv_def)

lemma set_vector_fields [simp]:
  "ml_inject (set_vector v st l) = ml_inject l" "ml_context (set_vector v st l) = ml_context l"
  "ml_online (set_vector v st l) = ml_online l" "ml_generation (set_vector v st l) = ml_generation l"
  by (simp_all add: set_vector_def)

lemma set_vector_same [simp]: "set_vector v (ml_vectors l ! unat v) l = l"
  by (simp add: set_vector_def)

lemma msix_call_cases:
  assumes "msix_inv l" and "msix_call x (l, e) = (r, l', e')" and "\<not> configures x"
  obtains (record_kept) "e' = e" "same_record l l' 0" "same_record l l' 1"
  | (delivers) v l1 where "v = 0 \<or> v = 1" "before_delivery l l1" "deliver v l1 e = (r, l', e')"
proof -
  have same: "same_record l l w" for w by (simp add: same_record_def)
  have kept: "same_record l (set_vector v st l) w"
    if "v = 0 \<or> v = 1" "w = 0 \<or> w = 1"
      "mv_last_delivered_timeline st = mv_last_delivered_timeline (vector_at l v)"
      "mv_delivered_count st = mv_delivered_count (vector_at l v)" for v w st
    using that assms(1) by (auto simp: same_record_def set_vector_def msix_inv_def)
  show thesis
  proof (cases x)
    case (Set_Mask g v m)
    let ?l1 = "set_vector v ((vector_at l v)\<lparr>mv_masked := m\<rparr>) l"
    show thesis
    proof (cases "msix_check g v l = Msix_success")
      case True
      note v = msix_check_success(1) [OF True]
      have "msix_inv ?l1"
        by (rule set_vector_inv [OF assms(1) v])
          (use msix_inv_vector [OF assms(1) v] in \<open>auto simp: vector_ok_def completion_ok_def\<close>)
      then have b: "before_delivery l ?l1" by (rule before_deliveryI [OF assms(1) True]) simp_all
      have "(e' = e \<and> l' = ?l1) \<or> deliver v ?l1 e = (r, l', e')"
        using assms(2) True by (auto simp: Set_Mask set_mask_def Let_def split: if_splits)
      then show thesis using that b v kept [OF v] by auto
    qed (use assms(2) that same in \<open>auto simp: Set_Mask set_mask_def\<close>)
  next
    case (Arm_Completion g t)
    then show thesis
      using assms(2) that same kept [of 1]
      by (auto simp: arm_completion_def Let_def split: if_splits)
  next
    case (Notify g v t)
    let ?st = "(vector_at l v)\<lparr>mv_pending := True,
      mv_pending_timeline := max (mv_pending_timeline (vector_at l v)) t\<rparr>"
    let ?l1 = "set_vector v ?st l"
    have "e' = e \<and> l' = l \<or>
        msix_check g v l = Msix_success \<and> t \<noteq> 0 \<and>
          \<not> (v = kCompletionVector \<and> (\<not> mv_armed (vector_at l v) \<or> t < mv_armed_timeline (vector_at l v))) \<and>
          (e' = e \<and> l' = ?l1 \<or> deliver v ?l1 e = (r, l', e'))"
      using assms(2) by (auto simp: Notify msix_notify_def Let_def split: if_splits)
    then show thesis
    proof (elim disjE conjE)
      assume "e' = e" "l' = l"
      then show thesis using that same by simp
    next
      assume ok: "msix_check g v l = Msix_success" "t \<noteq> 0"
        "\<not> (v = kCompletionVector \<and> (\<not> mv_armed (vector_at l v) \<or> t < mv_armed_timeline (vector_at l v)))"
      note v = msix_check_success(1) [OF ok(1)]
      assume "e' = e" "l' = ?l1"
      then show thesis using that(1) kept [OF v] by simp
    next
      assume ok: "msix_check g v l = Msix_success" "t \<noteq> 0"
        "\<not> (v = kCompletionVector \<and> (\<not> mv_armed (vector_at l v) \<or> t < mv_armed_timeline (vector_at l v)))"
      note v = msix_check_success(1) [OF ok(1)]
      have "msix_inv ?l1" by (rule notified_inv [OF assms(1) v ok(2,3)])
      then have "before_delivery l ?l1" by (rule before_deliveryI [OF assms(1) ok(1)]) simp_all
      moreover assume "deliver v ?l1 e = (r, l', e')"
      ultimately show thesis using that(2) v by blast
    qed
  next
    case (Retry_Pending g v)
    have "e' = e \<and> l' = l \<or> msix_check g v l = Msix_success \<and> deliver v l e = (r, l', e')"
      using assms(2) by (auto simp: Retry_Pending retry_pending_def Let_def split: if_splits)
    then show thesis
    proof (elim disjE conjE)
      assume ok: "msix_check g v l = Msix_success" and d: "deliver v l e = (r, l', e')"
      have "before_delivery l l"
        using before_deliveryI [OF assms(1) ok, of "vector_at l v"] assms(1) by simp
      then show thesis using that(2) msix_check_success(1) [OF ok] d by simp
    qed (use that(1) same in simp)
  next
    case (Mark_Lost g)
    then show thesis using assms(2) that
      by (auto simp: msix_mark_lost_def Let_def same_record_def split: if_splits)
  qed (use assms(3) in simp)
qed

section \<open>What the ledger promises\<close>

text \<open>C16. The host's injection callback is never invoked for a masked vector, for a disarmed
  completion vector or for a lost device: in every reachable ledger, a call either leaves the
  environment alone or invokes the callback exactly once, on a vector that is unmasked, while the
  device is online and, for the completion vector, armed.\<close>

theorem injection_only_when_allowed:
  assumes "run_ops msix_step ops (empty_ledger, e0) = (l, e)"
    and "msix_call x (l, e) = (r, l', e')"
  shows "e' = e \<or>
    (\<exists>v f. (v = kAdminVector \<or> v = kCompletionVector) \<and> ml_inject l = Some f \<and>
       e' = snd (f (ml_context l) v e) \<and> ml_online l \<and> \<not> mv_masked (vector_at l' v) \<and>
       (v = kCompletionVector \<longrightarrow> mv_armed (vector_at l v)))"
proof (cases "configures x")
  case True
  then show ?thesis
    using assms(2) by (auto simp: configures_def msix_configure_def Let_def split: if_splits)
next
  case False
  have inv: "msix_inv l"
    using msix_safe.run_inv [of "(empty_ledger, e0)" ops] assms(1) by (simp add: empty_ledger_inv)
  from inv assms(2) False show ?thesis
  proof (cases rule: msix_call_cases)
    case (delivers v l1)
    have p: "mv_pending (vector_at l1 1) \<longrightarrow> mv_armed (vector_at l 1)"
      using delivers(2) by (auto simp: before_delivery_def msix_inv_def completion_ok_def)
    have b: "ml_online l" "ml_inject l1 = ml_inject l" "ml_context l1 = ml_context l" "msix_inv l1"
      using delivers(2) by (simp_all add: before_delivery_def)
    have invoked: ?thesis if "ml_inject l1 = Some f" "e' = snd (f (ml_context l) v e)"
        "\<not> mv_masked (vector_at l' v)" "mv_pending (vector_at l1 v)" for f
      by (intro disjI2 exI [of _ v] exI [of _ f]) (use that b p delivers(1) in auto)
    show ?thesis
    proof (cases rule: deliver_cases [of v l1 e])
      case (quiet r')
      then show ?thesis using delivers(3) by simp
    next
      case (failed f)
      then have "e' = snd (f (ml_context l) v e)" "l' = l1" using delivers(3) b by simp_all
      then show ?thesis using invoked [of f] failed by simp
    next
      case (sent f)
      then have "e' = snd (f (ml_context l) v e)" "\<not> mv_masked (vector_at l' v)"
        using delivers(3) b msix_inv_vector(3) [OF b(4) delivers(1)] by auto
      then show ?thesis using invoked [of f] sent by simp
    qed
  qed simp
qed

text \<open>An injection callback that accepts and records the vector, for the examples.\<close>

definition demo_inject :: "u32 list msix_inject" where
  "demo_inject context v log = (True, v # log)"

definition demo_ledger :: "u32 list msix_ledger" where
  "demo_ledger = fst (run_ops msix_step
     [Configure 9 (Some demo_inject) 0, Arm_Completion 9 10] (empty_ledger, []))"

lemma two_vectors: "\<not> kVectorCount \<le> kCompletionVector" "replicate 2 x = [x, x]"
  by (code_simp, simp add: numeral_2_eq_2)

lemma demo_ledger_eq:
  "demo_ledger = \<lparr>ml_generation = 9, ml_inject = Some demo_inject, ml_context = 0, ml_online = True,
     ml_vectors = [empty_vector, empty_vector\<lparr>mv_armed := True, mv_armed_timeline := 10\<rparr>]\<rparr>"
  "run_ops msix_step [Configure 9 (Some demo_inject) 0, Arm_Completion 9 10] (empty_ledger, []) =
     (demo_ledger, [])"
  by (simp_all add: demo_ledger_def msix_step_def msix_configure_def arm_completion_def
      msix_check_def set_vector_def empty_ledger_def empty_vector_def Let_def two_vectors)

lemma demo_ledger_inv: "msix_inv demo_ledger"
  by (simp add: demo_ledger_eq msix_inv_def vector_ok_def completion_ok_def empty_vector_def)

lemma demo_notify: "msix_call (Notify 9 1 10) (demo_ledger, []) =
  (Msix_success, set_vector 1 (delivered 1 (empty_vector\<lparr>mv_armed := True, mv_armed_timeline := 10,
     mv_pending := True, mv_pending_timeline := 10\<rparr>)) demo_ledger, [1])"
  by (simp add: demo_ledger_eq msix_notify_def msix_check_def deliver_def set_vector_def Let_def
      demo_inject_def empty_vector_def two_vectors)

theorem injection_only_when_allowed_witness:
  "\<exists>v f. (v = kAdminVector \<or> v = kCompletionVector) \<and> ml_inject demo_ledger = Some f \<and>
     [1] = snd (f (ml_context demo_ledger) v []) \<and>
     (v = kCompletionVector \<longrightarrow> mv_armed (vector_at demo_ledger v))"
  using injection_only_when_allowed [OF demo_ledger_eq(2) demo_notify] by auto

text \<open>C30. No completion is signalled twice. A call other than a reconfiguration either leaves the
  completion vector's delivery record alone, or it delivers: then the delivered timeline strictly
  increases, the delivery count goes up by one without wrapping, and the vector is disarmed with
  nothing pending, so the next completion interrupt needs a new arming.\<close>

theorem completion_delivered_once:
  assumes "run_ops msix_step ops (empty_ledger, e0) = (l, e)" and "\<not> configures x"
    and "msix_call x (l, e) = (r, l', e')"
  defines "c \<equiv> vector_at l kCompletionVector" and "c' \<equiv> vector_at l' kCompletionVector"
  shows "(mv_last_delivered_timeline c' = mv_last_delivered_timeline c \<and>
      mv_delivered_count c' = mv_delivered_count c) \<or>
    (mv_last_delivered_timeline c < mv_last_delivered_timeline c' \<and>
      mv_delivered_count c' = (if mv_delivered_count c = - 1 then - 1 else mv_delivered_count c + 1) \<and>
      mv_armed c \<and> \<not> mv_armed c' \<and> \<not> mv_pending c')"
proof -
  have inv: "msix_inv l"
    using msix_safe.run_inv [of "(empty_ledger, e0)" ops] assms(1) by (simp add: empty_ledger_inv)
  from inv assms(3,2) show ?thesis
  proof (cases rule: msix_call_cases)
    case record_kept
    then show ?thesis by (simp add: c_def c'_def same_record_def)
  next
    case (delivers v l1)
    have i: "msix_inv l1" and s: "same_record l l1 1"
      and a: "mv_armed (vector_at l1 1) = mv_armed (vector_at l 1)"
      using delivers(2) by (simp_all add: before_delivery_def)
    show ?thesis
    proof (cases rule: deliver_cases [of v l1 e])
      case (sent f)
      then have l': "l' = set_vector v (delivered v (vector_at l1 v)) l1" using delivers(3) by simp
      show ?thesis
      proof (cases "v = 1")
        case True
        have "completion_ok (vector_at l1 1)" using i by (simp add: msix_inv_def)
        moreover have "c' = delivered 1 (vector_at l1 1)"
          using msix_inv_vector(3) [OF i delivers(1)] True by (simp add: c'_def l')
        ultimately show ?thesis
          using sent(4) s a True by (auto simp: c_def completion_ok_def same_record_def)
      next
        case False
        then have "c' = vector_at l1 1"
          using msix_inv_vector(4) [OF i delivers(1), of 1] by (simp add: c'_def l')
        then show ?thesis using s by (simp add: c_def same_record_def)
      qed
    qed (use delivers(3) s in \<open>auto simp: c_def c'_def same_record_def\<close>)
  qed
qed

theorem completion_delivered_once_witness:
  "let c = vector_at demo_ledger kCompletionVector;
       c' = vector_at (fst (snd (msix_call (Notify 9 1 10) (demo_ledger, [])))) kCompletionVector
   in mv_last_delivered_timeline c < mv_last_delivered_timeline c' \<and> \<not> mv_armed c'"
  using completion_delivered_once [OF demo_ledger_eq(2) _ demo_notify]
  unfolding demo_notify Let_def
  by (simp add: demo_ledger_eq(1) set_vector_def empty_vector_def)

text \<open>A lost device is silent: once the ledger is offline, every sequence of calls without a
  reconfiguration leaves the ledger and the environment exactly as they are, and each of those
  calls reports an error (or, for a repeated loss report, success).\<close>

lemma lost_ledger_silent:
  assumes "\<not> ml_online l" and "list_all (\<lambda>x. \<not> configures x) ops"
  shows "run_ops msix_step ops (l, e) = (l, e) \<and>
    (\<forall>x \<in> set ops. fst (msix_call x (l, e)) \<in>
       {Msix_invalid_argument, Msix_stale_generation, Msix_device_lost} \<or> (\<exists>g. x = Mark_Lost g))"
proof -
  have one: "msix_step x (l, e) = (l, e) \<and> (fst (msix_call x (l, e)) \<in>
      {Msix_invalid_argument, Msix_stale_generation, Msix_device_lost} \<or> (\<exists>g. x = Mark_Lost g))"
    if "\<not> configures x" for x
  proof -
    have c: "msix_check g v l \<in> {Msix_invalid_argument, Msix_stale_generation, Msix_device_lost}" for g v
      using assms(1) by (simp add: msix_check_def)
    have ne: "msix_check g v l \<noteq> Msix_success" for g v using assms(1) by (simp add: msix_check_def)
    have "l\<lparr>ml_online := False\<rparr> = l" using assms(1) by simp
    then show ?thesis
      using that c ne by (cases x) (simp_all add: msix_step_def set_mask_def arm_completion_def
          msix_notify_def retry_pending_def msix_mark_lost_def)
  qed
  have "run_ops msix_step ops (l, e) = (l, e)"
    using assms(2) one by (induction ops) auto
  then show ?thesis using assms(2) one by (auto simp: list_all_iff)
qed

text \<open>C31. A notification that could not be delivered is not lost: if \<open>notify\<close> was answered with
  success, masked or injection failed, then unmasking the vector with a callback that accepts
  leaves the notified timeline delivered and nothing pending.\<close>

theorem notification_not_lost:
  assumes "msix_inv l" and "msix_notify g v t l e = (r, l1, e1)"
    and "r \<in> {Msix_success, Msix_masked, Msix_injection_failed}"
    and "ml_inject l = Some f" and "fst (f (ml_context l) v e1)"
  shows "case set_mask g v False l1 e1 of (r2, l2, e2) \<Rightarrow>
    r2 = Msix_success \<and> t \<le> mv_last_delivered_timeline (vector_at l2 v) \<and>
    \<not> mv_pending (vector_at l2 v)"
proof -
  let ?c = "v = kCompletionVector \<and> (\<not> mv_armed (vector_at l v) \<or> t < mv_armed_timeline (vector_at l v))"
  let ?st = "(vector_at l v)\<lparr>mv_pending := True,
    mv_pending_timeline := max (mv_pending_timeline (vector_at l v)) t\<rparr>"
  let ?l0 = "set_vector v ?st l"
  have ok: "msix_check g v l = Msix_success" "t \<noteq> 0" "\<not> ?c"
    and res: "(mv_masked ?st \<and> r = Msix_masked \<and> l1 = ?l0) \<or> deliver v ?l0 e = (r, l1, e1)"
    using assms(2,3)
    by (auto simp: msix_notify_def msix_check_def Let_def split: if_splits)
  note v = msix_check_success(1) [OF ok(1)]
  have i0: "msix_inv ?l0" by (rule notified_inv [OF assms(1) v ok(2,3)])
  have inv1: "msix_inv l1" using res i0 deliver_inv [OF i0 v, of e] by auto
  have frame: "ml_inject l1 = ml_inject l" "ml_context l1 = ml_context l"
    "ml_generation l1 = ml_generation l" "ml_online l1 = ml_online l"
    using res by (auto simp: set_vector_def deliver_def Let_def split: if_splits option.splits prod.splits)
  then have chk: "msix_check g v l1 = Msix_success" using ok(1) unfolding msix_check_def
    by (auto split: if_splits)
  have reached: "if mv_pending (vector_at l1 v) then t \<le> mv_pending_timeline (vector_at l1 v)
      else t \<le> mv_last_delivered_timeline (vector_at l1 v)"
  proof (cases rule: deliver_cases [of v ?l0 e])
    case (sent f)
    then show ?thesis
      using res msix_inv_vector(3) [OF assms(1) v] msix_inv_vector(3) [OF i0 v]
      by (auto simp: le_max_iff_disj)
  qed (use res msix_inv_vector(3) [OF assms(1) v] in auto)
  let ?l2 = "set_vector v ((vector_at l1 v)\<lparr>mv_masked := False\<rparr>) l1"
  have at2: "vector_at ?l2 v = (vector_at l1 v)\<lparr>mv_masked := False\<rparr>"
    by (rule msix_inv_vector(3) [OF inv1 v])
  show ?thesis
  proof (cases "mv_pending (vector_at l1 v)")
    case True
    have i2: "msix_inv ?l2"
      by (rule set_vector_inv [OF inv1 v])
        (use msix_inv_vector [OF inv1 v] in \<open>auto simp: vector_ok_def completion_ok_def\<close>)
    have "deliver v ?l2 e1 = (Msix_success, set_vector v (delivered v (vector_at ?l2 v)) ?l2,
        snd (f (ml_context l) v e1))"
      using True assms(4,5) frame
      by (simp add: deliver_def at2 case_prod_unfold Let_def)
    then show ?thesis
      using True chk reached msix_inv_vector(3) [OF i2 v]
      by (simp add: set_mask_def at2 Let_def le_max_iff_disj)
  next
    case False
    then show ?thesis using chk reached by (simp add: set_mask_def at2 Let_def)
  qed
qed

theorem notification_not_lost_witness:
  "case set_mask 9 1 False (fst (snd (msix_notify 9 1 10 demo_ledger []))) [1] of (r2, l2, e2) \<Rightarrow>
     r2 = Msix_success \<and> 10 \<le> mv_last_delivered_timeline (vector_at l2 1) \<and>
     \<not> mv_pending (vector_at l2 1)"
  using notification_not_lost [OF demo_ledger_inv demo_notify [simplified], of demo_inject]
    demo_notify
  by (simp add: demo_ledger_eq(1) demo_inject_def)

end
