(* ===== verification/VrootConfig.thy ===== *)
theory VrootConfig
  imports Prelude
begin

unbundle bit_operations_syntax

text \<open>
  The configuration-space model of the virtual PCI root: up to eight functions, each with 256
  bytes of configuration space, a mask of writable bits and the flags of the driver binding
  protocol. The flags hold only 0 and 1 in the source and are booleans here. The configuration
  template and the writable mask come from a generated header; they are a parameter, of which
  the source relies on the two tables having the same length, at most 256 bytes. Null pointers
  are not modelled: an output is a result, and the model and the uuid are always there.
\<close>

section \<open>State\<close>

datatype vroot_status =
  VS_Ok | VS_Invalid_Argument | VS_Range | VS_Not_Present | VS_Busy | VS_No_Space | VS_Not_Ready
  | VS_Read_Only | VS_Stale

definition MF_VROOT_CONFIG_SIZE :: nat where "MF_VROOT_CONFIG_SIZE = 256"
definition MF_VROOT_MAX_FUNCTIONS :: nat where "MF_VROOT_MAX_FUNCTIONS = 8"
definition MF_VROOT_MAX_CONFIG_ACCESS_WIDTH :: nat where "MF_VROOT_MAX_CONFIG_ACCESS_WIDTH = 4"

record vroot_profile =
  vp_config_template :: "u8 list"
  vp_writable_mask :: "u8 list"

definition profile_ok :: "vroot_profile \<Rightarrow> bool" where
  "profile_ok pf \<longleftrightarrow> length (vp_config_template pf) \<le> MF_VROOT_CONFIG_SIZE \<and>
     length (vp_writable_mask pf) = length (vp_config_template pf)"

record vroot_function =
  vf_config :: "u8 list"
  vf_writable_mask :: "u8 list"
  vf_logical_present :: bool
  vf_present :: bool
  vf_matching_enabled :: bool
  vf_driver_ready :: bool
  vf_bound :: bool
  vf_online :: bool
  vf_quarantined :: bool
  vf_domain :: u16
  vf_bus :: u8
  vf_devfn :: u8
  vf_uuid :: "u8 list"
  vf_generation :: u64

record vroot_model =
  vm_functions :: "vroot_function list"
  vm_domain :: u16
  vm_bus :: u8
  vm_max_functions :: u8
  vm_initialized :: bool
  vm_generation_high_water :: u64

text \<open>What \<open>memset(function, 0, sizeof(*function))\<close> leaves.\<close>

definition zero_function :: vroot_function where
  "zero_function = \<lparr>vf_config = replicate MF_VROOT_CONFIG_SIZE 0,
     vf_writable_mask = replicate MF_VROOT_CONFIG_SIZE 0, vf_logical_present = False,
     vf_present = False, vf_matching_enabled = False, vf_driver_ready = False, vf_bound = False,
     vf_online = False, vf_quarantined = False, vf_domain = 0, vf_bus = 0, vf_devfn = 0,
     vf_uuid = replicate 16 0, vf_generation = 0\<rparr>"

section \<open>Operations\<close>

definition valid_model :: "vroot_model \<Rightarrow> bool" where
  "valid_model m \<longleftrightarrow> vm_initialized m \<and> vm_max_functions m > 0 \<and>
     unat (vm_max_functions m) \<le> MF_VROOT_MAX_FUNCTIONS"

text \<open>The two lookups of the source differ only in constness; the result is an index.\<close>

definition get_function :: "vroot_model \<Rightarrow> u8 \<Rightarrow> vroot_status + nat" where
  "get_function m function =
    (if \<not> valid_model m then Inl VS_Invalid_Argument
     else if function \<ge> vm_max_functions m then Inl VS_Range
     else Inr (unat function))"

definition update_function :: "nat \<Rightarrow> vroot_function \<Rightarrow> vroot_model \<Rightarrow> vroot_model" where
  "update_function i f m = m\<lparr>vm_functions := (vm_functions m)[i := f]\<rparr>"

text \<open>A \<open>memcpy\<close> of a table over zeroed memory of the configuration size.\<close>

definition over_zeros :: "u8 list \<Rightarrow> u8 list" where
  "over_zeros t = t @ replicate (MF_VROOT_CONFIG_SIZE - length t) 0"

definition initialize_config ::
    "vroot_profile \<Rightarrow> u8 list \<Rightarrow> u16 \<Rightarrow> u8 \<Rightarrow> u8 \<Rightarrow> u64 \<Rightarrow> vroot_function" where
  "initialize_config pf uuid domain bus devfn generation =
     zero_function\<lparr>vf_config := over_zeros (vp_config_template pf),
       vf_writable_mask := over_zeros (vp_writable_mask pf), vf_uuid := uuid, vf_domain := domain,
       vf_bus := bus, vf_devfn := devfn, vf_generation := generation, vf_logical_present := True,
       vf_present := True\<rparr>"

definition valid_config_access :: "u16 \<Rightarrow> u8 \<Rightarrow> bool" where
  "valid_config_access offset width \<longleftrightarrow>
     (width = 1 \<or> width = 2 \<or> width = 4) \<and> unat offset < MF_VROOT_CONFIG_SIZE \<and>
     unat width \<le> MF_VROOT_CONFIG_SIZE - unat offset \<and> (offset AND ucast (width - 1)) = 0"

definition vroot_model_init :: "u16 \<Rightarrow> u8 \<Rightarrow> u8 \<Rightarrow> vroot_model \<Rightarrow> vroot_status \<times> vroot_model" where
  "vroot_model_init domain bus max_functions m =
    (if max_functions = 0 \<or> unat max_functions > MF_VROOT_MAX_FUNCTIONS
     then (VS_Invalid_Argument, m)
     else (VS_Ok, \<lparr>vm_functions = replicate MF_VROOT_MAX_FUNCTIONS zero_function, vm_domain = domain,
            vm_bus = bus, vm_max_functions = max_functions, vm_initialized = True,
            vm_generation_high_water = 0\<rparr>))"

text \<open>The index of the new function is returned beside the status.\<close>

definition vroot_add ::
    "vroot_profile \<Rightarrow> u8 list \<Rightarrow> u64 \<Rightarrow> vroot_model \<Rightarrow> vroot_status \<times> nat option \<times> vroot_model" where
  "vroot_add pf uuid generation m =
    (if \<not> valid_model m \<or> generation = 0 then (VS_Invalid_Argument, None, m)
     else if generation \<le> vm_generation_high_water m then (VS_Stale, None, m)
     else case find_index (\<lambda>f. \<not> vf_logical_present f)
                 (take (unat (vm_max_functions m)) (vm_functions m)) of
            Some i \<Rightarrow>
              (VS_Ok, Some i,
               (update_function i (initialize_config pf uuid (vm_domain m) (vm_bus m)
                  (push_bit 3 (of_nat i)) generation) m)
                 \<lparr>vm_generation_high_water := generation\<rparr>)
          | None \<Rightarrow> (VS_No_Space, None, m))"

definition vroot_prepare_driver :: "u8 \<Rightarrow> vroot_model \<Rightarrow> vroot_status \<times> vroot_model" where
  "vroot_prepare_driver function m =
    (case get_function m function of
       Inl status \<Rightarrow> (status, m)
     | Inr i \<Rightarrow>
         (let f = vm_functions m ! i in
          if \<not> vf_present f \<or> vf_quarantined f then (VS_Not_Present, m)
          else if vf_matching_enabled f then (VS_Busy, m)
          else (VS_Ok, update_function i (f\<lparr>vf_driver_ready := True\<rparr>) m)))"

definition vroot_enable_matching :: "u8 \<Rightarrow> vroot_model \<Rightarrow> vroot_status \<times> vroot_model" where
  "vroot_enable_matching function m =
    (case get_function m function of
       Inl status \<Rightarrow> (status, m)
     | Inr i \<Rightarrow>
         (let f = vm_functions m ! i in
          if \<not> vf_present f \<or> vf_quarantined f then (VS_Not_Present, m)
          else if \<not> vf_driver_ready f \<or> vf_matching_enabled f then (VS_Not_Ready, m)
          else (VS_Ok, update_function i (f\<lparr>vf_matching_enabled := True\<rparr>) m)))"

definition vroot_probe :: "u8 \<Rightarrow> bool \<Rightarrow> vroot_model \<Rightarrow> vroot_status \<times> vroot_model" where
  "vroot_probe function success m =
    (case get_function m function of
       Inl status \<Rightarrow> (status, m)
     | Inr i \<Rightarrow>
         (let f = vm_functions m ! i in
          if \<not> vf_present f \<or> \<not> vf_matching_enabled f then (VS_Not_Ready, m)
          else
            (let f1 = f\<lparr>vf_matching_enabled := False, vf_driver_ready := False\<rparr> in
             if \<not> success
             then (VS_Ok, update_function i (f1\<lparr>vf_present := False, vf_bound := False,
                     vf_online := False, vf_quarantined := True\<rparr>) m)
             else (VS_Ok, update_function i (f1\<lparr>vf_bound := True, vf_online := True\<rparr>) m))))"

definition vroot_remove :: "u8 \<Rightarrow> vroot_model \<Rightarrow> vroot_status \<times> vroot_model" where
  "vroot_remove function m =
    (case get_function m function of
       Inl status \<Rightarrow> (status, m)
     | Inr i \<Rightarrow>
         if \<not> vf_logical_present (vm_functions m ! i) then (VS_Not_Present, m)
         else (VS_Ok, update_function i (zero_function) m))"

definition vroot_rescan :: "u8 \<Rightarrow> vroot_model \<Rightarrow> vroot_status \<times> vroot_model" where
  "vroot_rescan function m =
    (case get_function m function of
       Inl status \<Rightarrow> (status, m)
     | Inr i \<Rightarrow>
         (let f = vm_functions m ! i in
          if \<not> vf_logical_present f then (VS_Not_Present, m)
          else if vf_present f then (VS_Busy, m)
          else (VS_Ok, update_function i (f\<lparr>vf_present := True, vf_matching_enabled := False,
                  vf_driver_ready := False, vf_bound := False, vf_online := False,
                  vf_quarantined := False\<rparr>) m)))"

text \<open>The checks both accesses make first, in the order of the source.\<close>

definition access_status :: "u16 \<Rightarrow> u8 \<Rightarrow> vroot_status" where
  "access_status offset width =
    (if width = 0 \<or> unat width > MF_VROOT_MAX_CONFIG_ACCESS_WIDTH then VS_Invalid_Argument
     else if unat offset \<ge> MF_VROOT_CONFIG_SIZE \<or> unat width > MF_VROOT_CONFIG_SIZE - unat offset
     then VS_Range
     else if \<not> valid_config_access offset width then VS_Invalid_Argument
     else VS_Ok)"

definition config_value :: "u8 list \<Rightarrow> nat \<Rightarrow> nat \<Rightarrow> u32" where
  "config_value bytes offset width =
    fold (\<lambda>i value. value OR push_bit (i * 8) (ucast (bytes ! (offset + i)))) [0..<width] 0"

definition vroot_read_config :: "u8 \<Rightarrow> u16 \<Rightarrow> u8 \<Rightarrow> vroot_model \<Rightarrow> vroot_status + u32" where
  "vroot_read_config function offset width m =
    (if access_status offset width \<noteq> VS_Ok then Inl (access_status offset width)
     else case get_function m function of
            Inl status \<Rightarrow> Inl status
          | Inr i \<Rightarrow>
              (let f = vm_functions m ! i in
               if \<not> vf_present f then Inl VS_Not_Present
               else Inr (config_value (vf_config f) (unat offset) (unat width))))"

definition byte_of :: "u32 \<Rightarrow> nat \<Rightarrow> u8" where
  "byte_of value i = ucast (drop_bit (i * 8) value AND 0xff)"

definition read_only_byte :: "u8 \<Rightarrow> u8 \<Rightarrow> bool" where
  "read_only_byte wm b \<longleftrightarrow> (b \<noteq> 0 \<and> wm = 0) \<or> (b AND NOT wm) \<noteq> 0"

definition write_bytes :: "u8 list \<Rightarrow> nat \<Rightarrow> nat \<Rightarrow> u32 \<Rightarrow> u8 list \<Rightarrow> u8 list" where
  "write_bytes wm offset width value config =
    fold (\<lambda>i cfg. cfg[offset + i := (cfg ! (offset + i) AND NOT (wm ! (offset + i))) OR
                        (byte_of value i AND wm ! (offset + i))]) [0..<width] config"

definition vroot_write_config ::
    "u8 \<Rightarrow> u16 \<Rightarrow> u8 \<Rightarrow> u32 \<Rightarrow> vroot_model \<Rightarrow> vroot_status \<times> vroot_model" where
  "vroot_write_config function offset width value m =
    (if access_status offset width \<noteq> VS_Ok then (access_status offset width, m)
     else case get_function m function of
            Inl status \<Rightarrow> (status, m)
          | Inr i \<Rightarrow>
              (let f = vm_functions m ! i in
               if \<not> vf_present f then (VS_Not_Present, m)
               else if list_ex (\<lambda>k. read_only_byte (vf_writable_mask f ! (unat offset + k)) (byte_of value k))
                         [0..<unat width]
               then (VS_Read_Only, m)
               else (VS_Ok, update_function i (f\<lparr>vf_config :=
                       write_bytes (vf_writable_mask f) (unat offset) (unat width) value (vf_config f)\<rparr>) m)))"

definition vroot_get_function :: "u8 \<Rightarrow> vroot_model \<Rightarrow> vroot_status + vroot_function" where
  "vroot_get_function function m =
    (case get_function m function of
       Inl status \<Rightarrow> Inl status
     | Inr i \<Rightarrow> Inr (vm_functions m ! i))"

datatype vroot_op =
  Vroot_Init u16 u8 u8 | Vroot_Add "u8 list" u64 | Vroot_Prepare u8 | Vroot_Enable u8
  | Vroot_Probe u8 bool | Vroot_Remove u8 | Vroot_Rescan u8 | Vroot_Write u8 u16 u8 u32

fun vroot_call :: "vroot_profile \<Rightarrow> vroot_op \<Rightarrow> vroot_model \<Rightarrow> vroot_status \<times> vroot_model" where
  "vroot_call pf (Vroot_Init d b n) m = vroot_model_init d b n m"
| "vroot_call pf (Vroot_Add u g) m = (let (r, _, m') = vroot_add pf u g m in (r, m'))"
| "vroot_call pf (Vroot_Prepare k) m = vroot_prepare_driver k m"
| "vroot_call pf (Vroot_Enable k) m = vroot_enable_matching k m"
| "vroot_call pf (Vroot_Probe k ok) m = vroot_probe k ok m"
| "vroot_call pf (Vroot_Remove k) m = vroot_remove k m"
| "vroot_call pf (Vroot_Rescan k) m = vroot_rescan k m"
| "vroot_call pf (Vroot_Write k off w x) m = vroot_write_config k off w x m"

definition vroot_step :: "vroot_profile \<Rightarrow> vroot_op \<Rightarrow> vroot_model \<Rightarrow> vroot_model" where
  "vroot_step pf x m = snd (vroot_call pf x m)"

section \<open>The function state machine\<close>

text \<open>The operations on one function, as steps of that function.\<close>

inductive function_step :: "vroot_op \<Rightarrow> vroot_function \<Rightarrow> vroot_function \<Rightarrow> bool" where
  prepare: "vf_present f \<Longrightarrow> \<not> vf_quarantined f \<Longrightarrow> \<not> vf_matching_enabled f \<Longrightarrow>
    function_step (Vroot_Prepare k) f (f\<lparr>vf_driver_ready := True\<rparr>)"
| enable: "vf_present f \<Longrightarrow> \<not> vf_quarantined f \<Longrightarrow> vf_driver_ready f \<Longrightarrow> \<not> vf_matching_enabled f \<Longrightarrow>
    function_step (Vroot_Enable k) f (f\<lparr>vf_matching_enabled := True\<rparr>)"
| bind: "vf_present f \<Longrightarrow> vf_matching_enabled f \<Longrightarrow>
    function_step (Vroot_Probe k True) f (f\<lparr>vf_matching_enabled := False, vf_driver_ready := False,
      vf_bound := True, vf_online := True\<rparr>)"
| reject: "vf_present f \<Longrightarrow> vf_matching_enabled f \<Longrightarrow>
    function_step (Vroot_Probe k False) f (f\<lparr>vf_matching_enabled := False, vf_driver_ready := False,
      vf_present := False, vf_bound := False, vf_online := False, vf_quarantined := True\<rparr>)"
| remove: "vf_logical_present f \<Longrightarrow> function_step (Vroot_Remove k) f zero_function"
| rescan: "vf_logical_present f \<Longrightarrow> \<not> vf_present f \<Longrightarrow>
    function_step (Vroot_Rescan k) f (f\<lparr>vf_present := True, vf_matching_enabled := False,
      vf_driver_ready := False, vf_bound := False, vf_online := False, vf_quarantined := False\<rparr>)"
| store: "vf_present f \<Longrightarrow> access_status off w = VS_Ok \<Longrightarrow>
    \<not> list_ex (\<lambda>i. read_only_byte (vf_writable_mask f ! (unat off + i)) (byte_of x i)) [0..<unat w] \<Longrightarrow>
    function_step (Vroot_Write k off w x) f
      (f\<lparr>vf_config := write_bytes (vf_writable_mask f) (unat off) (unat w) x (vf_config f)\<rparr>)"

inductive_cases function_stepE: "function_step x f f'"

lemma get_function_Inr:
  "get_function m k = Inr i \<Longrightarrow> valid_model m \<and> i = unat k \<and> i < unat (vm_max_functions m)"
  by (simp add: get_function_def word_less_nat_alt not_le split: if_splits)

text \<open>Every call that is neither an initialisation nor an addition is a step of one function, or
  changes nothing.\<close>

definition local_call :: "vroot_op \<Rightarrow> vroot_model \<Rightarrow> vroot_status \<times> vroot_model \<Rightarrow> bool" where
  "local_call x m res \<longleftrightarrow>
     (snd res = m \<and> fst res \<noteq> VS_Ok) \<or>
     (valid_model m \<and> fst res = VS_Ok \<and>
      (\<exists>i f'. i < unat (vm_max_functions m) \<and> function_step x (vm_functions m ! i) f' \<and>
         snd res = update_function i f' m))"

lemma local_refused: "r \<noteq> VS_Ok \<Longrightarrow> local_call x m (r, m)"
  by (simp add: local_call_def)

lemma local_stepped:
  "get_function m k = Inr i \<Longrightarrow> function_step x (vm_functions m ! i) f' \<Longrightarrow>
   local_call x m (VS_Ok, update_function i f' m)"
  using get_function_Inr [of m k i] by (auto simp: local_call_def)

lemma get_function_update: "get_function (update_function i f m) k = get_function m k"
  by (simp add: get_function_def update_function_def valid_model_def)

lemma get_function_Inl: "get_function m k = Inl r \<Longrightarrow> r \<noteq> VS_Ok"
  by (auto simp: get_function_def split: if_splits)

lemma local_calls:
  "local_call (Vroot_Prepare k) m (vroot_prepare_driver k m)"
  "local_call (Vroot_Enable k) m (vroot_enable_matching k m)"
  "local_call (Vroot_Probe k ok) m (vroot_probe k ok m)"
  "local_call (Vroot_Remove k) m (vroot_remove k m)"
  "local_call (Vroot_Rescan k) m (vroot_rescan k m)"
  "local_call (Vroot_Write k off w v) m (vroot_write_config k off w v m)"
  by (simp_all add: vroot_prepare_driver_def vroot_enable_matching_def vroot_probe_def
      vroot_remove_def vroot_rescan_def vroot_write_config_def Let_def local_refused
      get_function_Inl local_stepped function_step.intros split: sum.split)

lemma vroot_call_cases:
  assumes "vroot_call pf x m = (r, m')"
  obtains (init) d b n where "x = Vroot_Init d b n" | (add) u g where "x = Vroot_Add u g"
  | (refused) "m' = m" "r \<noteq> VS_Ok"
  | (stepped) i f' where "valid_model m" "i < unat (vm_max_functions m)" "r = VS_Ok"
      "function_step x (vm_functions m ! i) f'" "m' = update_function i f' m"
proof -
  have "(\<exists>d b n. x = Vroot_Init d b n) \<or> (\<exists>u g. x = Vroot_Add u g) \<or> local_call x m (r, m')"
    using assms local_calls by (cases x) (metis vroot_call.simps)+
  then show thesis using that unfolding local_call_def by auto
qed

section \<open>Configuration bytes\<close>

lemma length_write_bytes [simp]: "length (write_bytes wm off w v cfg) = length cfg"
  by (induction w) (simp_all add: write_bytes_def)

lemma write_bytes_nth:
  assumes "off + w \<le> length cfg"
  shows "write_bytes wm off w v cfg ! k =
    (if off \<le> k \<and> k < off + w
     then (cfg ! k AND NOT (wm ! k)) OR (byte_of v (k - off) AND wm ! k) else cfg ! k)"
  using assms
proof (induction w)
  case (Suc w)
  have "write_bytes wm off (Suc w) v cfg =
      (write_bytes wm off w v cfg)[off + w := (write_bytes wm off w v cfg ! (off + w) AND
         NOT (wm ! (off + w))) OR (byte_of v w AND wm ! (off + w))]"
    by (simp add: write_bytes_def)
  then show ?case using Suc by (auto simp: nth_list_update)
qed (auto simp: write_bytes_def)

lemma bit_config_value:
  assumes "w \<le> 4"
  shows "bit (config_value bytes off w) n \<longleftrightarrow>
    n < 8 * w \<and> bit (bytes ! (off + n div 8)) (n mod 8)"
  using assms
proof (induction w)
  case (Suc w)
  have step: "config_value bytes off (Suc w) =
      config_value bytes off w OR push_bit (w * 8) (ucast (bytes ! (off + w)))"
    by (simp add: config_value_def)
  show ?case
  proof (cases "8 * w \<le> n \<and> n < 8 * Suc w")
    case True
    then have d: "n div 8 = w" and "n < 32"
      using Suc.prems by (simp_all add: div_nat_eqI)
    moreover have "n - 8 * w = n mod 8" unfolding d [symmetric] by (rule minus_mult_div_eq_mod)
    ultimately have "n div 8 = w" "n - 8 * w = n mod 8" "n < 32" "n mod 8 < 32"
      using mod_less_divisor [of 8 n] by linarith+
    then show ?thesis
      using Suc True by (simp add: step bit_or_iff bit_push_bit_iff bit_ucast_iff mult.commute)
  next
    case False
    have "bit (bytes ! (off + w)) (n - w * 8) \<Longrightarrow> n - w * 8 < 8" by (drule bit_imp_le_length) simp
    then show ?thesis
      using Suc False by (auto simp: step bit_or_iff bit_push_bit_iff bit_ucast_iff mult.commute)
  qed
qed (simp add: config_value_def)

lemma bit_byte_of: "bit (byte_of v i) n \<longleftrightarrow> n < 8 \<and> bit v (i * 8 + n)"
proof -
  have "(0xff :: u32) = mask 8" by (simp add: mask_eq_exp_minus_1)
  then have "byte_of v i = ucast (drop_bit (i * 8) v AND mask 8)" by (simp only: byte_of_def)
  then show ?thesis by (auto simp: bit_ucast_iff bit_and_iff bit_drop_bit_eq bit_mask_iff)
qed

lemma access_ok:
  assumes "access_status off w = VS_Ok"
  shows "w = 1 \<or> w = 2 \<or> w = 4" and "unat w \<le> 4" and "unat off + unat w \<le> 256"
  using assms
  by (auto simp: access_status_def valid_config_access_def MF_VROOT_CONFIG_SIZE_def
      MF_VROOT_MAX_CONFIG_ACCESS_WIDTH_def split: if_splits)

section \<open>Invariant\<close>

definition flags_ok :: "vroot_function \<Rightarrow> bool" where
  "flags_ok f \<longleftrightarrow>
     (vf_present f \<longleftrightarrow> vf_logical_present f \<and> \<not> vf_quarantined f) \<and>
     (vf_quarantined f \<longrightarrow> vf_logical_present f) \<and> (vf_online f \<longleftrightarrow> vf_bound f) \<and>
     (vf_bound f \<longrightarrow> vf_present f) \<and> (vf_matching_enabled f \<longrightarrow> vf_driver_ready f) \<and>
     (vf_driver_ready f \<longrightarrow> vf_present f)"

definition config_ok :: "vroot_profile \<Rightarrow> vroot_function \<Rightarrow> bool" where
  "config_ok pf f \<longleftrightarrow>
     length (vf_config f) = MF_VROOT_CONFIG_SIZE \<and>
     vf_writable_mask f = over_zeros (vp_writable_mask pf) \<and>
     (\<forall>k < MF_VROOT_CONFIG_SIZE. vf_config f ! k AND NOT (vf_writable_mask f ! k) =
        over_zeros (vp_config_template pf) ! k AND NOT (vf_writable_mask f ! k))"

definition function_ok :: "vroot_profile \<Rightarrow> u64 \<Rightarrow> vroot_function \<Rightarrow> bool" where
  "function_ok pf hw f \<longleftrightarrow> flags_ok f \<and>
     (if vf_logical_present f then config_ok pf f \<and> 0 < vf_generation f \<and> vf_generation f \<le> hw
      else f = zero_function)"

definition generations_ok :: "vroot_function list \<Rightarrow> bool" where
  "generations_ok fs \<longleftrightarrow>
     (\<forall>i < length fs. \<forall>j < length fs. vf_logical_present (fs ! i) \<and> vf_logical_present (fs ! j) \<and>
        vf_generation (fs ! i) = vf_generation (fs ! j) \<longrightarrow> i = j)"

definition vroot_inv :: "vroot_profile \<Rightarrow> vroot_model \<Rightarrow> bool" where
  "vroot_inv pf m \<longleftrightarrow> (vm_initialized m \<longrightarrow>
     length (vm_functions m) = MF_VROOT_MAX_FUNCTIONS \<and> valid_model m \<and>
     list_all (function_ok pf (vm_generation_high_water m)) (vm_functions m) \<and>
     generations_ok (vm_functions m))"

lemma zero_function_ok: "function_ok pf hw zero_function" "flags_ok zero_function"
  "\<not> vf_logical_present zero_function"
  by (simp_all add: function_ok_def flags_ok_def zero_function_def)

lemma length_over_zeros: "length t \<le> MF_VROOT_CONFIG_SIZE \<Longrightarrow> length (over_zeros t) = MF_VROOT_CONFIG_SIZE"
  by (simp add: over_zeros_def)

lemma store_config_ok:
  assumes "config_ok pf f" and "access_status off w = VS_Ok"
  shows "config_ok pf (f\<lparr>vf_config := write_bytes (vf_writable_mask f) (unat off) (unat w) v (vf_config f)\<rparr>)"
proof -
  have "unat off + unat w \<le> length (vf_config f)"
    using access_ok(3) [OF assms(2)] assms(1) by (simp add: config_ok_def MF_VROOT_CONFIG_SIZE_def)
  moreover have "((a AND NOT m) OR (b AND m)) AND NOT m = a AND NOT m" for a b m :: u8
    by (rule bit_eqI) (auto simp: bit_simps)
  ultimately show ?thesis using assms(1) by (auto simp: config_ok_def write_bytes_nth)
qed

lemma function_step_ok:
  assumes "function_step x f f'" and "function_ok pf hw f"
  shows "function_ok pf hw f'"
    and "vf_logical_present f' \<Longrightarrow> vf_logical_present f \<and> vf_generation f' = vf_generation f"
proof -
  have present: "vf_present f \<Longrightarrow> vf_logical_present f"
    using assms(2) by (auto simp: function_ok_def flags_ok_def)
  from assms(1) show "function_ok pf hw f'"
  proof cases
    case remove
    then show ?thesis by (simp add: zero_function_ok)
  next
    case (store off w x k)
    then show ?thesis using assms(2) present store_config_ok [of pf f off w x]
      by (auto simp: function_ok_def flags_ok_def)
  qed (use assms(2) present in \<open>auto simp: function_ok_def flags_ok_def config_ok_def\<close>)
  from assms(1) show "vf_logical_present f' \<Longrightarrow> vf_logical_present f \<and> vf_generation f' = vf_generation f"
    by cases (use present zero_function_ok in auto)
qed

lemma generations_ok_update:
  assumes "generations_ok fs"
    and "\<And>j. j < length fs \<Longrightarrow> j \<noteq> i \<Longrightarrow> i < length fs \<Longrightarrow> vf_logical_present f' \<Longrightarrow>
      vf_logical_present (fs ! j) \<Longrightarrow> vf_generation (fs ! j) \<noteq> vf_generation f'"
  shows "generations_ok (fs[i := f'])"
proof (cases "i < length fs")
  case True
  show ?thesis
    unfolding generations_ok_def
  proof (intro allI impI)
    fix a b
    assume "a < length (fs[i := f'])" "b < length (fs[i := f'])"
      and "vf_logical_present (fs[i := f'] ! a) \<and> vf_logical_present (fs[i := f'] ! b) \<and>
        vf_generation (fs[i := f'] ! a) = vf_generation (fs[i := f'] ! b)"
    then show "a = b"
      using assms(1) assms(2) [OF _ _ True, of a] assms(2) [OF _ _ True, of b] True
      unfolding generations_ok_def
      by (cases "a = i"; cases "b = i") (auto simp: nth_list_update)
  qed
next
  case False
  then have "fs[i := f'] = fs" by (simp add: not_less list_update_beyond)
  then show ?thesis using assms(1) by simp
qed

lemma update_function_inv:
  assumes "vroot_inv pf m" and "valid_model m" and "i < unat (vm_max_functions m)"
    and "function_ok pf hw f'" and "hw = vm_generation_high_water m"
    and "vf_logical_present f' \<Longrightarrow> vf_logical_present (vm_functions m ! i) \<and>
      vf_generation f' = vf_generation (vm_functions m ! i)"
  shows "vroot_inv pf (update_function i f' m)"
proof -
  have "generations_ok (vm_functions m)" "length (vm_functions m) = MF_VROOT_MAX_FUNCTIONS"
    using assms(1,2) by (simp_all add: vroot_inv_def valid_model_def)
  then have "generations_ok ((vm_functions m)[i := f'])"
    using assms(6) by (intro generations_ok_update) (auto simp: generations_ok_def)
  moreover have "list_all (function_ok pf hw) ((vm_functions m)[i := f'])"
    using assms(1,2,4,5) set_update_subset_insert [of "vm_functions m" i f']
    by (auto simp: vroot_inv_def valid_model_def list_all_iff)
  ultimately show ?thesis
    using assms by (simp add: vroot_inv_def update_function_def valid_model_def)
qed

lemma function_ok_mono: "function_ok pf hw f \<Longrightarrow> hw \<le> hw' \<Longrightarrow> function_ok pf hw' f"
  by (auto simp: function_ok_def split: if_splits)

lemma initialize_config_ok:
  assumes "profile_ok pf" and "g \<noteq> 0"
  shows "function_ok pf g (initialize_config pf u d b dv g)"
  using assms
  by (simp add: function_ok_def flags_ok_def config_ok_def initialize_config_def zero_function_def
      profile_ok_def length_over_zeros word_gt_0)

lemma vroot_add_cases:
  obtains (refused) r where "vroot_add pf u g m = (r, None, m)" "r \<noteq> VS_Ok"
  | (added) i where "valid_model m" "i < unat (vm_max_functions m)" "g \<noteq> 0"
      "vm_generation_high_water m < g"
      "vroot_add pf u g m = (VS_Ok, Some i, (update_function i (initialize_config pf u (vm_domain m)
         (vm_bus m) (push_bit 3 (of_nat i)) g) m)\<lparr>vm_generation_high_water := g\<rparr>)"
proof (cases "valid_model m \<and> g \<noteq> 0 \<and> vm_generation_high_water m < g")
  case True
  then have a: "vroot_add pf u g m =
      (case find_index (\<lambda>f. \<not> vf_logical_present f)
              (take (unat (vm_max_functions m)) (vm_functions m)) of
         Some i \<Rightarrow> (VS_Ok, Some i, (update_function i (initialize_config pf u (vm_domain m)
            (vm_bus m) (push_bit 3 (of_nat i)) g) m)\<lparr>vm_generation_high_water := g\<rparr>)
       | None \<Rightarrow> (VS_No_Space, None, m))"
    by (simp add: vroot_add_def not_le [symmetric])
  show thesis
  proof (cases "find_index (\<lambda>f. \<not> vf_logical_present f)
      (take (unat (vm_max_functions m)) (vm_functions m))")
    case None
    then show thesis using refused [of VS_No_Space] a by simp
  next
    case (Some i)
    from find_index_Some [OF this] have "i < unat (vm_max_functions m)" by simp
    then show thesis using added [of i] True Some a by simp
  qed
next
  case False
  then have "vroot_add pf u g m = (VS_Invalid_Argument, None, m) \<or>
      vroot_add pf u g m = (VS_Stale, None, m)"
    by (auto simp: vroot_add_def not_less)
  then show thesis using refused by auto
qed

lemma vroot_step_inv:
  assumes "profile_ok pf" and "vroot_inv pf m"
  shows "vroot_inv pf (vroot_step pf x m)"
proof -
  obtain r m' where c: "vroot_call pf x m = (r, m')" by (cases "vroot_call pf x m")
  then have s: "vroot_step pf x m = m'" by (simp add: vroot_step_def)
  from c show ?thesis
  proof (cases rule: vroot_call_cases)
    case (init d b n)
    have "generations_ok (replicate 8 zero_function)"
      by (simp add: generations_ok_def zero_function_ok)
    then show ?thesis
      using c assms(2) init unfolding s
      by (auto simp: vroot_model_init_def vroot_inv_def valid_model_def zero_function_ok list_all_iff
          MF_VROOT_MAX_FUNCTIONS_def word_gt_0 split: if_splits)
  next
    case (add u g)
    show ?thesis
    proof (cases rule: vroot_add_cases [of pf u g m])
      case (refused r)
      then show ?thesis using c assms(2) add unfolding s by simp
    next
      case (added i)
      let ?f = "initialize_config pf u (vm_domain m) (vm_bus m) (push_bit 3 (of_nat i)) g"
      have m': "m' = (update_function i ?f m)\<lparr>vm_generation_high_water := g\<rparr>"
        using c add added(5) by simp
      have gs: "generations_ok (vm_functions m)" and ok: "list_all (function_ok pf (vm_generation_high_water m)) (vm_functions m)"
        and len: "length (vm_functions m) = MF_VROOT_MAX_FUNCTIONS"
        using assms(2) added(1) by (simp_all add: vroot_inv_def valid_model_def)
      have old: "vf_generation (vm_functions m ! j) < g"
        if "j < length (vm_functions m)" "vf_logical_present (vm_functions m ! j)" for j
        using that ok added(4) by (fastforce simp: list_all_length function_ok_def)
      have "vf_generation ?f = g" by (simp add: initialize_config_def)
      then have "generations_ok ((vm_functions m)[i := ?f])"
        using gs old by (intro generations_ok_update) auto
      moreover have "list_all (function_ok pf g) ((vm_functions m)[i := ?f])"
        using ok function_ok_mono [of pf "vm_generation_high_water m" _ g] added(4)
          initialize_config_ok [OF assms(1) added(3)] set_update_subset_insert [of "vm_functions m" i ?f]
        by (fastforce simp: list_all_iff)
      ultimately show ?thesis
        using added(1) len unfolding s m' by (simp add: vroot_inv_def update_function_def valid_model_def)
    qed
  next
    case refused
    then show ?thesis using assms(2) s by simp
  next
    case (stepped i f')
    have "function_ok pf (vm_generation_high_water m) (vm_functions m ! i)"
      using assms(2) stepped(1,2)
      by (auto simp: vroot_inv_def valid_model_def list_all_length MF_VROOT_MAX_FUNCTIONS_def)
    from function_step_ok [OF stepped(4) this] show ?thesis
      unfolding s stepped(5) by (intro update_function_inv [OF assms(2) stepped(1,2)]) auto
  qed
qed

interpretation vroot_safe: invariant_component "vroot_step pf" "\<lambda>m. profile_ok pf \<and> vroot_inv pf m"
  by unfold_locales (simp add: vroot_step_inv)

lemma uninitialized_inv: "\<not> vm_initialized m \<Longrightarrow> vroot_inv pf m"
  by (simp add: vroot_inv_def)

lemma vroot_reachable_inv:
  assumes "profile_ok pf" and "\<not> vm_initialized m0"
  shows "vroot_inv pf (run_ops (vroot_step pf) xs m0)"
  using vroot_safe.run_inv [of pf m0 xs] assms uninitialized_inv by blast

lemma inv_function:
  assumes "vroot_inv pf m" and "valid_model m" and "i < unat (vm_max_functions m)"
  shows "function_ok pf (vm_generation_high_water m) (vm_functions m ! i)"
    and "i < length (vm_functions m)"
  using assms
  by (auto simp: vroot_inv_def valid_model_def list_all_length MF_VROOT_MAX_FUNCTIONS_def)

section \<open>What the model promises\<close>

text \<open>In every state reached from uninitialised memory, each function is in a consistent
  stage of the binding protocol: it is visible on the bus exactly when it exists and is not
  quarantined, online exactly when a driver is bound, bound only while visible, and matched only
  when a driver was prepared; and no two existing functions have the same generation.\<close>

lemma vroot_functions_consistent:
  assumes "profile_ok pf" and "\<not> vm_initialized m0"
    and "run_ops (vroot_step pf) xs m0 = m" and "vm_initialized m"
    and "i < MF_VROOT_MAX_FUNCTIONS" and "j < MF_VROOT_MAX_FUNCTIONS"
  defines "f \<equiv> vm_functions m ! i"
  shows "(vf_present f \<longleftrightarrow> vf_logical_present f \<and> \<not> vf_quarantined f) \<and>
    (vf_online f \<longleftrightarrow> vf_bound f) \<and> (vf_bound f \<longrightarrow> vf_present f) \<and>
    (vf_matching_enabled f \<longrightarrow> vf_driver_ready f \<and> vf_present f) \<and>
    (vf_logical_present f \<and> vf_logical_present (vm_functions m ! j) \<and>
      vf_generation f = vf_generation (vm_functions m ! j) \<longrightarrow> i = j)"
proof -
  have inv: "vroot_inv pf m" using vroot_reachable_inv [OF assms(1,2), of xs] assms(3) by simp
  then have "function_ok pf (vm_generation_high_water m) f" "generations_ok (vm_functions m)"
    and len: "length (vm_functions m) = MF_VROOT_MAX_FUNCTIONS"
    using assms(4,5) by (auto simp: vroot_inv_def list_all_length f_def)
  then show ?thesis
    using assms(5,6) unfolding function_ok_def flags_ok_def generations_ok_def f_def by metis
qed

text \<open>A small profile and model for the examples: the first byte is fixed, the second writable.\<close>

definition demo_profile :: vroot_profile where
  "demo_profile = \<lparr>vp_config_template = [0x46, 0], vp_writable_mask = [0, 0xff]\<rparr>"

definition demo_memory :: vroot_model where
  "demo_memory = \<lparr>vm_functions = [], vm_domain = 0, vm_bus = 0, vm_max_functions = 0,
     vm_initialized = False, vm_generation_high_water = 0\<rparr>"

definition demo_vroot :: vroot_model where
  "demo_vroot = run_ops (vroot_step demo_profile)
     [Vroot_Init 0 0 1, Vroot_Add (replicate 16 0) 7, Vroot_Prepare 0, Vroot_Enable 0] demo_memory"

lemma demo_profile_ok: "profile_ok demo_profile"
  by (simp add: profile_ok_def demo_profile_def MF_VROOT_CONFIG_SIZE_def)

lemma demo_memory_fresh: "\<not> vm_initialized demo_memory"
  by (simp add: demo_memory_def)

lemma demo_vroot_inv: "vroot_inv demo_profile demo_vroot"
  unfolding demo_vroot_def by (rule vroot_reachable_inv [OF demo_profile_ok demo_memory_fresh])

lemma demo_vroot_facts:
  "vm_initialized demo_vroot" "valid_model demo_vroot" "vm_max_functions demo_vroot = 1"
  "vf_matching_enabled (vm_functions demo_vroot ! 0)" "vf_present (vm_functions demo_vroot ! 0)"
  "\<not> vf_online (vm_functions demo_vroot ! 0)" "vf_writable_mask (vm_functions demo_vroot ! 0) ! 1 = 0xff"
  by code_simp+

lemma changed_by_update: "P (xs[k := y] ! i) \<Longrightarrow> \<not> P (xs ! i) \<Longrightarrow> k = i \<and> P y"
  by (metis list_update_beyond not_less nth_list_update_eq nth_list_update_neq)

text \<open>A function goes online only through a successful probe of a matched, prepared, visible
  function: no other call, and no probe out of turn, can bring it online.\<close>

lemma online_needs_probe:
  assumes "vroot_inv pf m" and "vroot_call pf x m = (r, m')" and "i < MF_VROOT_MAX_FUNCTIONS"
    and "vm_initialized m" and "\<not> vf_online (vm_functions m ! i)" and "vf_online (vm_functions m' ! i)"
  shows "\<exists>k. x = Vroot_Probe k True \<and> vf_matching_enabled (vm_functions m ! i) \<and>
    vf_driver_ready (vm_functions m ! i) \<and> vf_present (vm_functions m ! i)"
proof -
  have v: "valid_model m" and len: "length (vm_functions m) = MF_VROOT_MAX_FUNCTIONS"
    using assms(1,4) by (simp_all add: vroot_inv_def)
  have other: "\<not> vf_online zero_function" "\<not> vf_online (initialize_config pf u d b dv g)" for u d b dv g
    by (simp_all add: zero_function_def initialize_config_def)
  from assms(2) show ?thesis
  proof (cases rule: vroot_call_cases)
    case (init d b n)
    then show ?thesis
      using assms(2,3,5,6) other by (auto simp: vroot_model_init_def split: if_splits)
  next
    case (add u g)
    show ?thesis
    proof (cases rule: vroot_add_cases [of pf u g m])
      case (added j)
      let ?f = "initialize_config pf u (vm_domain m) (vm_bus m) (push_bit 3 (of_nat j)) g"
      have "vm_functions m' = (vm_functions m)[j := ?f]"
        using assms(2) add added(5) by (auto simp: update_function_def)
      then show ?thesis
        using changed_by_update [of vf_online "vm_functions m" j ?f i] assms(5,6) other(2) by simp
    qed (use assms(2,5,6) add in auto)
  next
    case refused
    then show ?thesis using assms(5,6) by simp
  next
    case (stepped k f')
    have "flags_ok (vm_functions m ! k)"
      using inv_function(1) [OF assms(1) stepped(1,2)] by (simp add: function_ok_def)
    moreover have "k = i \<and> vf_online f'"
      using assms(5,6) stepped(5) changed_by_update [of vf_online "vm_functions m" k f' i]
      by (simp add: update_function_def)
    ultimately have "flags_ok (vm_functions m ! i)" "function_step x (vm_functions m ! i) f'" "vf_online f'"
      using stepped(4) by simp_all
    from this(2,1,3) assms(5) show ?thesis
      by cases (simp_all add: flags_ok_def other(1))
  qed
qed

text \<open>C15. A configuration write is what a read then sees: after an accepted write of a value, the
  same access reads the old value on the read-only bits and the written value on the writable
  ones; the accepted value sets no read-only bit.\<close>

theorem config_write_read:
  assumes "vroot_inv pf m" and "vroot_write_config k off w v m = (VS_Ok, m')"
    and "vroot_read_config k off w m = Inr old"
  defines "wm \<equiv> config_value (vf_writable_mask (vm_functions m ! unat k)) (unat off) (unat w)"
  shows "vroot_read_config k off w m' = Inr ((old AND NOT wm) OR take_bit (8 * unat w) v) \<and>
    take_bit (8 * unat w) v AND NOT wm = 0"
proof -
  let ?f = "vm_functions m ! unat k"
  have acc: "access_status off w = VS_Ok" and g: "get_function m k = Inr (unat k)"
    and pr: "vf_present ?f" and old: "old = config_value (vf_config ?f) (unat off) (unat w)"
    using assms(3) get_function_Inr [of m k]
    by (auto simp: vroot_read_config_def Let_def split: if_splits sum.splits)
  let ?cfg = "write_bytes (vf_writable_mask ?f) (unat off) (unat w) v (vf_config ?f)"
  have ok: "\<not> read_only_byte (vf_writable_mask ?f ! (unat off + i)) (byte_of v i)" if "i < unat w" for i
    using assms(2) that acc g pr
    by (auto simp: vroot_write_config_def Let_def list_ex_iff split: if_splits)
  have m': "m' = update_function (unat k) (?f\<lparr>vf_config := ?cfg\<rparr>) m"
    using assms(2) acc g pr by (auto simp: vroot_write_config_def Let_def split: if_splits)
  have i: "valid_model m" "unat k < unat (vm_max_functions m)" using get_function_Inr [OF g] by auto
  have len: "unat k < length (vm_functions m)" by (rule inv_function(2) [OF assms(1) i])
  have g': "get_function m' k = Inr (unat k)"
    using g by (simp add: m' get_function_update)
  have f': "vm_functions m' ! unat k = ?f\<lparr>vf_config := ?cfg\<rparr>"
    using len by (simp add: m' update_function_def)
  have "config_ok pf ?f"
    using inv_function(1) [OF assms(1) i] pr by (auto simp: function_ok_def flags_ok_def split: if_splits)
  then have bound: "unat off + unat w \<le> length (vf_config ?f)"
    using access_ok(3) [OF acc] by (simp add: config_ok_def MF_VROOT_CONFIG_SIZE_def)
  note w4 = access_ok(2) [OF acc]
  have inside: "bit v n \<Longrightarrow> n < 8 * unat w \<Longrightarrow> bit wm n" for n
  proof -
    assume b: "bit v n" "n < 8 * unat w"
    then have d: "n div 8 < unat w" by (simp add: less_mult_imp_div_less mult.commute)
    have "bit (byte_of v (n div 8)) (n mod 8)" using b by (simp add: bit_byte_of)
    moreover have "byte_of v (n div 8) AND NOT (vf_writable_mask ?f ! (unat off + n div 8)) = 0"
      using ok [OF d] by (simp add: read_only_byte_def)
    ultimately have "bit (vf_writable_mask ?f ! (unat off + n div 8)) (n mod 8)"
      by (auto dest!: arg_cong [where f = "\<lambda>x. bit x (n mod 8)"] simp: bit_simps)
    then show ?thesis using b w4 by (simp add: wm_def bit_config_value)
  qed
  have "config_value ?cfg (unat off) (unat w) = (old AND NOT wm) OR take_bit (8 * unat w) v"
  proof (rule bit_eqI)
    fix n assume "possible_bit TYPE(u32) n"
    then have n: "n < 32" by simp
    have d: "n div 8 < unat w" if "n < 8 * unat w" using that by (simp add: less_mult_imp_div_less mult.commute)
    show "bit (config_value ?cfg (unat off) (unat w)) n \<longleftrightarrow>
        bit ((old AND NOT wm) OR take_bit (8 * unat w) v) n"
      using inside [of n] n d w4
      by (cases "n < 8 * unat w")
        (auto simp: bit_config_value old wm_def write_bytes_nth [OF bound] bit_simps bit_byte_of)
  qed
  moreover have "take_bit (8 * unat w) v AND NOT wm = 0"
    by (rule bit_eqI) (use inside in \<open>auto simp: bit_simps\<close>)
  ultimately show ?thesis
    using acc g' f' pr by (simp add: vroot_read_config_def)
qed

theorem config_write_read_witness:
  "vroot_read_config 0 1 1 (snd (vroot_write_config 0 1 1 0x5a demo_vroot)) = Inr 0x5a"
proof -
  have w: "vroot_write_config 0 1 1 0x5a demo_vroot =
      (VS_Ok, snd (vroot_write_config 0 1 1 0x5a demo_vroot))"
  proof -
    have "fst (vroot_write_config 0 1 1 0x5a demo_vroot) = VS_Ok" by code_simp
    then show ?thesis by (metis prod.collapse)
  qed
  have r: "vroot_read_config 0 1 1 demo_vroot = Inr 0" by code_simp
  have "(0 AND NOT (config_value (vf_writable_mask (vm_functions demo_vroot ! unat (0 :: u8)))
      (unat (1 :: u16)) (unat (1 :: u8)))) OR take_bit (8 * unat (1 :: u8)) 0x5a = (0x5a :: u32)"
    by simp
  then show ?thesis using config_write_read [OF demo_vroot_inv w r] by metis
qed

text \<open>C32. The identity of a function cannot be rewritten: in every reachable state, whatever was
  written before, each successful configuration read agrees with the profile's template on all
  bits that the profile's mask does not make writable.\<close>

theorem read_only_bits_fixed:
  assumes "profile_ok pf" and "\<not> vm_initialized m0" and "run_ops (vroot_step pf) xs m0 = m"
    and "vroot_read_config k off w m = Inr x"
  defines "wm \<equiv> config_value (over_zeros (vp_writable_mask pf)) (unat off) (unat w)"
  shows "x AND NOT wm =
    config_value (over_zeros (vp_config_template pf)) (unat off) (unat w) AND NOT wm"
proof -
  let ?f = "vm_functions m ! unat k"
  have inv: "vroot_inv pf m" using vroot_reachable_inv [OF assms(1,2), of xs] assms(3) by simp
  have acc: "access_status off w = VS_Ok" and g: "get_function m k = Inr (unat k)"
    and pr: "vf_present ?f" and x: "x = config_value (vf_config ?f) (unat off) (unat w)"
    using assms(4) get_function_Inr [of m k]
    by (auto simp: vroot_read_config_def Let_def split: if_splits sum.splits)
  have i: "valid_model m" "unat k < unat (vm_max_functions m)" using get_function_Inr [OF g] by auto
  have ok: "config_ok pf ?f"
    using inv_function(1) [OF inv i] pr by (auto simp: function_ok_def flags_ok_def split: if_splits)
  note w4 = access_ok(2,3) [OF acc]
  have fixed_bit: "bit (vf_config ?f ! j) b = bit (over_zeros (vp_config_template pf) ! j) b"
    if "j < 256" "b < 8" "\<not> bit (over_zeros (vp_writable_mask pf) ! j) b" for j b
  proof -
    have "vf_config ?f ! j AND NOT (over_zeros (vp_writable_mask pf) ! j) =
        over_zeros (vp_config_template pf) ! j AND NOT (over_zeros (vp_writable_mask pf) ! j)"
      using ok that(1) unfolding config_ok_def MF_VROOT_CONFIG_SIZE_def by metis
    from arg_cong [OF this, of "\<lambda>y. bit y b"] that(2,3) show ?thesis by (simp add: bit_simps)
  qed
  show ?thesis
  proof (rule bit_eqI)
    fix n assume "possible_bit TYPE(u32) n"
    have "unat off + n div 8 < 256" if "n < 8 * unat w"
      using that w4 less_mult_imp_div_less [of n "unat w" 8] by (simp add: mult.commute)
    then show "bit (x AND NOT wm) n \<longleftrightarrow>
        bit (config_value (over_zeros (vp_config_template pf)) (unat off) (unat w) AND NOT wm) n"
      using fixed_bit [of "unat off + n div 8" "n mod 8"] w4(1)
      by (auto simp: x wm_def bit_config_value bit_simps)
  qed
qed

theorem read_only_bits_fixed_witness:
  "\<exists>x. vroot_read_config 0 0 1 demo_vroot = Inr x \<and>
     x AND NOT (config_value (over_zeros (vp_writable_mask demo_profile)) 0 1) =
     config_value (over_zeros (vp_config_template demo_profile)) 0 1 AND
       NOT (config_value (over_zeros (vp_writable_mask demo_profile)) 0 1)"
proof -
  have r: "vroot_read_config 0 0 1 demo_vroot = Inr 0x46" by code_simp
  from read_only_bits_fixed [OF demo_profile_ok demo_memory_fresh demo_vroot_def [symmetric] r] r
  show ?thesis by simp
qed

text \<open>C33. A call that reports an error changes nothing: whatever the call and its arguments, if
  the status is not OK the model is exactly what it was.\<close>

theorem failed_call_changes_nothing:
  assumes "vroot_call pf x m = (r, m')" and "r \<noteq> VS_Ok"
  shows "m' = m"
  using assms(1)
proof (cases rule: vroot_call_cases)
  case (init d b n)
  then show ?thesis using assms by (auto simp: vroot_model_init_def split: if_splits)
next
  case (add u g)
  then show ?thesis using assms by (cases rule: vroot_add_cases [of pf u g m]) auto
qed (use assms(2) in simp_all)

theorem failed_call_changes_nothing_witness:
  "fst (vroot_call demo_profile (Vroot_Write 0 0 1 1) demo_vroot) = VS_Read_Only \<and>
   snd (vroot_call demo_profile (Vroot_Write 0 0 1 1) demo_vroot) = demo_vroot"
proof -
  let ?r = "vroot_call demo_profile (Vroot_Write 0 0 1 1) demo_vroot"
  have r: "fst ?r = VS_Read_Only" by code_simp
  have "?r = (fst ?r, snd ?r)" by (simp only: prod.collapse)
  from failed_call_changes_nothing [OF this] r show ?thesis by simp
qed

lemma high_water_step:
  assumes "\<not> (\<exists>d b n. x = Vroot_Init d b n)"
  shows "vm_generation_high_water m \<le> vm_generation_high_water (vroot_step pf x m)"
proof -
  obtain r m' where c: "vroot_call pf x m = (r, m')" by (cases "vroot_call pf x m")
  then have s: "vroot_step pf x m = m'" by (simp add: vroot_step_def)
  from c show ?thesis
  proof (cases rule: vroot_call_cases)
    case (add u g)
    then show ?thesis using c unfolding s by (cases rule: vroot_add_cases [of pf u g m]) auto
  qed (use assms s in \<open>auto simp: update_function_def\<close>)
qed

text \<open>Generations are never reused on the bus: after a function was added under a generation,
  and after any calls other than an initialisation, an addition under that or an older generation
  is refused.\<close>

lemma vroot_generation_not_reused:
  assumes "vroot_add pf u g m = (VS_Ok, i, m1)"
    and "list_all (\<lambda>x. \<not> (\<exists>d b n. x = Vroot_Init d b n)) xs"
    and "run_ops (vroot_step pf) xs m1 = m2" and "g' \<le> g"
  shows "\<exists>r \<in> {VS_Invalid_Argument, VS_Stale}. vroot_add pf u' g' m2 = (r, None, m2)"
proof -
  have "vm_generation_high_water m1 = g"
    using assms(1) by (cases rule: vroot_add_cases [of pf u g m]) auto
  moreover have "vm_generation_high_water m1 \<le> vm_generation_high_water m2"
    using assms(2,3)
  proof (induction xs arbitrary: m1)
    case (Cons x xs)
    then show ?case using high_water_step [of x m1 pf] by fastforce
  qed simp
  ultimately have "g' \<le> vm_generation_high_water m2" using assms(4) by (meson order_trans)
  then show ?thesis by (auto simp: vroot_add_def)
qed

end
