(* ===== verification/QmpLifecycle.thy ===== *)
theory QmpLifecycle
  imports LifecycleIngress
begin

text \<open>
  The adapter between the hypervisor's control socket (QMP) and the lifecycle coordinator: a
  device addition or removal is sent to the hypervisor first, kept pending, and submitted to the
  coordinator when the matching reply arrives. The socket itself is a function on the
  environment that yields the next reply.
\<close>

section \<open>State\<close>

datatype qmp_reply_kind = DeviceAdded | DeviceDeleted | CommandFailed

datatype qmp_result = Qmp_Accepted | Qmp_Invalid | Qmp_Busy | Qmp_Pending | Qmp_Failed

datatype qmp_socket_result =
  Sock_Ok | Sock_Invalid | Sock_WouldBlock | Sock_Timeout | Sock_Malformed | Sock_Closed
  | Sock_IoError | Sock_Unexpected

record qmp_command =
  qc_command_id :: u64
  qc_event :: external_event

record qmp_reply =
  qr_command_id :: u64
  qr_kind :: qmp_reply_kind

record qmp_adapter =
  qa_pending :: bool
  qa_pending_command_id :: u64
  qa_expected_reply :: qmp_reply_kind
  qa_pending_event :: external_event
  qa_pending_request :: request

definition empty_event :: external_event where
  "empty_event = \<lparr>ev_request_id = 0, ev_logical_device_id = 0, ev_daemon_incarnation = 0,
     ev_expected_identity_record_id = 0, ev_expected_generation = 0, ev_expected_epoch = 0,
     ev_deadline_tick = 0, ev_kind = Ev_AdminAdd\<rparr>"


section \<open>Operations\<close>

fun map_lifecycle_result :: "lifecycle_result \<Rightarrow> qmp_result" where
  "map_lifecycle_result Accepted = Qmp_Accepted"
| "map_lifecycle_result Duplicate = Qmp_Accepted"
| "map_lifecycle_result Invalid = Qmp_Invalid"
| "map_lifecycle_result Stale = Qmp_Failed"
| "map_lifecycle_result Conflict = Qmp_Failed"
| "map_lifecycle_result ResourceExhausted = Qmp_Failed"
| "map_lifecycle_result CallbackRejected = Qmp_Failed"
| "map_lifecycle_result DeviceLost = Qmp_Failed"
| "map_lifecycle_result Timeout = Qmp_Failed"


definition from_ingress ::
    "u64 \<Rightarrow> u8 \<Rightarrow> u64 \<Rightarrow> 'e coordinator \<Rightarrow> producer_ingress \<Rightarrow> qmp_command \<times> producer_ingress" where
  "from_ingress command_id kind deadline_tick c p =
    (let (ev, p') = capture kind deadline_tick c p
     in (\<lparr>qc_command_id = command_id, qc_event = ev\<rparr>, p'))"

definition clear_pending :: "qmp_adapter \<Rightarrow> qmp_adapter" where
  "clear_pending a = a\<lparr>qa_pending := False, qa_pending_command_id := 0,
     qa_expected_reply := DeviceAdded, qa_pending_event := empty_event,
     qa_pending_request := empty_request\<rparr>"


definition qmp_complete :: "qmp_reply \<Rightarrow> qmp_adapter \<Rightarrow> qmp_result \<times> request \<times> qmp_adapter" where
  "qmp_complete reply a =
    (if \<not> qa_pending a \<or> qr_command_id reply = 0 \<or> qr_command_id reply \<noteq> qa_pending_command_id a
     then (if qa_pending a then Qmp_Pending else Qmp_Invalid, empty_request, a)
     else if qr_kind reply = CommandFailed then
       (if ev_kind (qa_pending_event a) = Ev_QmpAdd
        then (Qmp_Failed, empty_request, clear_pending a)
        else
          (let (n, rq) = normalize ((qa_pending_event a)\<lparr>ev_kind := Ev_QmpFailure\<rparr>)
           in (if n = Norm_Accepted then Qmp_Accepted else Qmp_Invalid, rq, clear_pending a)))
     else if qr_kind reply \<noteq> qa_expected_reply a then (Qmp_Pending, empty_request, a)
     else (Qmp_Accepted, qa_pending_request a, clear_pending a))"

definition rejected_details :: "'e coordinator \<Rightarrow> result_details" where
  "rejected_details c = empty_details\<lparr>rd_result := Invalid, rd_snapshot := snapshot c\<rparr>"

definition complete_and_submit ::
    "qmp_reply \<Rightarrow> qmp_adapter \<Rightarrow> 'e coordinator \<Rightarrow> 'e \<Rightarrow>
     qmp_result \<times> result_details \<times> qmp_adapter \<times> 'e coordinator \<times> 'e" where
  "complete_and_submit reply a c e =
    (if \<not> qa_pending a then (Qmp_Invalid, rejected_details c, a, c, e)
     else
       (let ev = qa_pending_event a; (result, rq, a') = qmp_complete reply a in
        if result \<noteq> Qmp_Accepted then (result, rejected_details c, a', c, e)
        else
          (let ev' = (if qr_kind reply = CommandFailed \<and> ev_kind ev = Ev_QmpRemove
                      then ev\<lparr>ev_kind := Ev_QmpFailure\<rparr> else ev);
               (n, d, c', e') = submit_external_event ev' c e in
           if n \<noteq> Norm_Accepted
           then (Qmp_Invalid, d\<lparr>rd_result := Invalid, rd_snapshot := snapshot c'\<rparr>, a', c', e')
           else (map_lifecycle_result (rd_result d), d, a', c', e'))))"

definition receive_and_submit ::
    "(u64 \<Rightarrow> 'e \<Rightarrow> qmp_socket_result \<times> qmp_reply \<times> 'e) \<Rightarrow> qmp_adapter \<Rightarrow> 'e coordinator \<Rightarrow> 'e \<Rightarrow>
     (qmp_socket_result \<times> qmp_result) \<times> result_details \<times> qmp_adapter \<times> 'e coordinator \<times> 'e" where
  "receive_and_submit receive_lifecycle_reply a c e =
    (if \<not> qa_pending a then ((Sock_Invalid, Qmp_Invalid), rejected_details c, a, c, e)
     else
       (let (transport, reply, e1) = receive_lifecycle_reply (qa_pending_command_id a) e in
        if transport \<noteq> Sock_Ok then ((transport, Qmp_Invalid), rejected_details c, a, c, e1)
        else
          (let (lifecycle, d, a', c', e') = complete_and_submit reply a c e1
           in ((transport, lifecycle), d, a', c', e'))))"

section \<open>Invariant\<close>

text \<open>What is pending is a normalized addition or removal with its expected reply.\<close>

definition adapter_inv :: "qmp_adapter \<Rightarrow> bool" where
  "adapter_inv a \<longleftrightarrow> (qa_pending a \<longrightarrow>
     qa_pending_command_id a \<noteq> 0 \<and>
     normalize (qa_pending_event a) = (Norm_Accepted, qa_pending_request a) \<and>
     (ev_kind (qa_pending_event a) = Ev_QmpAdd \<and> qa_expected_reply a = DeviceAdded \<or>
      ev_kind (qa_pending_event a) = Ev_QmpRemove \<and> qa_expected_reply a = DeviceDeleted))"


lemma clear_pending_inv [simp]: "adapter_inv (clear_pending a)" "\<not> qa_pending (clear_pending a)"
  by (simp_all add: adapter_inv_def clear_pending_def)









section \<open>What the adapter promises\<close>









end
