(* ===== verification/KernelIR.thy ===== *)
theory KernelIR
  imports Prelude
begin

text \<open>
  The Kernel IR of the compiler core (\<open>compiler/core/include/metaflux/compiler/kernel_ir.hpp\<close> and
  \<open>compiler/core/src/kernel_ir.cpp\<close>): its data, the contract of each operation, the verifier with
  every diagnostic it reports, and the canonical text. An enumeration-typed field may hold any
  32-bit number in the source, which is why the verifier checks it; such a field is the number
  here, read through the list of enumerators.
\<close>

section \<open>Enumerations\<close>

definition kKernelIrSchemaVersion :: u32 where
  "kKernelIrSchemaVersion = 2"

definition kNoValue :: u32 where
  "kNoValue = -1"

datatype parameter_kind = BufferU32 | ScalarU32 | ScalarF32

datatype value_kind = Predicate | U32 | U64 | F32 | GlobalAddress | SharedAddress

datatype special_register =
    ThreadIdX | ThreadIdY | BlockIdX | BlockIdY | BlockDimX | BlockDimY | GridDimX | GridDimY

datatype opcode =
    LoadParameterAddress | LoadParameterU32 | LoadParameterF32 | LoadSharedAddress
   | MoveSpecialU32 | MoveImmediateU32 | AbsS32 | AbsF32 | SqrtRnF32 | AddU32 | SubU32
   | MultiplyLoU32 | MadLoU32 | MultiplyWideU32 | MultiplyHiU32 | AddGlobalAddress
   | AddSharedAddress | AddRnF32 | SubRnF32 | DivRnF32 | MultiplyRnF32 | MadRnF32 | FmaRnF32
   | ConvertRnF32U32 | ConvertRziU32F32 | SetPredicateGeU32 | SetPredicateEqU32
   | SetPredicateLtF32 | SetPredicateGtS32 | SelectU32 | SelectF32 | BranchIf | LoadGlobalU32
   | StoreGlobalU32 | LoadGlobalF32 | StoreGlobalF32 | StoreGlobalU8 | StoreGlobalU64
   | LoadSharedU32 | StoreSharedU32 | BarrierSync | Return | ConvertRnF32S32 | ExpF32

definition opcode_enumerators :: "opcode list" where
  "opcode_enumerators = [
    LoadParameterAddress, LoadParameterU32, LoadParameterF32, LoadSharedAddress, MoveSpecialU32,
    MoveImmediateU32, AbsS32, AbsF32, SqrtRnF32, AddU32, SubU32, MultiplyLoU32, MadLoU32,
    MultiplyWideU32, MultiplyHiU32, AddGlobalAddress, AddSharedAddress, AddRnF32, SubRnF32,
    DivRnF32, MultiplyRnF32, MadRnF32, FmaRnF32, ConvertRnF32U32, ConvertRziU32F32,
    SetPredicateGeU32, SetPredicateEqU32, SetPredicateLtF32, SetPredicateGtS32, SelectU32,
    SelectF32, BranchIf, LoadGlobalU32, StoreGlobalU32, LoadGlobalF32, StoreGlobalF32,
    StoreGlobalU8, StoreGlobalU64, LoadSharedU32, StoreSharedU32, BarrierSync, Return,
    ConvertRnF32S32, ExpF32]"

definition enumerator :: "'e list \<Rightarrow> u32 \<Rightarrow> 'e option" where
  "enumerator es w = (if unat w < length es then Some (es ! unat w) else None)"

definition parameter_kind_of :: "u32 \<Rightarrow> parameter_kind option" where
  "parameter_kind_of = enumerator [BufferU32, ScalarU32, ScalarF32]"

definition value_kind_of :: "u32 \<Rightarrow> value_kind option" where
  "value_kind_of = enumerator [Predicate, U32, U64, F32, GlobalAddress, SharedAddress]"

definition opcode_of :: "u32 \<Rightarrow> opcode option" where
  "opcode_of = enumerator opcode_enumerators"

primrec special_register_code :: "special_register \<Rightarrow> u32" where
  "special_register_code ThreadIdX = 0"
| "special_register_code ThreadIdY = 1"
| "special_register_code BlockIdX = 2"
| "special_register_code BlockIdY = 3"
| "special_register_code BlockDimX = 4"
| "special_register_code BlockDimY = 5"
| "special_register_code GridDimX = 6"
| "special_register_code GridDimY = 7"

section \<open>Data\<close>

record source_location =
  loc_line :: u32
  loc_column :: u32

definition default_location :: source_location where
  "default_location = \<lparr>loc_line = 1, loc_column = 1\<rparr>"

text \<open>A \<open>std::array\<close> of three elements.\<close>

type_synonym 'a array3 = "'a \<times> 'a \<times> 'a"

fun at3 :: "'a array3 \<Rightarrow> nat \<Rightarrow> 'a" where
  "at3 (a, b, c) i = (if i = 0 then a else if i = 1 then b else c)"

record parameter =
  param_kind :: u32
  param_location :: source_location

record register =
  reg_kind :: u32
  reg_location :: source_location

record shared_allocation =
  sh_words :: u32
  sh_location :: source_location

record operation =
  op_opcode :: u32
  op_result :: u32
  op_inputs :: "u32 array3"
  op_input_count :: u32
  op_attribute :: u32
  op_flag :: bool
  op_predicate :: u32
  op_predicate_negated :: bool
  op_location :: source_location

record kernel =
  schema_version :: u32
  ptx_major :: u32
  ptx_minor :: u32
  kernel_name :: string
  parameters :: "parameter list"
  shared_allocations :: "shared_allocation list"
  registers :: "register list"
  operations :: "operation list"

datatype diagnostic_code =
    PtxSyntax | PtxUnsupportedVersion | PtxUnsupportedTarget | PtxUnsupportedInstruction
   | PtxDuplicateSymbol | PtxUnknownSymbol | PtxTypeMismatch | KernelIrSchemaMismatch
   | KernelIrInvalidKernel | KernelIrInvalidParameter | KernelIrInvalidRegister
   | KernelIrInvalidOperation | KernelIrOperandCount | KernelIrIndexOutOfRange
   | KernelIrTypeMismatch | KernelIrUseBeforeDefinition | KernelIrDuplicateDefinition
   | KernelIrInvalidControlFlow | KernelIrMissingReturn

primrec diagnostic_code_name :: "diagnostic_code \<Rightarrow> string" where
  "diagnostic_code_name PtxSyntax = ''MF_PTX_SYNTAX''"
| "diagnostic_code_name PtxUnsupportedVersion = ''MF_PTX_UNSUPPORTED_VERSION''"
| "diagnostic_code_name PtxUnsupportedTarget = ''MF_PTX_UNSUPPORTED_TARGET''"
| "diagnostic_code_name PtxUnsupportedInstruction = ''MF_PTX_UNSUPPORTED_INSTRUCTION''"
| "diagnostic_code_name PtxDuplicateSymbol = ''MF_PTX_DUPLICATE_SYMBOL''"
| "diagnostic_code_name PtxUnknownSymbol = ''MF_PTX_UNKNOWN_SYMBOL''"
| "diagnostic_code_name PtxTypeMismatch = ''MF_PTX_TYPE_MISMATCH''"
| "diagnostic_code_name KernelIrSchemaMismatch = ''MF_KIR_SCHEMA_MISMATCH''"
| "diagnostic_code_name KernelIrInvalidKernel = ''MF_KIR_INVALID_KERNEL''"
| "diagnostic_code_name KernelIrInvalidParameter = ''MF_KIR_INVALID_PARAMETER''"
| "diagnostic_code_name KernelIrInvalidRegister = ''MF_KIR_INVALID_REGISTER''"
| "diagnostic_code_name KernelIrInvalidOperation = ''MF_KIR_INVALID_OPERATION''"
| "diagnostic_code_name KernelIrOperandCount = ''MF_KIR_OPERAND_COUNT''"
| "diagnostic_code_name KernelIrIndexOutOfRange = ''MF_KIR_INDEX_OUT_OF_RANGE''"
| "diagnostic_code_name KernelIrTypeMismatch = ''MF_KIR_TYPE_MISMATCH''"
| "diagnostic_code_name KernelIrUseBeforeDefinition = ''MF_KIR_USE_BEFORE_DEFINITION''"
| "diagnostic_code_name KernelIrDuplicateDefinition = ''MF_KIR_DUPLICATE_DEFINITION''"
| "diagnostic_code_name KernelIrInvalidControlFlow = ''MF_KIR_INVALID_CONTROL_FLOW''"
| "diagnostic_code_name KernelIrMissingReturn = ''MF_KIR_MISSING_RETURN''"

record diagnostic =
  diag_code :: diagnostic_code
  diag_location :: source_location
  diag_message :: string
  diag_form :: string

section \<open>Names\<close>

fun parameter_kind_name :: "parameter_kind option \<Rightarrow> string" where
  "parameter_kind_name (Some BufferU32) = ''buffer_u32''"
| "parameter_kind_name (Some ScalarU32) = ''scalar_u32''"
| "parameter_kind_name (Some ScalarF32) = ''scalar_f32''"
| "parameter_kind_name None = ''invalid''"

fun value_kind_name :: "value_kind option \<Rightarrow> string" where
  "value_kind_name (Some Predicate) = ''predicate''"
| "value_kind_name (Some U32) = ''u32''"
| "value_kind_name (Some U64) = ''u64''"
| "value_kind_name (Some F32) = ''f32''"
| "value_kind_name (Some GlobalAddress) = ''global_address''"
| "value_kind_name (Some SharedAddress) = ''shared_address''"
| "value_kind_name None = ''invalid''"

fun opcode_name :: "opcode option \<Rightarrow> string" where
  "opcode_name (Some LoadParameterAddress) = ''load_parameter_address''"
| "opcode_name (Some LoadParameterU32) = ''load_parameter_u32''"
| "opcode_name (Some LoadParameterF32) = ''load_parameter_f32''"
| "opcode_name (Some LoadSharedAddress) = ''load_shared_address''"
| "opcode_name (Some MoveSpecialU32) = ''move_special_u32''"
| "opcode_name (Some MoveImmediateU32) = ''move_immediate_u32''"
| "opcode_name (Some AbsS32) = ''abs_s32''"
| "opcode_name (Some AbsF32) = ''abs_f32''"
| "opcode_name (Some SqrtRnF32) = ''sqrt_rn_f32''"
| "opcode_name (Some AddU32) = ''add_u32''"
| "opcode_name (Some SubU32) = ''sub_u32''"
| "opcode_name (Some MultiplyLoU32) = ''multiply_lo_u32''"
| "opcode_name (Some MultiplyHiU32) = ''multiply_hi_u32''"
| "opcode_name (Some MadLoU32) = ''mad_lo_u32''"
| "opcode_name (Some MultiplyWideU32) = ''multiply_wide_u32''"
| "opcode_name (Some AddGlobalAddress) = ''add_global_address''"
| "opcode_name (Some AddSharedAddress) = ''add_shared_address''"
| "opcode_name (Some AddRnF32) = ''add_rn_f32''"
| "opcode_name (Some SubRnF32) = ''sub_rn_f32''"
| "opcode_name (Some DivRnF32) = ''div_rn_f32''"
| "opcode_name (Some MultiplyRnF32) = ''multiply_rn_f32''"
| "opcode_name (Some MadRnF32) = ''mad_rn_f32''"
| "opcode_name (Some FmaRnF32) = ''fma_rn_f32''"
| "opcode_name (Some ConvertRnF32U32) = ''convert_rn_f32_u32''"
| "opcode_name (Some ConvertRnF32S32) = ''convert_rn_f32_s32''"
| "opcode_name (Some ExpF32) = ''exp_f32''"
| "opcode_name (Some ConvertRziU32F32) = ''convert_rzi_u32_f32''"
| "opcode_name (Some SetPredicateGeU32) = ''set_predicate_ge_u32''"
| "opcode_name (Some SetPredicateEqU32) = ''set_predicate_eq_u32''"
| "opcode_name (Some SetPredicateLtF32) = ''set_predicate_lt_f32''"
| "opcode_name (Some SetPredicateGtS32) = ''set_predicate_gt_s32''"
| "opcode_name (Some SelectU32) = ''select_u32''"
| "opcode_name (Some SelectF32) = ''select_f32''"
| "opcode_name (Some BranchIf) = ''branch_if''"
| "opcode_name (Some LoadGlobalU32) = ''load_global_u32''"
| "opcode_name (Some StoreGlobalU32) = ''store_global_u32''"
| "opcode_name (Some LoadGlobalF32) = ''load_global_f32''"
| "opcode_name (Some StoreGlobalF32) = ''store_global_f32''"
| "opcode_name (Some StoreGlobalU8) = ''store_global_u8''"
| "opcode_name (Some StoreGlobalU64) = ''store_global_u64''"
| "opcode_name (Some LoadSharedU32) = ''load_shared_u32''"
| "opcode_name (Some StoreSharedU32) = ''store_shared_u32''"
| "opcode_name (Some BarrierSync) = ''barrier_sync''"
| "opcode_name (Some Return) = ''return''"
| "opcode_name None = ''invalid''"

text \<open>Unsigned decimal output, as \<open>std::to_string\<close> and the stream inserters print it.\<close>

definition digit_char :: "nat \<Rightarrow> char" where
  "digit_char d = char_of (48 + d)"

fun decimal :: "nat \<Rightarrow> string" where
  "decimal n = (if n < 10 then [digit_char n] else decimal (n div 10) @ [digit_char (n mod 10)])"

declare decimal.simps [simp del]

abbreviation dec32 :: "u32 \<Rightarrow> string" where
  "dec32 w \<equiv> decimal (unat w)"

section \<open>Operation contracts\<close>

record contract_record =
  has_result :: bool
  result_kind :: value_kind
  input_kinds :: "value_kind array3"
  input_count :: u32

definition contract :: "bool \<Rightarrow> value_kind \<Rightarrow> value_kind array3 \<Rightarrow> u32 \<Rightarrow> contract_record" where
  [simp]: "contract r k is n =
    \<lparr>has_result = r, result_kind = k, input_kinds = is, input_count = n\<rparr>"

abbreviation no_kinds :: "value_kind array3" where
  "no_kinds \<equiv> (Predicate, Predicate, Predicate)"

fun operation_contract :: "opcode option \<Rightarrow> contract_record" where
  "operation_contract (Some LoadParameterAddress) = contract True GlobalAddress no_kinds 0"
| "operation_contract (Some LoadParameterU32) = contract True U32 no_kinds 0"
| "operation_contract (Some LoadParameterF32) = contract True F32 no_kinds 0"
| "operation_contract (Some LoadSharedAddress) = contract True SharedAddress no_kinds 0"
| "operation_contract (Some MoveSpecialU32) = contract True U32 no_kinds 0"
| "operation_contract (Some MoveImmediateU32) = contract True U32 no_kinds 0"
| "operation_contract (Some AbsS32) = contract True U32 (U32, U32, U32) 1"
| "operation_contract (Some AbsF32) = contract True F32 (F32, U32, U32) 1"
| "operation_contract (Some SqrtRnF32) = contract True F32 (F32, U32, U32) 1"
| "operation_contract (Some AddU32) = contract True U32 (U32, U32, U32) 2"
| "operation_contract (Some SubU32) = contract True U32 (U32, U32, U32) 2"
| "operation_contract (Some MultiplyLoU32) = contract True U32 (U32, U32, U32) 2"
| "operation_contract (Some MultiplyHiU32) = contract True U32 (U32, U32, U32) 2"
| "operation_contract (Some MadLoU32) = contract True U32 (U32, U32, U32) 3"
| "operation_contract (Some MultiplyWideU32) = contract True U64 (U32, U32, U32) 1"
| "operation_contract (Some AddGlobalAddress) = contract True GlobalAddress (GlobalAddress, U64, U32) 2"
| "operation_contract (Some AddSharedAddress) = contract True SharedAddress (SharedAddress, U32, U32) 2"
| "operation_contract (Some AddRnF32) = contract True F32 (F32, F32, U32) 2"
| "operation_contract (Some SubRnF32) = contract True F32 (F32, F32, U32) 2"
| "operation_contract (Some DivRnF32) = contract True F32 (F32, F32, U32) 2"
| "operation_contract (Some MultiplyRnF32) = contract True F32 (F32, F32, U32) 2"
| "operation_contract (Some MadRnF32) = contract True F32 (F32, F32, F32) 3"
| "operation_contract (Some FmaRnF32) = contract True F32 (F32, F32, F32) 3"
| "operation_contract (Some ConvertRnF32U32) = contract True F32 (U32, U32, U32) 1"
| "operation_contract (Some ConvertRnF32S32) = contract True F32 (U32, U32, U32) 1"
| "operation_contract (Some ExpF32) = contract True F32 (F32, U32, U32) 1"
| "operation_contract (Some ConvertRziU32F32) = contract True U32 (F32, U32, U32) 1"
| "operation_contract (Some SetPredicateGeU32) = contract True Predicate (U32, U32, U32) 2"
| "operation_contract (Some SetPredicateEqU32) = contract True Predicate (U32, U32, U32) 2"
| "operation_contract (Some SetPredicateLtF32) = contract True Predicate (F32, F32, U32) 2"
| "operation_contract (Some SetPredicateGtS32) = contract True Predicate (U32, U32, U32) 2"
| "operation_contract (Some SelectU32) = contract True U32 (U32, U32, Predicate) 3"
| "operation_contract (Some SelectF32) = contract True F32 (F32, F32, Predicate) 3"
| "operation_contract (Some BranchIf) = contract False U32 (Predicate, U32, U32) 1"
| "operation_contract (Some LoadGlobalU32) = contract True U32 (GlobalAddress, U32, U32) 1"
| "operation_contract (Some StoreGlobalU32) = contract False U32 (GlobalAddress, U32, U32) 2"
| "operation_contract (Some LoadGlobalF32) = contract True F32 (GlobalAddress, U32, U32) 1"
| "operation_contract (Some StoreGlobalF32) = contract False U32 (GlobalAddress, F32, U32) 2"
| "operation_contract (Some StoreGlobalU8) = contract False U32 (GlobalAddress, U32, U32) 2"
| "operation_contract (Some StoreGlobalU64) = contract False U32 (GlobalAddress, U64, U32) 2"
| "operation_contract (Some LoadSharedU32) = contract True U32 (SharedAddress, U32, U32) 1"
| "operation_contract (Some StoreSharedU32) = contract False U32 (SharedAddress, U32, U32) 2"
| "operation_contract (Some BarrierSync) = contract False U32 no_kinds 0"
| "operation_contract (Some Return) = contract False U32 no_kinds 0"
| "operation_contract None = contract False U32 no_kinds 0"

definition valid_parameter_kind :: "u32 \<Rightarrow> bool" where
  "valid_parameter_kind w \<longleftrightarrow> parameter_kind_of w = Some BufferU32 \<or>
    parameter_kind_of w = Some ScalarU32 \<or> parameter_kind_of w = Some ScalarF32"

definition valid_value_kind :: "u32 \<Rightarrow> bool" where
  "valid_value_kind w \<longleftrightarrow> value_kind_of w = Some Predicate \<or> value_kind_of w = Some U32 \<or>
    value_kind_of w = Some U64 \<or> value_kind_of w = Some F32 \<or>
    value_kind_of w = Some GlobalAddress \<or> value_kind_of w = Some SharedAddress"

definition may_be_predicated :: "opcode option \<Rightarrow> bool" where
  "may_be_predicated c \<longleftrightarrow>
    c = Some StoreGlobalU32 \<or> c = Some StoreGlobalU64 \<or> c = Some StoreSharedU32"

definition is_valid_opcode :: "u32 \<Rightarrow> bool" where
  "is_valid_opcode w \<longleftrightarrow> w \<le> 43"

abbreviation char_code :: "char \<Rightarrow> nat" where
  "char_code \<equiv> of_char"

definition is_alpha :: "char \<Rightarrow> bool" where
  "is_alpha c \<longleftrightarrow> char_code c \<in> {char_code CHR ''A''..char_code CHR ''Z''} \<or>
    char_code c \<in> {char_code CHR ''a''..char_code CHR ''z''}"

definition is_digit :: "char \<Rightarrow> bool" where
  "is_digit c \<longleftrightarrow> char_code c \<in> {char_code CHR ''0''..char_code CHR ''9''}"

fun valid_kernel_name :: "string \<Rightarrow> bool" where
  "valid_kernel_name [] = False"
| "valid_kernel_name (c # cs) = ((is_alpha c \<or> c = CHR ''_'' \<or> c = CHR ''$'') \<and>
    (\<forall>d \<in> set cs. is_alpha d \<or> is_digit d \<or> d = CHR ''_'' \<or> d = CHR ''$''))"

section \<open>The verifier\<close>

text \<open>
  The verifier collects diagnostics and never stops early. A check is the list of diagnostics it
  appends, and the checks are concatenated in the order of the source.
\<close>

definition kMaximumParameters :: nat where "kMaximumParameters = 64"
definition kMaximumSharedAllocations :: nat where "kMaximumSharedAllocations = 64"
definition kMaximumSharedWords :: u64 where "kMaximumSharedWords = 49152 div 4"
definition kMaximumRegisters :: nat where "kMaximumRegisters = 4096"
definition kMaximumOperations :: nat where "kMaximumOperations = 65536"

lemmas kernel_limits = kMaximumParameters_def kMaximumSharedAllocations_def
  kMaximumSharedWords_def kMaximumRegisters_def kMaximumOperations_def

definition report_if ::
  "bool \<Rightarrow> diagnostic_code \<Rightarrow> source_location \<Rightarrow> string \<Rightarrow> string \<Rightarrow> diagnostic list" where
  "report_if bad code location message form = (if bad then
    [\<lparr>diag_code = code, diag_location = location, diag_message = message, diag_form = form\<rparr>] else [])"

lemma report_if_Nil [simp]: "report_if bad c l m f = [] \<longleftrightarrow> \<not> bad"
  by (simp add: report_if_def)

fun verify_shared :: "u64 \<Rightarrow> shared_allocation list \<Rightarrow> diagnostic list" where
  "verify_shared sum0 [] = []"
| "verify_shared sum0 (a # as) = (let sum' = sum0 + widen (sh_words a) in
    report_if (sh_words a = 0 \<or> kMaximumSharedWords < sum') KernelIrInvalidKernel (sh_location a)
      ''static shared storage must be non-empty and at most 49152 bytes'' [] @
    verify_shared sum' as)"

definition has_opcode :: "opcode \<Rightarrow> operation list \<Rightarrow> bool" where
  "has_opcode c ops \<longleftrightarrow> list_ex (\<lambda>op. opcode_of (op_opcode op) = Some c) ops"

definition verify_header :: "kernel \<Rightarrow> diagnostic list" where
  "verify_header k =
    report_if (schema_version k \<noteq> kKernelIrSchemaVersion) KernelIrSchemaMismatch default_location
      ''Kernel IR schema version is not supported'' (dec32 (schema_version k)) @
    report_if (ptx_major k \<noteq> 9 \<or> ptx_minor k \<noteq> 0) KernelIrInvalidKernel default_location
      ''Kernel IR v2 requires PTX 9.0 source semantics''
      (dec32 (ptx_major k) @ ''.'' @ dec32 (ptx_minor k)) @
    report_if (\<not> valid_kernel_name (kernel_name k)) KernelIrInvalidKernel default_location
      ''kernel name is empty or malformed'' (kernel_name k) @
    report_if (kMaximumParameters < length (parameters k)) KernelIrInvalidParameter
      default_location ''parameter count exceeds the Kernel IR v2 bound'' [] @
    report_if (kMaximumSharedAllocations < length (shared_allocations k)) KernelIrInvalidKernel
      default_location ''shared allocation count exceeds the Kernel IR v2 bound'' [] @
    verify_shared 0 (shared_allocations k) @
    report_if (kMaximumRegisters < length (registers k)) KernelIrInvalidRegister
      default_location ''register count exceeds the Kernel IR v2 bound'' [] @
    report_if (operations k = [] \<or> kMaximumOperations < length (operations k))
      KernelIrInvalidOperation default_location
      ''operation count is empty or exceeds the Kernel IR v2 bound'' [] @
    concat (map (\<lambda>p. report_if (\<not> valid_parameter_kind (param_kind p)) KernelIrInvalidParameter
      (param_location p) ''parameter has an invalid kind'' []) (parameters k)) @
    concat (map (\<lambda>r. report_if (\<not> valid_value_kind (reg_kind r)) KernelIrInvalidRegister
      (reg_location r) ''register has an invalid value kind'' []) (registers k)) @
    report_if (has_opcode BarrierSync (operations k) \<and> has_opcode BranchIf (operations k))
      KernelIrInvalidControlFlow default_location
      ''Kernel IR v2 requires unconditional full-CTA barrier participation'' []"

text \<open>The result register: its diagnostics, and which registers are defined afterwards.\<close>

definition verify_result ::
  "kernel \<Rightarrow> operation \<Rightarrow> bool list \<Rightarrow> diagnostic list \<times> bool list" where
  "verify_result k op defined = (let c = operation_contract (opcode_of (op_opcode op));
      r = unat (op_result op); name = opcode_name (opcode_of (op_opcode op)) in
    if has_result c then
      if length (registers k) \<le> r then
        (report_if True KernelIrIndexOutOfRange (op_location op)
          ''operation result register is out of range'' [], defined)
      else
        (report_if (value_kind_of (reg_kind (registers k ! r)) \<noteq> Some (result_kind c))
          KernelIrTypeMismatch (op_location op) ''operation result has the wrong value kind'' name @
         report_if (defined ! r) KernelIrDuplicateDefinition (op_location op)
          ''register is defined more than once'' (dec32 (op_result op)),
         if defined ! r then defined else defined[r := True])
    else
      (report_if (op_result op \<noteq> kNoValue) KernelIrInvalidOperation (op_location op)
        ''operation must not define a result'' name, defined))"

definition verify_input :: "kernel \<Rightarrow> operation \<Rightarrow> bool list \<Rightarrow> nat \<Rightarrow> diagnostic list" where
  "verify_input k op defined i = (let c = operation_contract (opcode_of (op_opcode op));
      r = unat (at3 (op_inputs op) i) in
    if length (registers k) \<le> r then
      report_if True KernelIrIndexOutOfRange (op_location op)
        ''operation input register is out of range'' (decimal r)
    else
      report_if (i < unat (input_count c) \<and>
          value_kind_of (reg_kind (registers k ! r)) \<noteq> Some (at3 (input_kinds c) i))
        KernelIrTypeMismatch (op_location op) ''operation input has the wrong value kind''
        (opcode_name (opcode_of (op_opcode op))) @
      report_if (\<not> defined ! r) KernelIrUseBeforeDefinition (op_location op)
        ''operation reads a register before its definition'' (decimal r))"

definition verify_guard :: "kernel \<Rightarrow> operation \<Rightarrow> bool list \<Rightarrow> diagnostic list" where
  "verify_guard k op defined = (let p = unat (op_predicate op) in
    if op_predicate op \<noteq> kNoValue then
      if \<not> may_be_predicated (opcode_of (op_opcode op)) then
        report_if True KernelIrInvalidOperation (op_location op)
          ''only advertised global/shared u32 store forms may carry an operation guard'' []
      else if length (registers k) \<le> p then
        report_if True KernelIrIndexOutOfRange (op_location op)
          ''operation predicate register is out of range'' []
      else
        report_if (value_kind_of (reg_kind (registers k ! p)) \<noteq> Some Predicate)
          KernelIrTypeMismatch (op_location op)
          ''operation guard must be a predicate register'' [] @
        report_if (\<not> defined ! p) KernelIrUseBeforeDefinition (op_location op)
          ''operation guard reads a predicate before its definition'' []
    else
      report_if (op_predicate_negated op) KernelIrInvalidOperation (op_location op)
        ''predicate negation requires an operation guard'' [])"

definition parameter_differs :: "kernel \<Rightarrow> u32 \<Rightarrow> parameter_kind \<Rightarrow> bool" where
  "parameter_differs k a pk \<longleftrightarrow> length (parameters k) \<le> unat a \<or>
    unat a < length (parameters k) \<and> parameter_kind_of (param_kind (parameters k ! unat a)) \<noteq> Some pk"

definition verify_attribute :: "kernel \<Rightarrow> nat \<Rightarrow> operation \<Rightarrow> diagnostic list" where
  "verify_attribute k index op = (let a = op_attribute op; loc = op_location op;
      c = opcode_of (op_opcode op) in
    if c = Some LoadParameterAddress then
      report_if (parameter_differs k a BufferU32) KernelIrInvalidParameter loc
        ''address load must reference a buffer_u32 parameter'' []
    else if c = Some LoadParameterU32 then
      report_if (parameter_differs k a ScalarU32) KernelIrInvalidParameter loc
        ''u32 load must reference a scalar_u32 parameter'' []
    else if c = Some LoadParameterF32 then
      report_if (parameter_differs k a ScalarF32) KernelIrInvalidParameter loc
        ''f32 load must reference a scalar_f32 parameter'' []
    else if c = Some LoadSharedAddress then
      report_if (length (shared_allocations k) \<le> unat a) KernelIrIndexOutOfRange loc
        ''shared allocation selector is out of range'' []
    else if c = Some MoveSpecialU32 then
      report_if (special_register_code GridDimY < a) KernelIrInvalidOperation loc
        ''special-register selector is invalid'' []
    else if c = Some BranchIf then
      report_if (unat a \<le> index \<or> length (operations k) \<le> unat a \<or>
          unat a < length (operations k) \<and>
            opcode_of (op_opcode (operations k ! unat a)) \<noteq> Some Return)
        KernelIrInvalidControlFlow loc
        ''Kernel IR v2 branches must target the final return guard'' []
    else if c = Some BarrierSync then
      report_if (a \<noteq> 0) KernelIrInvalidOperation loc ''only bar.sync 0 is in the PTX manifest'' []
    else if c = Some Return then
      report_if (index + 1 \<noteq> length (operations k)) KernelIrInvalidControlFlow loc
        ''Kernel IR v2 return must be the final operation'' []
    else [])"

definition verify_operation ::
  "kernel \<Rightarrow> nat \<Rightarrow> operation \<Rightarrow> bool list \<Rightarrow> diagnostic list \<times> bool list" where
  "verify_operation k index op defined = (let c = operation_contract (opcode_of (op_opcode op));
      (result_diagnostics, defined') = verify_result k op defined in
    (report_if (\<not> is_valid_opcode (op_opcode op)) KernelIrInvalidOperation (op_location op)
       ''operation opcode is invalid'' [] @
     report_if (op_input_count op \<noteq> input_count c \<or> 3 < op_input_count op) KernelIrOperandCount
       (op_location op) ''operation has the wrong operand count''
       (opcode_name (opcode_of (op_opcode op))) @
     result_diagnostics @
     concat (map (verify_input k op defined') [0..<min (unat (op_input_count op)) 3]) @
     verify_guard k op defined' @
     verify_attribute k index op @
     report_if (opcode_of (op_opcode op) \<noteq> Some BranchIf \<and> op_flag op) KernelIrInvalidOperation
       (op_location op) ''only branch_if may carry the branch-negation flag'' [],
     defined'))"

fun verify_operations :: "kernel \<Rightarrow> nat \<Rightarrow> operation list \<Rightarrow> bool list \<Rightarrow> diagnostic list" where
  "verify_operations k index [] defined = []"
| "verify_operations k index (op # ops) defined =
    (let (ds, defined') = verify_operation k index op defined in
     ds @ verify_operations k (Suc index) ops defined')"

definition verify_kernel :: "kernel \<Rightarrow> diagnostic list" where
  "verify_kernel k =
    verify_header k @
    verify_operations k 0 (operations k) (replicate (length (registers k)) False) @
    report_if (operations k = [] \<or> opcode_of (op_opcode (last (operations k))) \<noteq> Some Return)
      KernelIrMissingReturn default_location ''kernel must end with return'' []"

section \<open>The canonical text\<close>

definition newline :: string where
  "newline = [CHR 0x0A]"

definition optional_register :: "u32 \<Rightarrow> string" where
  "optional_register w = (if w = kNoValue then ''-'' else dec32 w)"

definition bool_digit :: "bool \<Rightarrow> string" where
  "bool_digit b = (if b then ''1'' else ''0'')"

definition serialize_operation :: "operation \<Rightarrow> string" where
  "serialize_operation op =
    ''OP '' @ opcode_name (opcode_of (op_opcode op)) @ '' '' @ optional_register (op_result op) @
    '' '' @ dec32 (op_input_count op) @
    concat (map (\<lambda>i. '' '' @ dec32 (at3 (op_inputs op) i)) [0..<unat (op_input_count op)]) @
    '' '' @ dec32 (op_attribute op) @ '' '' @ bool_digit (op_flag op) @ '' '' @
    optional_register (op_predicate op) @ '' '' @ bool_digit (op_predicate_negated op) @ newline"

definition serialize_text :: "kernel \<Rightarrow> string" where
  "serialize_text k =
    ''MFKIR '' @ dec32 kKernelIrSchemaVersion @ newline @
    ''PTX '' @ dec32 (ptx_major k) @ '' '' @ dec32 (ptx_minor k) @ newline @
    ''KERNEL '' @ kernel_name k @ newline @
    ''PARAMETERS '' @ decimal (length (parameters k)) @ newline @
    concat (map (\<lambda>p. ''PARAMETER '' @ parameter_kind_name (parameter_kind_of (param_kind p)) @
      newline) (parameters k)) @
    ''SHARED_ALLOCATIONS '' @ decimal (length (shared_allocations k)) @ newline @
    concat (map (\<lambda>a. ''SHARED_U32 '' @ dec32 (sh_words a) @ newline) (shared_allocations k)) @
    ''REGISTERS '' @ decimal (length (registers k)) @ newline @
    concat (map (\<lambda>r. ''REGISTER '' @ value_kind_name (value_kind_of (reg_kind r)) @ newline)
      (registers k)) @
    ''OPERATIONS '' @ decimal (length (operations k)) @ newline @
    concat (map serialize_operation (operations k)) @
    ''END'' @ newline"

text \<open>The text, or the diagnostics because of which there is none.\<close>

definition serialize_kernel :: "kernel \<Rightarrow> diagnostic list + string" where
  "serialize_kernel k = (let diagnostics = verify_kernel k in
    if diagnostics \<noteq> [] then Inl diagnostics else Inr (serialize_text k))"

end
