(* ===== verification/CpuKernel.thy ===== *)
theory CpuKernel
  imports KernelIR
begin

text \<open>
  How the CPU interpreter (\<open>plugins/backend/cpu/runtime/src/interpreter.cpp\<close>) reads a kernel: the
  token reader, the parser of the canonical text and the second, independent validator. The
  interpreter's enumerations have the same members as the compiler's in another order; only the
  members matter here, since the parser produces nothing else.
\<close>

section \<open>Data\<close>

datatype execution_error =
    InvalidArtifact | SchemaMismatch | UnsupportedOperation | InvalidLaunch | ArgumentCount
  | ArgumentType | AddressOverflow | MisalignedAddress | OutOfBounds | WriteToReadOnly
  | BarrierDivergence | UnsupportedFpEnvironment | StepLimit | PlacementUnavailable
  | PlacementPinLost | System | Cancelled

record execution_diagnostic =
  ed_error :: execution_error
  ed_operation :: u32
  ed_block_x :: u32
  ed_block_y :: u32
  ed_thread_x :: u32
  ed_thread_y :: u32

record cpu_operation =
  cop_opcode :: opcode
  cop_result :: u32
  cop_inputs :: "u32 array3"
  cop_input_count :: u32
  cop_attribute :: u32
  cop_flag :: bool
  cop_predicate :: u32
  cop_predicate_negated :: bool

record cpu_kernel =
  cpu_parameters :: "parameter_kind list"
  cpu_shared_words :: "u32 list"
  cpu_registers :: "value_kind list"
  cpu_operations :: "cpu_operation list"

definition kMaximumArtifactBytes :: nat where
  "kMaximumArtifactBytes = 4 * 1024 * 1024"

section \<open>Tokens\<close>

definition is_space :: "char \<Rightarrow> bool" where
  "is_space c \<longleftrightarrow> c = CHR '' '' \<or> char_code c \<in> {9..13}"

text \<open>The reader is the unread rest of the text.\<close>

definition take_token :: "string \<Rightarrow> (string \<times> string) option" where
  "take_token s = (let t = dropWhile is_space s in
    if t = [] then None
    else Some (takeWhile (\<lambda>c. \<not> is_space c) t, dropWhile (\<lambda>c. \<not> is_space c) t))"

definition expect :: "string \<Rightarrow> string \<Rightarrow> string option" where
  "expect expected s = (case take_token s of
      Some (t, s') \<Rightarrow> if t = expected then Some s' else None
    | None \<Rightarrow> None)"

definition exhausted :: "string \<Rightarrow> bool" where
  "exhausted s \<longleftrightarrow> take_token s = None"

definition decimal_value :: "string \<Rightarrow> nat" where
  "decimal_value = foldl (\<lambda>n c. 10 * n + (char_code c - 48)) 0"

definition parse_u32 :: "string \<Rightarrow> u32 option" where
  "parse_u32 t = (if t \<noteq> [] \<and> list_all is_digit t \<and> decimal_value t < 2 ^ 32
    then Some (of_nat (decimal_value t)) else None)"

definition parse_bool :: "string \<Rightarrow> bool option" where
  "parse_bool t = (if t = ''0'' then Some False else if t = ''1'' then Some True else None)"

definition parse_parameter_kind :: "string \<Rightarrow> parameter_kind option" where
  "parse_parameter_kind t =
    (if t = ''buffer_u32'' then Some BufferU32
     else if t = ''scalar_u32'' then Some ScalarU32
     else if t = ''scalar_f32'' then Some ScalarF32 else None)"

definition parse_value_kind :: "string \<Rightarrow> value_kind option" where
  "parse_value_kind t =
    (if t = ''predicate'' then Some Predicate
     else if t = ''u32'' then Some U32
     else if t = ''u64'' then Some U64
     else if t = ''f32'' then Some F32
     else if t = ''global_address'' then Some GlobalAddress
     else if t = ''shared_address'' then Some SharedAddress else None)"

definition opcode_entries :: "(string \<times> opcode) list" where
  "opcode_entries = [
    (''load_parameter_address'', LoadParameterAddress),
    (''load_parameter_u32'', LoadParameterU32),
    (''load_parameter_f32'', LoadParameterF32),
    (''load_shared_address'', LoadSharedAddress),
    (''move_special_u32'', MoveSpecialU32),
    (''move_immediate_u32'', MoveImmediateU32),
    (''abs_s32'', AbsS32),
    (''abs_f32'', AbsF32),
    (''sqrt_rn_f32'', SqrtRnF32),
    (''exp_f32'', ExpF32),
    (''add_u32'', AddU32),
    (''sub_u32'', SubU32),
    (''multiply_lo_u32'', MultiplyLoU32),
    (''multiply_hi_u32'', MultiplyHiU32),
    (''mad_lo_u32'', MadLoU32),
    (''multiply_wide_u32'', MultiplyWideU32),
    (''add_global_address'', AddGlobalAddress),
    (''add_shared_address'', AddSharedAddress),
    (''add_rn_f32'', AddRnF32),
    (''sub_rn_f32'', SubRnF32),
    (''div_rn_f32'', DivRnF32),
    (''multiply_rn_f32'', MultiplyRnF32),
    (''mad_rn_f32'', MadRnF32),
    (''fma_rn_f32'', FmaRnF32),
    (''convert_rn_f32_u32'', ConvertRnF32U32),
    (''convert_rn_f32_s32'', ConvertRnF32S32),
    (''convert_rzi_u32_f32'', ConvertRziU32F32),
    (''set_predicate_ge_u32'', SetPredicateGeU32),
    (''set_predicate_eq_u32'', SetPredicateEqU32),
    (''set_predicate_lt_f32'', SetPredicateLtF32),
    (''set_predicate_gt_s32'', SetPredicateGtS32),
    (''select_u32'', SelectU32),
    (''select_f32'', SelectF32),
    (''branch_if'', BranchIf),
    (''load_global_u32'', LoadGlobalU32),
    (''store_global_u32'', StoreGlobalU32),
    (''load_global_f32'', LoadGlobalF32),
    (''store_global_f32'', StoreGlobalF32),
    (''store_global_u8'', StoreGlobalU8),
    (''store_global_u64'', StoreGlobalU64),
    (''load_shared_u32'', LoadSharedU32),
    (''store_shared_u32'', StoreSharedU32),
    (''barrier_sync'', BarrierSync),
    (''return'', Return)]"

definition parse_opcode :: "string \<Rightarrow> opcode option" where
  "parse_opcode t = map_option snd (find (\<lambda>entry. fst entry = t) opcode_entries)"

definition take_u32 :: "string \<Rightarrow> (u32 \<times> string) option" where
  "take_u32 s = (case take_token s of
      Some (t, s') \<Rightarrow> map_option (\<lambda>v. (v, s')) (parse_u32 t)
    | None \<Rightarrow> None)"

definition take_u32_where :: "(u32 \<Rightarrow> bool) \<Rightarrow> string \<Rightarrow> (u32 \<times> string) option" where
  "take_u32_where P s = (case take_u32 s of
      Some (v, s') \<Rightarrow> if P v then Some (v, s') else None
    | None \<Rightarrow> None)"

definition take_as :: "(string \<Rightarrow> 'a option) \<Rightarrow> string \<Rightarrow> ('a \<times> string) option" where
  "take_as f s = (case take_token s of
      Some (t, s') \<Rightarrow> map_option (\<lambda>v. (v, s')) (f t)
    | None \<Rightarrow> None)"

section \<open>Contracts and validation\<close>

fun cpu_operation_contract :: "opcode \<Rightarrow> contract_record" where
  "cpu_operation_contract LoadParameterAddress = contract True GlobalAddress no_kinds 0"
| "cpu_operation_contract LoadParameterU32 = contract True U32 no_kinds 0"
| "cpu_operation_contract LoadParameterF32 = contract True F32 no_kinds 0"
| "cpu_operation_contract LoadSharedAddress = contract True SharedAddress no_kinds 0"
| "cpu_operation_contract MoveSpecialU32 = contract True U32 no_kinds 0"
| "cpu_operation_contract MoveImmediateU32 = contract True U32 no_kinds 0"
| "cpu_operation_contract AbsS32 = contract True U32 (U32, U32, U32) 1"
| "cpu_operation_contract AbsF32 = contract True F32 (F32, U32, U32) 1"
| "cpu_operation_contract SqrtRnF32 = contract True F32 (F32, U32, U32) 1"
| "cpu_operation_contract ExpF32 = contract True F32 (F32, U32, U32) 1"
| "cpu_operation_contract AddU32 = contract True U32 (U32, U32, U32) 2"
| "cpu_operation_contract SubU32 = contract True U32 (U32, U32, U32) 2"
| "cpu_operation_contract MultiplyLoU32 = contract True U32 (U32, U32, U32) 2"
| "cpu_operation_contract MultiplyHiU32 = contract True U32 (U32, U32, U32) 2"
| "cpu_operation_contract MadLoU32 = contract True U32 (U32, U32, U32) 3"
| "cpu_operation_contract MultiplyWideU32 = contract True U64 (U32, U32, U32) 1"
| "cpu_operation_contract AddGlobalAddress = contract True GlobalAddress (GlobalAddress, U64, U32) 2"
| "cpu_operation_contract AddSharedAddress = contract True SharedAddress (SharedAddress, U32, U32) 2"
| "cpu_operation_contract AddRnF32 = contract True F32 (F32, F32, U32) 2"
| "cpu_operation_contract SubRnF32 = contract True F32 (F32, F32, U32) 2"
| "cpu_operation_contract DivRnF32 = contract True F32 (F32, F32, U32) 2"
| "cpu_operation_contract MultiplyRnF32 = contract True F32 (F32, F32, U32) 2"
| "cpu_operation_contract MadRnF32 = contract True F32 (F32, F32, F32) 3"
| "cpu_operation_contract FmaRnF32 = contract True F32 (F32, F32, F32) 3"
| "cpu_operation_contract ConvertRnF32U32 = contract True F32 (U32, U32, U32) 1"
| "cpu_operation_contract ConvertRnF32S32 = contract True F32 (U32, U32, U32) 1"
| "cpu_operation_contract ConvertRziU32F32 = contract True U32 (F32, U32, U32) 1"
| "cpu_operation_contract SetPredicateGeU32 = contract True Predicate (U32, U32, U32) 2"
| "cpu_operation_contract SetPredicateEqU32 = contract True Predicate (U32, U32, U32) 2"
| "cpu_operation_contract SetPredicateLtF32 = contract True Predicate (F32, F32, U32) 2"
| "cpu_operation_contract SetPredicateGtS32 = contract True Predicate (U32, U32, U32) 2"
| "cpu_operation_contract SelectU32 = contract True U32 (U32, U32, Predicate) 3"
| "cpu_operation_contract SelectF32 = contract True F32 (F32, F32, Predicate) 3"
| "cpu_operation_contract BranchIf = contract False U32 (Predicate, U32, U32) 1"
| "cpu_operation_contract LoadGlobalU32 = contract True U32 (GlobalAddress, U32, U32) 1"
| "cpu_operation_contract StoreGlobalU32 = contract False U32 (GlobalAddress, U32, U32) 2"
| "cpu_operation_contract LoadGlobalF32 = contract True F32 (GlobalAddress, U32, U32) 1"
| "cpu_operation_contract StoreGlobalF32 = contract False U32 (GlobalAddress, F32, U32) 2"
| "cpu_operation_contract StoreGlobalU8 = contract False U32 (GlobalAddress, U32, U32) 2"
| "cpu_operation_contract StoreGlobalU64 = contract False U32 (GlobalAddress, U64, U32) 2"
| "cpu_operation_contract LoadSharedU32 = contract True U32 (SharedAddress, U32, U32) 1"
| "cpu_operation_contract StoreSharedU32 = contract False U32 (SharedAddress, U32, U32) 2"
| "cpu_operation_contract BarrierSync = contract False U32 no_kinds 0"
| "cpu_operation_contract Return = contract False U32 no_kinds 0"

definition cpu_may_be_predicated :: "opcode \<Rightarrow> bool" where
  "cpu_may_be_predicated c \<longleftrightarrow> c = StoreGlobalU32 \<or> c = StoreGlobalU64 \<or> c = StoreSharedU32"

fun shared_words_bad :: "u64 \<Rightarrow> u32 list \<Rightarrow> bool" where
  "shared_words_bad sum0 [] = False"
| "shared_words_bad sum0 (w # ws) = (let sum' = sum0 + widen w in
    w = 0 \<or> kMaximumSharedWords < sum' \<or> shared_words_bad sum' ws)"

definition cpu_has_opcode :: "opcode \<Rightarrow> cpu_kernel \<Rightarrow> bool" where
  "cpu_has_opcode c k \<longleftrightarrow> list_ex (\<lambda>op. cop_opcode op = c) (cpu_operations k)"

definition result_bad :: "cpu_kernel \<Rightarrow> cpu_operation \<Rightarrow> bool list \<Rightarrow> bool" where
  "result_bad k op defined \<longleftrightarrow>
    (let c = cpu_operation_contract (cop_opcode op); r = unat (cop_result op) in
     if has_result c then length (cpu_registers k) \<le> r \<or> defined ! r \<or>
       cpu_registers k ! r \<noteq> result_kind c
     else cop_result op \<noteq> kNoValue)"

definition define_result :: "cpu_operation \<Rightarrow> bool list \<Rightarrow> bool list" where
  "define_result op defined = (if has_result (cpu_operation_contract (cop_opcode op))
    then defined[unat (cop_result op) := True] else defined)"

definition input_bad :: "cpu_kernel \<Rightarrow> cpu_operation \<Rightarrow> bool list \<Rightarrow> nat \<Rightarrow> bool" where
  "input_bad k op defined i \<longleftrightarrow> (let r = unat (at3 (cop_inputs op) i) in
    length (cpu_registers k) \<le> r \<or> \<not> defined ! r \<or>
    cpu_registers k ! r \<noteq> at3 (input_kinds (cpu_operation_contract (cop_opcode op))) i)"

definition guard_bad :: "cpu_kernel \<Rightarrow> cpu_operation \<Rightarrow> bool list \<Rightarrow> bool" where
  "guard_bad k op defined \<longleftrightarrow> (let p = unat (cop_predicate op) in
    if cop_predicate op \<noteq> kNoValue then
      \<not> cpu_may_be_predicated (cop_opcode op) \<or> length (cpu_registers k) \<le> p \<or> \<not> defined ! p \<or>
      cpu_registers k ! p \<noteq> Predicate
    else cop_predicate_negated op)"

definition parameter_bad :: "cpu_kernel \<Rightarrow> u32 \<Rightarrow> parameter_kind \<Rightarrow> bool" where
  "parameter_bad k a pk \<longleftrightarrow>
    length (cpu_parameters k) \<le> unat a \<or> cpu_parameters k ! unat a \<noteq> pk"

definition attribute_bad :: "cpu_kernel \<Rightarrow> nat \<Rightarrow> cpu_operation \<Rightarrow> bool" where
  "attribute_bad k index op \<longleftrightarrow> (let a = cop_attribute op; c = cop_opcode op in
    if c = LoadParameterAddress then parameter_bad k a BufferU32
    else if c = LoadParameterU32 then parameter_bad k a ScalarU32
    else if c = LoadParameterF32 then parameter_bad k a ScalarF32
    else if c = LoadSharedAddress then length (cpu_shared_words k) \<le> unat a
    else if c = MoveSpecialU32 then 7 < a
    else if c = BranchIf then unat a \<le> index \<or> length (cpu_operations k) \<le> unat a \<or>
      cop_opcode (cpu_operations k ! unat a) \<noteq> Return
    else if c = BarrierSync then a \<noteq> 0
    else if c = Return then index + 1 \<noteq> length (cpu_operations k)
    else False)"

definition operation_bad :: "cpu_kernel \<Rightarrow> nat \<Rightarrow> cpu_operation \<Rightarrow> bool list \<Rightarrow> bool" where
  "operation_bad k index op defined \<longleftrightarrow>
    cop_input_count op \<noteq> input_count (cpu_operation_contract (cop_opcode op)) \<or>
    3 < cop_input_count op \<or>
    result_bad k op defined \<or>
    list_ex (input_bad k op (define_result op defined)) [0..<unat (cop_input_count op)] \<or>
    guard_bad k op (define_result op defined) \<or>
    attribute_bad k index op \<or>
    (cop_opcode op \<noteq> BranchIf \<and> cop_flag op)"

fun operations_bad :: "cpu_kernel \<Rightarrow> nat \<Rightarrow> cpu_operation list \<Rightarrow> bool list \<Rightarrow> bool" where
  "operations_bad k index [] defined = False"
| "operations_bad k index (op # ops) defined = (operation_bad k index op defined \<or>
    operations_bad k (Suc index) ops (define_result op defined))"

definition validate_kernel :: "cpu_kernel \<Rightarrow> execution_error option" where
  "validate_kernel k =
    (if kMaximumSharedAllocations < length (cpu_shared_words k) then Some InvalidArtifact
     else if shared_words_bad 0 (cpu_shared_words k) then Some InvalidArtifact
     else if cpu_has_opcode BarrierSync k \<and> cpu_has_opcode BranchIf k then Some InvalidArtifact
     else if operations_bad k 0 (cpu_operations k) (replicate (length (cpu_registers k)) False)
     then Some InvalidArtifact
     else if cpu_operations k = [] \<or> cop_opcode (last (cpu_operations k)) \<noteq> Return
     then Some InvalidArtifact
     else None)"

section \<open>The parser\<close>

definition base_diagnostic :: "execution_error \<Rightarrow> u32 \<Rightarrow> execution_diagnostic" where
  "base_diagnostic e operation = \<lparr>ed_error = e, ed_operation = operation, ed_block_x = 0,
    ed_block_y = 0, ed_thread_x = 0, ed_thread_y = 0\<rparr>"

definition parse_failure :: "execution_error \<Rightarrow> u32 \<Rightarrow> execution_diagnostic + 'a" where
  "parse_failure e operation = Inl (base_diagnostic e operation)"

text \<open>An early return on failure, and the rest of the function on success.\<close>

definition need :: "execution_error \<Rightarrow> u32 \<Rightarrow> 'a option \<Rightarrow> ('a \<Rightarrow> execution_diagnostic + 'b) \<Rightarrow>
    execution_diagnostic + 'b" where
  "need e operation x f = (case x of None \<Rightarrow> parse_failure e operation | Some v \<Rightarrow> f v)"

lemma need_Some [simp]: "need e n (Some v) f = f v"
  by (simp add: need_def)

text \<open>A counted list of entries, each a keyword followed by one token.\<close>

primrec parse_entries :: "string \<Rightarrow> (string \<Rightarrow> 'a option) \<Rightarrow> nat \<Rightarrow> string \<Rightarrow> ('a list \<times> string) option"
where
  "parse_entries keyword f 0 s = Some ([], s)"
| "parse_entries keyword f (Suc n) s = (case expect keyword s of None \<Rightarrow> None | Some s1 \<Rightarrow>
    (case take_as f s1 of None \<Rightarrow> None | Some (v, s2) \<Rightarrow>
    (case parse_entries keyword f n s2 of None \<Rightarrow> None | Some (vs, s3) \<Rightarrow> Some (v # vs, s3))))"

primrec parse_inputs :: "nat \<Rightarrow> string \<Rightarrow> (u32 list \<times> string) option" where
  "parse_inputs 0 s = Some ([], s)"
| "parse_inputs (Suc n) s = (case take_u32 s of None \<Rightarrow> None | Some (v, s1) \<Rightarrow>
    (case parse_inputs n s1 of None \<Rightarrow> None | Some (vs, s2) \<Rightarrow> Some (v # vs, s2)))"

definition parse_optional_register :: "string \<Rightarrow> u32 option" where
  "parse_optional_register t = (if t = ''-'' then Some kNoValue else parse_u32 t)"

text \<open>The input array starts as zeros and the first entries are overwritten.\<close>

definition zero_filled :: "u32 list \<Rightarrow> u32 array3" where
  "zero_filled vs = ((vs @ [0, 0, 0]) ! 0, (vs @ [0, 0, 0]) ! 1, (vs @ [0, 0, 0]) ! 2)"

definition parse_operation :: "u32 \<Rightarrow> string \<Rightarrow> execution_diagnostic + cpu_operation \<times> string" where
  "parse_operation index s =
    need InvalidArtifact index (expect ''OP'' s) (\<lambda>s.
    need InvalidArtifact index (take_token s) (\<lambda>(opcode_text, s).
    need UnsupportedOperation index (parse_opcode opcode_text) (\<lambda>code.
    need InvalidArtifact index (take_as parse_optional_register s) (\<lambda>(result, s).
    need InvalidArtifact index (take_u32_where (\<lambda>n. n \<le> 3) s) (\<lambda>(count, s).
    need InvalidArtifact index (parse_inputs (unat count) s) (\<lambda>(inputs, s).
    need InvalidArtifact index (take_u32 s) (\<lambda>(attribute, s).
    need InvalidArtifact index (take_token s) (\<lambda>(flag_text, s).
    need InvalidArtifact index (take_token s) (\<lambda>(predicate_text, s).
    need InvalidArtifact index (take_token s) (\<lambda>(negated_text, s).
    need InvalidArtifact index (parse_bool flag_text) (\<lambda>flag.
    need InvalidArtifact index (parse_bool negated_text) (\<lambda>negated.
    need InvalidArtifact index (parse_optional_register predicate_text) (\<lambda>predicate.
    Inr (\<lparr>cop_opcode = code, cop_result = result, cop_inputs = zero_filled inputs,
      cop_input_count = count, cop_attribute = attribute, cop_flag = flag,
      cop_predicate = predicate, cop_predicate_negated = negated\<rparr>, s))))))))))))))"

primrec parse_operations ::
  "u32 \<Rightarrow> nat \<Rightarrow> string \<Rightarrow> execution_diagnostic + cpu_operation list \<times> string" where
  "parse_operations index 0 s = Inr ([], s)"
| "parse_operations index (Suc n) s = (case parse_operation index s of Inl d \<Rightarrow> Inl d
    | Inr (op, s1) \<Rightarrow> (case parse_operations (index + 1) n s1 of Inl d \<Rightarrow> Inl d
    | Inr (ops, s2) \<Rightarrow> Inr (op # ops, s2)))"

text \<open>A section of the text: its keyword, a count within the limit, and the entries.\<close>

definition parse_section ::
  "string \<Rightarrow> nat \<Rightarrow> string \<Rightarrow> (string \<Rightarrow> 'a option) \<Rightarrow> string \<Rightarrow> ('a list \<times> string) option" where
  "parse_section title limit keyword f s = (case expect title s of None \<Rightarrow> None | Some s1 \<Rightarrow>
    (case take_u32_where (\<lambda>n. unat n \<le> limit) s1 of None \<Rightarrow> None | Some (n, s2) \<Rightarrow>
      parse_entries keyword f (unat n) s2))"

text \<open>The operations, the end of the text and the validation.\<close>

definition parse_tail ::
  "parameter_kind list \<Rightarrow> u32 list \<Rightarrow> value_kind list \<Rightarrow> string \<Rightarrow> execution_diagnostic + cpu_kernel"
where
  "parse_tail params shared regs s =
    need InvalidArtifact kNoValue (expect ''OPERATIONS'' s) (\<lambda>s.
    need InvalidArtifact kNoValue
      (take_u32_where (\<lambda>n. n \<noteq> 0 \<and> unat n \<le> kMaximumOperations) s) (\<lambda>(count, s).
    case parse_operations 0 (unat count) s of Inl d \<Rightarrow> Inl d | Inr (ops, s) \<Rightarrow>
    need InvalidArtifact kNoValue (expect ''END'' s) (\<lambda>s.
      if \<not> exhausted s then parse_failure InvalidArtifact kNoValue else
      let k = \<lparr>cpu_parameters = params, cpu_shared_words = shared, cpu_registers = regs,
        cpu_operations = ops\<rparr> in
      (case validate_kernel k of Some e \<Rightarrow> parse_failure e kNoValue | None \<Rightarrow> Inr k))))"

definition parse_kernel :: "string \<Rightarrow> execution_diagnostic + cpu_kernel" where
  "parse_kernel text =
    (if kMaximumArtifactBytes < length text then parse_failure InvalidArtifact kNoValue else
     need InvalidArtifact kNoValue (expect ''MFKIR'' text) (\<lambda>s.
     need SchemaMismatch kNoValue (take_u32_where (\<lambda>v. v = 2) s) (\<lambda>(_, s).
     need InvalidArtifact kNoValue (expect ''PTX'' s) (\<lambda>s.
     need SchemaMismatch kNoValue (take_u32_where (\<lambda>v. v = 9) s) (\<lambda>(_, s).
     need SchemaMismatch kNoValue (take_u32_where (\<lambda>v. v = 0) s) (\<lambda>(_, s).
     need InvalidArtifact kNoValue (expect ''KERNEL'' s) (\<lambda>s.
     need InvalidArtifact kNoValue (take_token s) (\<lambda>(_, s).
     need InvalidArtifact kNoValue
       (parse_section ''PARAMETERS'' kMaximumParameters ''PARAMETER'' parse_parameter_kind s)
       (\<lambda>(params, s).
     need InvalidArtifact kNoValue
       (parse_section ''SHARED_ALLOCATIONS'' kMaximumSharedAllocations ''SHARED_U32'' parse_u32 s)
       (\<lambda>(shared, s).
     need InvalidArtifact kNoValue
       (parse_section ''REGISTERS'' kMaximumRegisters ''REGISTER'' parse_value_kind s)
       (\<lambda>(regs, s). parse_tail params shared regs s)))))))))))"

end
