(* ===== verification/CpuInterp.thy ===== *)
theory CpuInterp
  imports CpuKernel
begin

unbundle bit_operations_syntax

text \<open>
  The execution of a kernel by the CPU interpreter
  (\<open>plugins/backend/cpu/runtime/src/interpreter.cpp\<close>): one operation of one thread, one pass over
  the threads of a block, and the loop that runs a block with its barriers.

  Buffer arguments are spans of one word-addressed memory, so that two arguments may overlap.
  A float is its bit pattern. Comparison and conversion are defined on it; the arithmetic of the
  host's binary32 unit, whose NaN payloads the language leaves open, and the exponential helper
  the backend looks up at run time are parameters. A \<open>std::get\<close> on the wrong alternative throws
  and an index outside a vector is undefined behaviour in the source; both are faults here.
\<close>

section \<open>Data\<close>

record buffer_argument =
  buf_base :: nat
  buf_size :: nat
  buf_writable :: bool

datatype argument = ArgU32 u32 | ArgF32 u32 | ArgBuffer buffer_argument

record launch_dimensions =
  grid_x :: u32
  block_x :: u32
  grid_y :: u32
  block_y :: u32

type_synonym memory = "nat \<Rightarrow> u32"
type_synonym shared_memory = "u32 list list"

datatype runtime_value =
    Monostate | VBool bool | VU32 u32 | VU64 u64 | VFloat u32 | VGlobal u32 u64 | VShared u32 u64

record thread_state =
  ts_registers :: "runtime_value list"
  ts_thread_x :: u32
  ts_thread_y :: u32
  ts_pc :: u32
  ts_steps :: u64
  ts_waiting :: bool
  ts_returned :: bool

record coordinates =
  co_block_x :: u32
  co_block_y :: u32
  co_thread_x :: u32
  co_thread_y :: u32

datatype fault = Failure execution_diagnostic | BadVariantAccess | OutOfRangeAccess

record fp_unit =
  fp_add :: "u32 \<Rightarrow> u32 \<Rightarrow> u32"
  fp_sub :: "u32 \<Rightarrow> u32 \<Rightarrow> u32"
  fp_div :: "u32 \<Rightarrow> u32 \<Rightarrow> u32"
  fp_mul :: "u32 \<Rightarrow> u32 \<Rightarrow> u32"
  fp_sqrt :: "u32 \<Rightarrow> u32"
  fp_fma :: "u32 \<Rightarrow> u32 \<Rightarrow> u32 \<Rightarrow> u32"
  fp_exp :: "u32 \<Rightarrow> u32"

text \<open>What an operation runs in: the kernel, its arguments, the launch and the host.\<close>

record exec_env =
  en_kernel :: cpu_kernel
  en_arguments :: "argument list"
  en_launch :: launch_dimensions
  en_fp :: fp_unit

type_synonym machine = "thread_state \<times> memory \<times> shared_memory"

definition kMaximumThreadSteps :: u64 where
  "kMaximumThreadSteps = 131072"

definition execution_failure :: "execution_error \<Rightarrow> u32 \<Rightarrow> coordinates \<Rightarrow> fault" where
  "execution_failure e operation c = Failure \<lparr>ed_error = e, ed_operation = operation,
    ed_block_x = co_block_x c, ed_block_y = co_block_y c, ed_thread_x = co_thread_x c,
    ed_thread_y = co_thread_y c\<rparr>"

section \<open>Arguments and the floating-point environment\<close>

fun argument_matches :: "parameter_kind \<Rightarrow> argument \<Rightarrow> bool" where
  "argument_matches BufferU32 (ArgBuffer _) = True"
| "argument_matches ScalarU32 (ArgU32 _) = True"
| "argument_matches ScalarF32 (ArgF32 _) = True"
| "argument_matches _ _ = False"

definition validate_arguments :: "cpu_kernel \<Rightarrow> argument list \<Rightarrow> execution_error option" where
  "validate_arguments k args =
    (if length args \<noteq> length (cpu_parameters k) then Some ArgumentCount
     else if list_all2 argument_matches (cpu_parameters k) args then None
     else Some ArgumentType)"

definition has_fp_operations :: "cpu_kernel \<Rightarrow> bool" where
  "has_fp_operations k \<longleftrightarrow> list_ex (\<lambda>op. cop_opcode op \<in> {LoadParameterF32, AddRnF32, SubRnF32,
    DivRnF32, MultiplyRnF32, MadRnF32, FmaRnF32, ConvertRnF32U32, ConvertRnF32S32,
    ConvertRziU32F32, SetPredicateLtF32, LoadGlobalF32, StoreGlobalF32}) (cpu_operations k)"

section \<open>Scalar arithmetic\<close>

definition abs_s32 :: "u32 \<Rightarrow> u32" where
  "abs_s32 bits = (let m = 0 - drop_bit 31 bits in (bits XOR m) - m)"

definition abs_f32 :: "u32 \<Rightarrow> u32" where
  "abs_f32 bits = bits AND 0x7fffffff"

definition multiply_hi :: "u32 \<Rightarrow> u32 \<Rightarrow> u32" where
  "multiply_hi a b = narrow (drop_bit 32 (widen a * widen b))"

text \<open>Comparison of bit patterns: sign and magnitude, both zeros equal, NaN unordered.\<close>

definition f32_is_nan :: "u32 \<Rightarrow> bool" where
  "f32_is_nan b \<longleftrightarrow> 0x7f800000 < abs_f32 b"

definition f32_key :: "u32 \<Rightarrow> int" where
  "f32_key b = (if bit b 31 then - int (unat (abs_f32 b)) else int (unat (abs_f32 b)))"

definition f32_less :: "u32 \<Rightarrow> u32 \<Rightarrow> bool" where
  "f32_less a b \<longleftrightarrow> \<not> f32_is_nan a \<and> \<not> f32_is_nan b \<and> f32_key a < f32_key b"

text \<open>Conversion toward zero, saturating; the upper boundary is \<open>2 ^ 32\<close> as a float.\<close>

definition f32_trunc :: "u32 \<Rightarrow> nat" where
  "f32_trunc b = (let m = unat (abs_f32 b); e = m div 2 ^ 23 in
    if e < 127 then 0 else (2 ^ 23 + m mod 2 ^ 23) * 2 ^ (e - 127) div 2 ^ 23)"

definition convert_rzi_u32 :: "u32 \<Rightarrow> u32" where
  "convert_rzi_u32 value =
    (if f32_is_nan value \<or> f32_key value \<le> 0 then 0
     else if f32_key 0x4f800000 \<le> f32_key value then -1
     else of_nat (f32_trunc value))"

text \<open>Conversion of an integer to the nearest float, ties to even.\<close>

fun bit_length :: "nat \<Rightarrow> nat" where
  "bit_length n = (if n = 0 then 0 else Suc (bit_length (n div 2)))"

declare bit_length.simps [simp del]

definition round_shift :: "nat \<Rightarrow> nat \<Rightarrow> nat" where
  "round_shift n s = (let q = n div 2 ^ s; r = n mod 2 ^ s in
    if 2 ^ s < 2 * r \<or> (2 * r = 2 ^ s \<and> odd q) then q + 1 else q)"

definition f32_of_nat :: "nat \<Rightarrow> u32" where
  "f32_of_nat n = (if n = 0 then 0 else let e = bit_length n - 1 in
    of_nat ((e + 126) * 2 ^ 23 + (if e \<le> 23 then n * 2 ^ (23 - e) else round_shift n (e - 23))))"

definition convert_rn_u32 :: "u32 \<Rightarrow> u32" where
  "convert_rn_u32 a = f32_of_nat (unat a)"

definition convert_rn_s32 :: "u32 \<Rightarrow> u32" where
  "convert_rn_s32 a = (if sint a < 0 then 0x80000000 OR f32_of_nat (nat (- sint a))
    else f32_of_nat (nat (sint a)))"

section \<open>Memory accesses\<close>

text \<open>The address of the word or byte, or the error that the access is refused with.\<close>

definition buffer_of :: "u32 \<Rightarrow> argument list \<Rightarrow> buffer_argument option" where
  "buffer_of p args = (if unat p < length args then
    (case args ! unat p of ArgBuffer b \<Rightarrow> Some b | _ \<Rightarrow> None) else None)"

definition global_word :: "u32 \<times> u64 \<Rightarrow> argument list \<Rightarrow> bool \<Rightarrow> execution_error + nat" where
  "global_word a args writing = (case buffer_of (fst a) args of None \<Rightarrow> Inl ArgumentType
    | Some b \<Rightarrow>
      if unat (snd a) mod 4 \<noteq> 0 then Inl MisalignedAddress
      else if writing \<and> \<not> buf_writable b then Inl WriteToReadOnly
      else if buf_size b \<le> unat (snd a) div 4 then Inl OutOfBounds
      else Inr (buf_base b + unat (snd a) div 4))"

definition global_byte :: "u32 \<times> u64 \<Rightarrow> argument list \<Rightarrow> bool \<Rightarrow> execution_error + nat \<times> nat" where
  "global_byte a args writing = (case buffer_of (fst a) args of None \<Rightarrow> Inl ArgumentType
    | Some b \<Rightarrow>
      if writing \<and> \<not> buf_writable b then Inl WriteToReadOnly
      else if buf_size b * 4 \<le> unat (snd a) then Inl OutOfBounds
      else Inr (buf_base b + unat (snd a) div 4, unat (snd a) mod 4))"

text \<open>The bytes of a word lie in little-endian order.\<close>

definition set_byte :: "u32 \<Rightarrow> nat \<Rightarrow> u32 \<Rightarrow> u32" where
  "set_byte w i v = (w AND NOT (push_bit (8 * i) 0xff)) OR push_bit (8 * i) (v AND 0xff)"

definition store_global_u64 ::
  "u32 \<times> u64 \<Rightarrow> argument list \<Rightarrow> u64 \<Rightarrow> memory \<Rightarrow> execution_error + memory" where
  "store_global_u64 a args v mem = (case buffer_of (fst a) args of None \<Rightarrow> Inl ArgumentType
    | Some b \<Rightarrow> let i = unat (snd a) div 4 in
      if unat (snd a) mod 8 \<noteq> 0 then Inl MisalignedAddress
      else if \<not> buf_writable b then Inl WriteToReadOnly
      else if buf_size b \<le> i + 1 then Inl OutOfBounds
      else Inr (mem(buf_base b + i := narrow v, buf_base b + i + 1 := narrow (drop_bit 32 v))))"

definition shared_word :: "u32 \<times> u64 \<Rightarrow> shared_memory \<Rightarrow> execution_error + nat \<times> nat" where
  "shared_word a shared = (let al = unat (fst a) in
    if length shared \<le> al then Inl InvalidArtifact
    else if unat (snd a) mod 4 \<noteq> 0 then Inl MisalignedAddress
    else if length (shared ! al) \<le> unat (snd a) div 4 then Inl OutOfBounds
    else Inr (al, unat (snd a) div 4))"

definition special_value :: "u32 \<Rightarrow> coordinates \<Rightarrow> launch_dimensions \<Rightarrow> u32" where
  "special_value selector c l =
    (if selector = 0 then co_thread_x c else if selector = 1 then co_thread_y c
     else if selector = 2 then co_block_x c else if selector = 3 then co_block_y c
     else if selector = 4 then block_x l else if selector = 5 then block_y l
     else if selector = 6 then grid_x l else if selector = 7 then grid_y l else 0)"

section \<open>One operation\<close>

definition and_then :: "'e + 'a \<Rightarrow> ('a \<Rightarrow> 'e + 'b) \<Rightarrow> 'e + 'b" where
  "and_then r f = (case r of Inl e \<Rightarrow> Inl e | Inr x \<Rightarrow> f x)"

lemma and_then_simps [simp]: "and_then (Inl e) f = Inl e" "and_then (Inr x) f = f x"
  by (simp_all add: and_then_def)

fun as_bool :: "runtime_value \<Rightarrow> bool option" where
  "as_bool (VBool b) = Some b" | "as_bool _ = None"

fun as_u32 :: "runtime_value \<Rightarrow> u32 option" where
  "as_u32 (VU32 w) = Some w" | "as_u32 _ = None"

fun as_u64 :: "runtime_value \<Rightarrow> u64 option" where
  "as_u64 (VU64 w) = Some w" | "as_u64 _ = None"

fun as_float :: "runtime_value \<Rightarrow> u32 option" where
  "as_float (VFloat w) = Some w" | "as_float _ = None"

fun as_global :: "runtime_value \<Rightarrow> (u32 \<times> u64) option" where
  "as_global (VGlobal p b) = Some (p, b)" | "as_global _ = None"

fun as_shared :: "runtime_value \<Rightarrow> (u32 \<times> u64) option" where
  "as_shared (VShared a b) = Some (a, b)" | "as_shared _ = None"

text \<open>\<open>std::get\<close> of a register, and of an argument.\<close>

definition read_register ::
  "(runtime_value \<Rightarrow> 'a option) \<Rightarrow> machine \<Rightarrow> u32 \<Rightarrow> fault + 'a" where
  "read_register get m r = (let vs = ts_registers (fst m) in
    if length vs \<le> unat r then Inl OutOfRangeAccess
    else (case get (vs ! unat r) of None \<Rightarrow> Inl BadVariantAccess | Some x \<Rightarrow> Inr x))"

definition read_argument :: "(argument \<Rightarrow> 'a option) \<Rightarrow> exec_env \<Rightarrow> u32 \<Rightarrow> fault + 'a" where
  "read_argument get e a = (let args = en_arguments e in
    if length args \<le> unat a then Inl OutOfRangeAccess
    else (case get (args ! unat a) of None \<Rightarrow> Inl BadVariantAccess | Some x \<Rightarrow> Inr x))"

fun arg_u32 :: "argument \<Rightarrow> u32 option" where
  "arg_u32 (ArgU32 w) = Some w" | "arg_u32 _ = None"

fun arg_f32 :: "argument \<Rightarrow> u32 option" where
  "arg_f32 (ArgF32 w) = Some w" | "arg_f32 _ = None"

definition advance :: "machine \<Rightarrow> machine" where
  "advance m = (case m of (t, rest) \<Rightarrow> (t\<lparr>ts_pc := ts_pc t + 1\<rparr>, rest))"

definition assign :: "cpu_operation \<Rightarrow> machine \<Rightarrow> runtime_value \<Rightarrow> fault + machine" where
  "assign op m v = (case m of (t, rest) \<Rightarrow>
    if length (ts_registers t) \<le> unat (cop_result op) then Inl OutOfRangeAccess
    else Inr (advance (t\<lparr>ts_registers := (ts_registers t)[unat (cop_result op) := v]\<rparr>, rest)))"

abbreviation input :: "cpu_operation \<Rightarrow> nat \<Rightarrow> u32" where
  "input op i \<equiv> at3 (cop_inputs op) i"

definition unary ::
  "(runtime_value \<Rightarrow> 'a option) \<Rightarrow> ('a \<Rightarrow> runtime_value) \<Rightarrow> cpu_operation \<Rightarrow> machine \<Rightarrow> fault + machine"
where
  "unary get f op m = and_then (read_register get m (input op 0)) (\<lambda>x. assign op m (f x))"

definition binary ::
  "(runtime_value \<Rightarrow> 'a option) \<Rightarrow> ('a \<Rightarrow> 'a \<Rightarrow> runtime_value) \<Rightarrow> cpu_operation \<Rightarrow> machine \<Rightarrow>
    fault + machine" where
  "binary get f op m = and_then (read_register get m (input op 0)) (\<lambda>x.
    and_then (read_register get m (input op 1)) (\<lambda>y. assign op m (f x y)))"

definition ternary ::
  "(runtime_value \<Rightarrow> 'a option) \<Rightarrow> ('a \<Rightarrow> 'a \<Rightarrow> 'a \<Rightarrow> runtime_value) \<Rightarrow> cpu_operation \<Rightarrow> machine \<Rightarrow>
    fault + machine" where
  "ternary get f op m = and_then (read_register get m (input op 0)) (\<lambda>x.
    and_then (read_register get m (input op 1)) (\<lambda>y.
    and_then (read_register get m (input op 2)) (\<lambda>z. assign op m (f x y z))))"

text \<open>The predicate is read first, and then only the operand it selects.\<close>

definition select ::
  "(runtime_value \<Rightarrow> 'a option) \<Rightarrow> ('a \<Rightarrow> runtime_value) \<Rightarrow> cpu_operation \<Rightarrow> machine \<Rightarrow> fault + machine"
where
  "select get f op m = and_then (read_register as_bool m (input op 2)) (\<lambda>b.
    and_then (read_register get m (input op (if b then 0 else 1))) (\<lambda>x. assign op m (f x)))"

definition fail_with :: "coordinates \<Rightarrow> machine \<Rightarrow> execution_error \<Rightarrow> fault + 'a" where
  "fail_with c m e = Inl (execution_failure e (ts_pc (fst m)) c)"

definition load_global ::
  "(u32 \<Rightarrow> runtime_value) \<Rightarrow> exec_env \<Rightarrow> coordinates \<Rightarrow> cpu_operation \<Rightarrow> machine \<Rightarrow> fault + machine" where
  "load_global f e c op m = and_then (read_register as_global m (input op 0)) (\<lambda>a.
    case global_word a (en_arguments e) False of Inl er \<Rightarrow> fail_with c m er
    | Inr i \<Rightarrow> assign op m (f (fst (snd m) i)))"

definition store_global ::
  "(runtime_value \<Rightarrow> u32 option) \<Rightarrow> exec_env \<Rightarrow> coordinates \<Rightarrow> cpu_operation \<Rightarrow> machine \<Rightarrow> fault + machine"
where
  "store_global get e c op m = and_then (read_register as_global m (input op 0)) (\<lambda>a.
    case global_word a (en_arguments e) True of Inl er \<Rightarrow> fail_with c m er
    | Inr i \<Rightarrow> and_then (read_register get m (input op 1)) (\<lambda>v. case m of (t, mem, shared) \<Rightarrow>
        Inr (advance (t, mem(i := v), shared))))"

definition store_global_byte ::
  "exec_env \<Rightarrow> coordinates \<Rightarrow> cpu_operation \<Rightarrow> machine \<Rightarrow> fault + machine" where
  "store_global_byte e c op m = and_then (read_register as_global m (input op 0)) (\<lambda>a.
    case global_byte a (en_arguments e) True of Inl er \<Rightarrow> fail_with c m er
    | Inr (i, b) \<Rightarrow> and_then (read_register as_u32 m (input op 1)) (\<lambda>v. case m of (t, mem, shared) \<Rightarrow>
        Inr (advance (t, mem(i := set_byte (mem i) b v), shared))))"

definition store_global_wide ::
  "exec_env \<Rightarrow> coordinates \<Rightarrow> cpu_operation \<Rightarrow> machine \<Rightarrow> fault + machine" where
  "store_global_wide e c op m = and_then (read_register as_global m (input op 0)) (\<lambda>a.
    and_then (read_register as_u64 m (input op 1)) (\<lambda>v. case m of (t, mem, shared) \<Rightarrow>
      (case store_global_u64 a (en_arguments e) v mem of Inl er \<Rightarrow> fail_with c m er
       | Inr mem' \<Rightarrow> Inr (advance (t, mem', shared)))))"

definition load_shared :: "coordinates \<Rightarrow> cpu_operation \<Rightarrow> machine \<Rightarrow> fault + machine" where
  "load_shared c op m = and_then (read_register as_shared m (input op 0)) (\<lambda>a.
    case shared_word a (snd (snd m)) of Inl er \<Rightarrow> fail_with c m er
    | Inr (al, i) \<Rightarrow> assign op m (VU32 (snd (snd m) ! al ! i)))"

definition store_shared :: "coordinates \<Rightarrow> cpu_operation \<Rightarrow> machine \<Rightarrow> fault + machine" where
  "store_shared c op m = and_then (read_register as_shared m (input op 0)) (\<lambda>a.
    case shared_word a (snd (snd m)) of Inl er \<Rightarrow> fail_with c m er
    | Inr (al, i) \<Rightarrow> and_then (read_register as_u32 m (input op 1)) (\<lambda>v. case m of (t, mem, shared) \<Rightarrow>
        Inr (advance (t, mem, shared[al := (shared ! al)[i := v]]))))"

definition add_global_address :: "coordinates \<Rightarrow> cpu_operation \<Rightarrow> machine \<Rightarrow> fault + machine" where
  "add_global_address c op m = and_then (read_register as_global m (input op 0)) (\<lambda>base.
    and_then (read_register as_u64 m (input op 1)) (\<lambda>offset.
    if -1 - snd base < offset then fail_with c m AddressOverflow
    else assign op m (VGlobal (fst base) (snd base + offset))))"

definition add_shared_address :: "cpu_operation \<Rightarrow> machine \<Rightarrow> fault + machine" where
  "add_shared_address op m = and_then (read_register as_shared m (input op 0)) (\<lambda>base.
    and_then (read_register as_u32 m (input op 1)) (\<lambda>offset.
    assign op m (VShared (fst base) (snd base + widen offset))))"

definition branch_if :: "cpu_operation \<Rightarrow> machine \<Rightarrow> fault + machine" where
  "branch_if op m = and_then (read_register as_bool m (input op 0)) (\<lambda>predicate.
    case m of (t, rest) \<Rightarrow> let taken = (if cop_flag op then \<not> predicate else predicate) in
      Inr (t\<lparr>ts_pc := (if taken then cop_attribute op else ts_pc t + 1)\<rparr>, rest))"

fun execute_opcode ::
  "opcode \<Rightarrow> exec_env \<Rightarrow> coordinates \<Rightarrow> cpu_operation \<Rightarrow> machine \<Rightarrow> fault + machine" where
  "execute_opcode LoadParameterAddress e c op m = assign op m (VGlobal (cop_attribute op) 0)"
| "execute_opcode LoadParameterU32 e c op m =
    and_then (read_argument arg_u32 e (cop_attribute op)) (\<lambda>w. assign op m (VU32 w))"
| "execute_opcode LoadParameterF32 e c op m =
    and_then (read_argument arg_f32 e (cop_attribute op)) (\<lambda>w. assign op m (VFloat w))"
| "execute_opcode LoadSharedAddress e c op m = assign op m (VShared (cop_attribute op) 0)"
| "execute_opcode MoveSpecialU32 e c op m =
    assign op m (VU32 (special_value (cop_attribute op) c (en_launch e)))"
| "execute_opcode MoveImmediateU32 e c op m = assign op m (VU32 (cop_attribute op))"
| "execute_opcode AbsS32 e c op m = unary as_u32 (\<lambda>x. VU32 (abs_s32 x)) op m"
| "execute_opcode AbsF32 e c op m = unary as_float (\<lambda>x. VFloat (abs_f32 x)) op m"
| "execute_opcode SqrtRnF32 e c op m = unary as_float (\<lambda>x. VFloat (fp_sqrt (en_fp e) x)) op m"
| "execute_opcode ExpF32 e c op m = unary as_float (\<lambda>x. VFloat (fp_exp (en_fp e) x)) op m"
| "execute_opcode AddU32 e c op m = binary as_u32 (\<lambda>x y. VU32 (x + y)) op m"
| "execute_opcode SubU32 e c op m = binary as_u32 (\<lambda>x y. VU32 (x - y)) op m"
| "execute_opcode MultiplyLoU32 e c op m = binary as_u32 (\<lambda>x y. VU32 (x * y)) op m"
| "execute_opcode MultiplyHiU32 e c op m = binary as_u32 (\<lambda>x y. VU32 (multiply_hi x y)) op m"
| "execute_opcode MadLoU32 e c op m = ternary as_u32 (\<lambda>x y z. VU32 (x * y + z)) op m"
| "execute_opcode MultiplyWideU32 e c op m =
    unary as_u32 (\<lambda>x. VU64 (widen x * widen (cop_attribute op))) op m"
| "execute_opcode AddGlobalAddress e c op m = add_global_address c op m"
| "execute_opcode AddSharedAddress e c op m = add_shared_address op m"
| "execute_opcode AddRnF32 e c op m = binary as_float (\<lambda>x y. VFloat (fp_add (en_fp e) x y)) op m"
| "execute_opcode SubRnF32 e c op m = binary as_float (\<lambda>x y. VFloat (fp_sub (en_fp e) x y)) op m"
| "execute_opcode DivRnF32 e c op m = binary as_float (\<lambda>x y. VFloat (fp_div (en_fp e) x y)) op m"
| "execute_opcode MultiplyRnF32 e c op m =
    binary as_float (\<lambda>x y. VFloat (fp_mul (en_fp e) x y)) op m"
| "execute_opcode MadRnF32 e c op m =
    ternary as_float (\<lambda>x y z. VFloat (fp_fma (en_fp e) x y z)) op m"
| "execute_opcode FmaRnF32 e c op m =
    ternary as_float (\<lambda>x y z. VFloat (fp_fma (en_fp e) x y z)) op m"
| "execute_opcode ConvertRnF32U32 e c op m = unary as_u32 (\<lambda>x. VFloat (convert_rn_u32 x)) op m"
| "execute_opcode ConvertRnF32S32 e c op m = unary as_u32 (\<lambda>x. VFloat (convert_rn_s32 x)) op m"
| "execute_opcode ConvertRziU32F32 e c op m = unary as_float (\<lambda>x. VU32 (convert_rzi_u32 x)) op m"
| "execute_opcode SetPredicateGeU32 e c op m = binary as_u32 (\<lambda>x y. VBool (y \<le> x)) op m"
| "execute_opcode SetPredicateGtS32 e c op m = binary as_u32 (\<lambda>x y. VBool (sint y < sint x)) op m"
| "execute_opcode SelectU32 e c op m = select as_u32 VU32 op m"
| "execute_opcode SelectF32 e c op m = select as_float VFloat op m"
| "execute_opcode SetPredicateEqU32 e c op m = binary as_u32 (\<lambda>x y. VBool (x = y)) op m"
| "execute_opcode SetPredicateLtF32 e c op m = binary as_float (\<lambda>x y. VBool (f32_less x y)) op m"
| "execute_opcode BranchIf e c op m = branch_if op m"
| "execute_opcode LoadGlobalU32 e c op m = load_global VU32 e c op m"
| "execute_opcode LoadGlobalF32 e c op m = load_global VFloat e c op m"
| "execute_opcode StoreGlobalU32 e c op m = store_global as_u32 e c op m"
| "execute_opcode StoreGlobalF32 e c op m = store_global as_float e c op m"
| "execute_opcode StoreGlobalU8 e c op m = store_global_byte e c op m"
| "execute_opcode StoreGlobalU64 e c op m = store_global_wide e c op m"
| "execute_opcode LoadSharedU32 e c op m = load_shared c op m"
| "execute_opcode StoreSharedU32 e c op m = store_shared c op m"
| "execute_opcode BarrierSync e c op m =
    (case m of (t, rest) \<Rightarrow> Inr (t\<lparr>ts_waiting := True\<rparr>, rest))"
| "execute_opcode Return e c op m =
    (case m of (t, rest) \<Rightarrow> Inr (advance (t\<lparr>ts_returned := True\<rparr>, rest)))"

text \<open>An operation under its guard: inactive, it only moves on.\<close>

definition execute_guarded ::
  "exec_env \<Rightarrow> coordinates \<Rightarrow> cpu_operation \<Rightarrow> machine \<Rightarrow> fault + machine" where
  "execute_guarded e c op m =
    (if cop_predicate op \<noteq> kNoValue then
      and_then (read_register as_bool m (cop_predicate op)) (\<lambda>predicate.
        if (if cop_predicate_negated op then \<not> predicate else predicate)
        then execute_opcode (cop_opcode op) e c op m else Inr (advance m))
     else execute_opcode (cop_opcode op) e c op m)"

text \<open>A failed operation leaves what it found, with the step counted.\<close>

definition execute_one :: "exec_env \<Rightarrow> coordinates \<Rightarrow> machine \<Rightarrow> fault option \<times> machine" where
  "execute_one e c m = (case m of (t, rest) \<Rightarrow>
    let ops = cpu_operations (en_kernel e); pc = unat (ts_pc t);
      m1 = (t\<lparr>ts_steps := ts_steps t + 1\<rparr>, rest) in
    if length ops \<le> pc then (Some (execution_failure InvalidArtifact (ts_pc t) c), m)
    else if kMaximumThreadSteps < ts_steps t + 1
    then (Some (execution_failure StepLimit (ts_pc t) c), m1)
    else (case execute_guarded e c (ops ! pc) m1 of
        Inl f \<Rightarrow> (Some f, m1) | Inr m' \<Rightarrow> (None, m')))"

section \<open>One block\<close>

record pass_state =
  ps_fault :: "fault option"
  ps_threads :: "thread_state list"
  ps_memory :: memory
  ps_shared :: shared_memory
  ps_returned :: nat
  ps_waiting :: nat
  ps_progressed :: bool

definition thread_coordinates :: "u32 \<Rightarrow> u32 \<Rightarrow> thread_state \<Rightarrow> coordinates" where
  "thread_coordinates cx cy t = \<lparr>co_block_x = cx, co_block_y = cy,
    co_thread_x = ts_thread_x t, co_thread_y = ts_thread_y t\<rparr>"

text \<open>One pass of the scheduling loop over the threads, in order; a failure ends it at once.\<close>

fun cta_pass :: "exec_env \<Rightarrow> u32 \<Rightarrow> u32 \<Rightarrow> thread_state list \<Rightarrow> memory \<Rightarrow> shared_memory \<Rightarrow> pass_state"
where
  "cta_pass e cx cy [] mem shared = \<lparr>ps_fault = None, ps_threads = [], ps_memory = mem,
    ps_shared = shared, ps_returned = 0, ps_waiting = 0, ps_progressed = False\<rparr>"
| "cta_pass e cx cy (t # ts) mem shared =
    (if ts_returned t then
       let r = cta_pass e cx cy ts mem shared in
       r\<lparr>ps_threads := t # ps_threads r, ps_returned := ps_returned r + 1\<rparr>
     else if ts_waiting t then
       let r = cta_pass e cx cy ts mem shared in
       r\<lparr>ps_threads := t # ps_threads r, ps_waiting := ps_waiting r + 1\<rparr>
     else (case execute_one e (thread_coordinates cx cy t) (t, mem, shared) of
         (Some f, (t', mem', shared')) \<Rightarrow>
           \<lparr>ps_fault = Some f, ps_threads = t' # ts, ps_memory = mem', ps_shared = shared',
             ps_returned = 0, ps_waiting = 0, ps_progressed = False\<rparr>
       | (None, (t', mem', shared')) \<Rightarrow>
           let r = cta_pass e cx cy ts mem' shared' in
           r\<lparr>ps_threads := t' # ps_threads r,
             ps_returned := ps_returned r + (if ts_returned t' then 1 else 0),
             ps_waiting := ps_waiting r + (if \<not> ts_returned t' \<and> ts_waiting t' then 1 else 0),
             ps_progressed := True\<rparr>))"

definition block_failure :: "execution_error \<Rightarrow> u32 \<Rightarrow> u32 \<Rightarrow> u32 \<Rightarrow> fault" where
  "block_failure er operation cx cy = execution_failure er operation
    \<lparr>co_block_x = cx, co_block_y = cy, co_thread_x = 0, co_thread_y = 0\<rparr>"

definition release :: "thread_state \<Rightarrow> thread_state" where
  "release t = t\<lparr>ts_waiting := False, ts_pc := ts_pc t + 1\<rparr>"

text \<open>
  What the loop does after a pass: end with a result, or go on with these threads.
\<close>

definition after_pass ::
  "u32 \<Rightarrow> u32 \<Rightarrow> pass_state \<Rightarrow> fault option + thread_state list" where
  "after_pass cx cy p = (let ts = ps_threads p; n = length ts in
    if ps_fault p \<noteq> None then Inl (ps_fault p)
    else if ps_returned p = n then Inl None
    else if ps_waiting p = n then
      let barrier_pc = ts_pc (hd ts) in
      if \<not> list_all (\<lambda>t. ts_waiting t \<and> ts_pc t = barrier_pc) ts
      then Inl (Some (block_failure BarrierDivergence barrier_pc cx cy))
      else Inr (map release ts)
    else if \<not> ps_progressed p \<or>
      (ps_waiting p \<noteq> 0 \<and> ps_returned p \<noteq> 0 \<and> ps_waiting p + ps_returned p = n)
    then Inl (Some (block_failure BarrierDivergence
      (if ps_waiting p = 0 then kNoValue else ts_pc (the (find ts_waiting ts))) cx cy))
    else Inr ts)"

text \<open>
  The loop itself; \<open>stop i\<close> is whether the stop token is set at iteration \<open>i\<close>. None is that the
  fuel did not suffice.
\<close>

primrec cta_loop :: "nat \<Rightarrow> nat \<Rightarrow> exec_env \<Rightarrow> u32 \<Rightarrow> u32 \<Rightarrow> (nat \<Rightarrow> bool) \<Rightarrow> thread_state list \<Rightarrow>
    memory \<Rightarrow> shared_memory \<Rightarrow> (fault option \<times> memory) option" where
  "cta_loop 0 i e cx cy stop ts mem shared = None"
| "cta_loop (Suc fuel) i e cx cy stop ts mem shared =
    (if stop i then Some (Some (block_failure Cancelled kNoValue cx cy), mem)
     else let p = cta_pass e cx cy ts mem shared in
       (case after_pass cx cy p of
          Inl result \<Rightarrow> Some (result, ps_memory p)
        | Inr ts' \<Rightarrow> cta_loop fuel (i + 1) e cx cy stop ts' (ps_memory p) (ps_shared p)))"

definition initial_threads :: "cpu_kernel \<Rightarrow> launch_dimensions \<Rightarrow> thread_state list" where
  "initial_threads k l = concat (map (\<lambda>y. map (\<lambda>x. \<lparr>
      ts_registers = replicate (length (cpu_registers k)) Monostate,
      ts_thread_x = of_nat x, ts_thread_y = of_nat y, ts_pc = 0, ts_steps = 0,
      ts_waiting = False, ts_returned = False\<rparr>) [0..<unat (block_x l)]) [0..<unat (block_y l)])"

definition execute_cta :: "nat \<Rightarrow> exec_env \<Rightarrow> u32 \<Rightarrow> u32 \<Rightarrow> (nat \<Rightarrow> bool) \<Rightarrow> memory \<Rightarrow>
    (fault option \<times> memory) option" where
  "execute_cta fuel e cx cy stop mem = cta_loop fuel 0 e cx cy stop
    (initial_threads (en_kernel e) (en_launch e)) mem
    (map (\<lambda>w. replicate (unat w) 0) (cpu_shared_words (en_kernel e)))"

end
