(* ===== verification/KernelAgreement.thy ===== *)
theory KernelAgreement
  imports CpuKernel
begin

text \<open>
  The compiler's verifier and the interpreter's validator were written separately, one collecting
  diagnostics and one stopping at the first defect. Here they are shown to accept the same
  kernels, and the canonical text is shown to carry a verified kernel to the interpreter
  unchanged.
\<close>

section \<open>A kernel as the interpreter sees it\<close>

definition view_operation :: "operation \<Rightarrow> cpu_operation" where
  "view_operation op = \<lparr>cop_opcode = the (opcode_of (op_opcode op)), cop_result = op_result op,
    cop_inputs = zero_filled (map (at3 (op_inputs op)) [0..<unat (op_input_count op)]),
    cop_input_count = op_input_count op, cop_attribute = op_attribute op, cop_flag = op_flag op,
    cop_predicate = op_predicate op, cop_predicate_negated = op_predicate_negated op\<rparr>"

definition view_kernel :: "kernel \<Rightarrow> cpu_kernel" where
  "view_kernel k = \<lparr>cpu_parameters = map (the \<circ> parameter_kind_of \<circ> param_kind) (parameters k),
    cpu_shared_words = map sh_words (shared_allocations k),
    cpu_registers = map (the \<circ> value_kind_of \<circ> reg_kind) (registers k),
    cpu_operations = map view_operation (operations k)\<rparr>"

text \<open>What only the compiler's verifier looks at: the header, the limits, and that every
  enumeration-typed field holds an enumerator.\<close>

definition enumerators_in_range :: "kernel \<Rightarrow> bool" where
  "enumerators_in_range k \<longleftrightarrow>
    list_all (\<lambda>p. parameter_kind_of (param_kind p) \<noteq> None) (parameters k) \<and>
    list_all (\<lambda>r. value_kind_of (reg_kind r) \<noteq> None) (registers k) \<and>
    list_all (\<lambda>op. opcode_of (op_opcode op) \<noteq> None) (operations k)"

definition header_accepted :: "kernel \<Rightarrow> bool" where
  "header_accepted k \<longleftrightarrow> schema_version k = 2 \<and> ptx_major k = 9 \<and> ptx_minor k = 0 \<and>
    valid_kernel_name (kernel_name k) \<and> length (parameters k) \<le> 64 \<and>
    length (registers k) \<le> 4096 \<and> length (operations k) \<le> 65536"

section \<open>The verifiers agree\<close>

lemma contracts_agree: "operation_contract (Some c) = cpu_operation_contract c"
  by (cases c) simp_all

lemma is_valid_opcode_iff: "is_valid_opcode w \<longleftrightarrow> opcode_of w \<noteq> None"
  by (simp add: is_valid_opcode_def opcode_of_def enumerator_def opcode_enumerators_def
      word_le_nat_alt less_Suc_eq_le flip: less_Suc_eq_le)

lemma valid_parameter_kind_iff: "valid_parameter_kind w \<longleftrightarrow> parameter_kind_of w \<noteq> None"
  by (auto simp: valid_parameter_kind_def intro: parameter_kind.exhaust)

lemma valid_value_kind_iff: "valid_value_kind w \<longleftrightarrow> value_kind_of w \<noteq> None"
  by (auto simp: valid_value_kind_def intro: value_kind.exhaust)

lemma may_be_predicated_iff: "may_be_predicated (Some c) \<longleftrightarrow> cpu_may_be_predicated c"
  by (simp add: may_be_predicated_def cpu_may_be_predicated_def)

lemma verify_shared_iff:
  "verify_shared n as = [] \<longleftrightarrow> \<not> shared_words_bad n (map sh_words as)"
  by (induction as arbitrary: n) (auto simp: Let_def)

lemma at3_zero_filled:
  assumes "i < length vs" "length vs \<le> 3"
  shows "at3 (zero_filled vs) i = vs ! i"
proof -
  have "i = 0 \<or> i = 1 \<or> i = 2"
    using assms by auto
  then show ?thesis
    using assms by (auto simp: zero_filled_def nth_append)
qed

lemma view_input:
  assumes "op_input_count op \<le> 3" "i < unat (op_input_count op)"
  shows "at3 (cop_inputs (view_operation op)) i = at3 (op_inputs op) i"
  using assms by (simp add: view_operation_def at3_zero_filled word_le_nat_alt del: at3.simps)

lemma view_simps [simp]:
  "cop_result (view_operation op) = op_result op"
  "cop_input_count (view_operation op) = op_input_count op"
  "cop_attribute (view_operation op) = op_attribute op"
  "cop_flag (view_operation op) = op_flag op"
  "cop_predicate (view_operation op) = op_predicate op"
  "cop_predicate_negated (view_operation op) = op_predicate_negated op"
  "length (cpu_registers (view_kernel k)) = length (registers k)"
  "length (cpu_parameters (view_kernel k)) = length (parameters k)"
  "length (cpu_operations (view_kernel k)) = length (operations k)"
  "length (cpu_shared_words (view_kernel k)) = length (shared_allocations k)"
  by (simp_all add: view_operation_def view_kernel_def)

lemma view_opcode: "opcode_of (op_opcode op) = Some c \<Longrightarrow> cop_opcode (view_operation op) = c"
  by (simp add: view_operation_def)

lemma view_register:
  assumes "enumerators_in_range k" "r < length (registers k)"
  shows "value_kind_of (reg_kind (registers k ! r)) = Some (cpu_registers (view_kernel k) ! r)"
  using assms by (auto simp: enumerators_in_range_def view_kernel_def list_all_length)

lemma view_parameter:
  assumes "enumerators_in_range k" "i < length (parameters k)"
  shows "parameter_kind_of (param_kind (parameters k ! i)) = Some (cpu_parameters (view_kernel k) ! i)"
  using assms by (auto simp: enumerators_in_range_def view_kernel_def list_all_length)

lemma view_nth_opcode:
  assumes "enumerators_in_range k" "i < length (operations k)"
  shows "opcode_of (op_opcode (operations k ! i)) =
    Some (cop_opcode (cpu_operations (view_kernel k) ! i))"
  using assms
  by (auto simp: enumerators_in_range_def view_kernel_def list_all_length view_operation_def)

lemma has_opcode_iff:
  assumes "enumerators_in_range k"
  shows "has_opcode c (operations k) \<longleftrightarrow> cpu_has_opcode c (view_kernel k)"
proof -
  have "opcode_of (op_opcode op) = Some c \<longleftrightarrow> cop_opcode (view_operation op) = c"
    if "op \<in> set (operations k)" for op
    using assms that
    by (auto simp: enumerators_in_range_def list_all_iff view_operation_def simp del: not_None_eq)
  then show ?thesis
    by (auto simp: has_opcode_def cpu_has_opcode_def list_ex_iff view_kernel_def)
qed

lemma verify_result_iff:
  assumes "enumerators_in_range k" "opcode_of (op_opcode op) = Some c"
  shows "fst (verify_result k op d) = [] \<longleftrightarrow> \<not> result_bad (view_kernel k) (view_operation op) d"
    and "fst (verify_result k op d) = [] \<Longrightarrow> snd (verify_result k op d) = define_result (view_operation op) d"
  using assms view_register [OF assms(1), of "unat (op_result op)"]
  by (auto simp: verify_result_def result_bad_def define_result_def contracts_agree view_opcode
      Let_def split: if_splits)

lemma verify_input_iff:
  assumes "enumerators_in_range k" "opcode_of (op_opcode op) = Some c"
    and "op_input_count op = input_count (cpu_operation_contract c)" "op_input_count op \<le> 3"
    and "i < unat (op_input_count op)"
  shows "verify_input k op d i = [] \<longleftrightarrow> \<not> input_bad (view_kernel k) (view_operation op) d i"
  using assms view_register [OF assms(1), of "unat (at3 (op_inputs op) i)"]
  by (auto simp: verify_input_def input_bad_def contracts_agree view_opcode view_input Let_def
      not_le simp del: at3.simps)

lemma verify_guard_iff:
  assumes "enumerators_in_range k" "opcode_of (op_opcode op) = Some c"
  shows "verify_guard k op d = [] \<longleftrightarrow> \<not> guard_bad (view_kernel k) (view_operation op) d"
  using assms view_register [OF assms(1), of "unat (op_predicate op)"]
  by (auto simp: verify_guard_def guard_bad_def view_opcode may_be_predicated_iff Let_def not_le)

lemma parameter_differs_iff:
  "enumerators_in_range k \<Longrightarrow> parameter_differs k a pk \<longleftrightarrow> parameter_bad (view_kernel k) a pk"
  using view_parameter [of k "unat a"]
  by (auto simp: parameter_differs_def parameter_bad_def not_le)

lemma verify_attribute_iff:
  assumes "enumerators_in_range k" "opcode_of (op_opcode op) = Some c"
  shows "verify_attribute k i op = [] \<longleftrightarrow> \<not> attribute_bad (view_kernel k) i (view_operation op)"
  using assms view_nth_opcode [OF assms(1), of "unat (op_attribute op)"]
  by (simp add: verify_attribute_def attribute_bad_def view_opcode parameter_differs_iff Let_def
      not_le) auto

lemma verify_operation_iff:
  assumes "enumerators_in_range k" "opcode_of (op_opcode op) \<noteq> None"
  shows "fst (verify_operation k i op d) = [] \<longleftrightarrow>
      \<not> operation_bad (view_kernel k) i (view_operation op) d"
    and "fst (verify_operation k i op d) = [] \<Longrightarrow>
      snd (verify_operation k i op d) = define_result (view_operation op) d"
proof -
  obtain c where c: "opcode_of (op_opcode op) = Some c"
    using assms(2) by auto
  let ?n = "op_input_count op"
  have inputs: "concat (map (verify_input k op d') [0..<min (unat ?n) 3]) = [] \<longleftrightarrow>
      \<not> list_ex (input_bad (view_kernel k) (view_operation op) d') [0..<unat ?n]"
    if "?n = input_count (cpu_operation_contract c)" "\<not> 3 < ?n" for d'
    using that verify_input_iff [OF assms(1) c]
    by (auto simp: list_ex_iff word_le_nat_alt not_less min_def)
  show fst: "fst (verify_operation k i op d) = [] \<longleftrightarrow>
      \<not> operation_bad (view_kernel k) i (view_operation op) d"
    using verify_result_iff [OF assms(1) c, of d]
      inputs [of "define_result (view_operation op) d"]
    by (auto simp: verify_operation_def operation_bad_def Let_def is_valid_opcode_iff c
        contracts_agree view_opcode verify_guard_iff [OF assms(1) c]
        verify_attribute_iff [OF assms(1) c] split: prod.split)
  show "snd (verify_operation k i op d) = define_result (view_operation op) d"
    if "fst (verify_operation k i op d) = []"
    using that verify_result_iff [OF assms(1) c, of d]
    by (auto simp: verify_operation_def Let_def split: prod.splits)
qed

lemma verify_operations_iff:
  assumes "enumerators_in_range k"
  shows "list_all (\<lambda>op. opcode_of (op_opcode op) \<noteq> None) ops \<Longrightarrow>
    verify_operations k i ops d = [] \<longleftrightarrow>
    \<not> operations_bad (view_kernel k) i (map view_operation ops) d"
proof (induction ops arbitrary: i d)
  case (Cons op ops)
  with verify_operation_iff [OF assms, of op i d] show ?case
    by (auto simp: Let_def split: prod.split)
qed simp

lemma verify_operations_opcodes:
  "verify_operations k i ops d = [] \<Longrightarrow> list_all (\<lambda>op. opcode_of (op_opcode op) \<noteq> None) ops"
  by (induction ops arbitrary: i d)
    (auto simp: verify_operation_def Let_def is_valid_opcode_iff split: prod.splits)

lemma verify_header_iff:
  "verify_header k = [] \<longleftrightarrow> header_accepted k \<and> operations k \<noteq> [] \<and>
    length (shared_allocations k) \<le> 64 \<and> verify_shared 0 (shared_allocations k) = [] \<and>
    list_all (\<lambda>p. parameter_kind_of (param_kind p) \<noteq> None) (parameters k) \<and>
    list_all (\<lambda>r. value_kind_of (reg_kind r) \<noteq> None) (registers k) \<and>
    \<not> (has_opcode BarrierSync (operations k) \<and> has_opcode BranchIf (operations k))"
  by (auto simp: verify_header_def header_accepted_def kKernelIrSchemaVersion_def kernel_limits
      valid_parameter_kind_iff valid_value_kind_iff list_all_iff not_less simp del: not_None_eq)

lemma view_last:
  assumes "enumerators_in_range k" "operations k \<noteq> []"
  shows "opcode_of (op_opcode (last (operations k))) =
    Some (cop_opcode (last (cpu_operations (view_kernel k))))"
proof -
  have "cpu_operations (view_kernel k) \<noteq> []"
    using assms(2) by (simp add: view_kernel_def)
  then show ?thesis
    using assms(2) view_nth_opcode [OF assms(1), of "length (operations k) - 1"]
    by (simp add: last_conv_nth)
qed

lemma verify_iff_validate:
  "verify_kernel k = [] \<longleftrightarrow>
    header_accepted k \<and> enumerators_in_range k \<and> validate_kernel (view_kernel k) = None"
proof (cases "enumerators_in_range k")
  case True
  then have ops: "list_all (\<lambda>op. opcode_of (op_opcode op) \<noteq> None) (operations k)"
    by (simp add: enumerators_in_range_def)
  have map_ops: "cpu_operations (view_kernel k) = map view_operation (operations k)"
    "cpu_shared_words (view_kernel k) = map sh_words (shared_allocations k)"
    by (simp_all add: view_kernel_def)
  show ?thesis
    using True view_last [OF True] unfolding verify_kernel_def append_is_Nil_conv verify_header_iff
      verify_operations_iff [OF True ops]
    by (auto simp: enumerators_in_range_def validate_kernel_def verify_shared_iff map_ops
        has_opcode_iff [OF True] kernel_limits)
next
  case False
  then show ?thesis
    using verify_operations_opcodes [of k 0 "operations k"]
    by (auto simp: verify_kernel_def verify_header_iff enumerators_in_range_def)
qed

end
