(* ===== verification/KernelRoundtrip.thy ===== *)
theory KernelRoundtrip
  imports KernelAgreement
begin

text \<open>
  The canonical text of a verified kernel is read back by the interpreter's parser as the same
  kernel.
\<close>

section \<open>Tokens\<close>

named_theorems token \<open>what the reader does on a printed word followed by white space\<close>

definition is_token :: "string \<Rightarrow> bool" where
  "is_token w \<longleftrightarrow> w \<noteq> [] \<and> (\<forall>c \<in> set w. \<not> is_space c)"

lemma space_chars [token]: "is_space (CHR '' '')" "is_space (CHR 0x0A)"
  by (simp_all add: is_space_def)

lemma take_token_space [token]: "is_space c \<Longrightarrow> take_token (c # s) = take_token s"
  by (simp add: take_token_def)

text \<open>The text behind a printed word begins with white space.\<close>

definition starts_space :: "string \<Rightarrow> bool" where
  "starts_space s \<longleftrightarrow> s \<noteq> [] \<and> is_space (hd s)"

lemma starts_space_Cons [token]: "starts_space (c # s) \<longleftrightarrow> is_space c"
  by (simp add: starts_space_def)

lemma take_token_word [token]:
  assumes "is_token w" "starts_space s"
  shows "take_token (w @ s) = Some (w, s)"
proof -
  obtain c t where s: "s = c # t" "is_space c"
    using assms(2) by (cases s) (auto simp: starts_space_def)
  have "dropWhile is_space (w @ c # t) = w @ c # t"
    using assms(1) by (cases w) (auto simp: is_token_def)
  with assms(1) s show ?thesis
    by (auto simp: take_token_def is_token_def takeWhile_append dropWhile_append)
qed

lemma expect_space [token]: "is_space c \<Longrightarrow> expect w (c # s) = expect w s"
  by (simp add: expect_def token)

lemma take_as_space [token]: "is_space c \<Longrightarrow> take_as f (c # s) = take_as f s"
  by (simp add: take_as_def token)

lemma take_as_word [token]:
  "is_token w \<Longrightarrow> starts_space s \<Longrightarrow> take_as f (w @ s) = map_option (\<lambda>v. (v, s)) (f w)"
  by (simp add: take_as_def token)

lemma take_u32_as: "take_u32 = take_as parse_u32"
  by (rule ext) (simp add: take_u32_def take_as_def)

section \<open>Printed numbers and names\<close>

lemma digit_char_simps:
  assumes "d < 10"
  shows "is_digit (digit_char d)" "\<not> is_space (digit_char d)" "of_char (digit_char d) = 48 + d"
proof -
  have code: "of_char (digit_char d) = 48 + d"
    using assms by (simp add: digit_char_def)
  then show "of_char (digit_char d) = 48 + d" .
  show "is_digit (digit_char d)"
    using assms by (simp add: is_digit_def code)
  have "digit_char d \<noteq> CHR '' ''"
    using code by (intro notI) simp
  then show "\<not> is_space (digit_char d)"
    by (simp add: is_space_def code)
qed

lemma decimal_simps:
  "n < 10 \<Longrightarrow> decimal n = [digit_char n]"
  "\<not> n < 10 \<Longrightarrow> decimal n = decimal (n div 10) @ [digit_char (n mod 10)]"
  by (subst decimal.simps; simp)+

lemma decimal_is_token [token]: "is_token (decimal n)"
  by (induction n rule: decimal.induct)
    (subst decimal.simps, auto simp: is_token_def digit_char_simps)

lemma decimal_digits: "list_all is_digit (decimal n)"
  by (induction n rule: decimal.induct)
    (subst decimal.simps, auto simp: digit_char_simps)

lemma decimal_value_snoc: "decimal_value (s @ [c]) = 10 * decimal_value s + (of_char c - 48)"
  by (simp add: decimal_value_def)

lemma decimal_value_decimal: "decimal_value (decimal n) = n"
proof (induction n rule: decimal.induct)
  case (1 n)
  show ?case
  proof (cases "n < 10")
    case True
    then show ?thesis
      by (simp add: decimal_simps decimal_value_def digit_char_simps)
  next
    case False
    then show ?thesis
      using 1 by (simp add: decimal_simps decimal_value_snoc digit_char_simps)
  qed
qed

lemma parse_u32_decimal [token]: "n < 2 ^ 32 \<Longrightarrow> parse_u32 (decimal n) = Some (of_nat n)"
  using decimal_is_token [of n] decimal_digits [of n]
  by (simp add: parse_u32_def decimal_value_decimal is_token_def)

lemma parse_u32_dec32 [token]: "parse_u32 (dec32 w) = Some w"
  using unsigned_less [of w, where 'a=nat] by (simp add: parse_u32_decimal)

lemma optional_register_token [token]: "is_token (optional_register w)"
  using decimal_is_token by (simp add: optional_register_def) (simp add: is_token_def is_space_def)

lemma dec32_not_dash: "dec32 w \<noteq> ''-''"
proof
  assume "dec32 w = ''-''"
  then have "list_all is_digit ''-''"
    using decimal_digits by metis
  then show False
    by (simp add: is_digit_def)
qed

lemma parse_optional_register_print [token]: "parse_optional_register (optional_register w) = Some w"
  by (simp add: parse_optional_register_def optional_register_def dec32_not_dash token)

lemma bool_digit_token [token]: "is_token (bool_digit b)" "parse_bool (bool_digit b) = Some b"
  by (simp_all add: bool_digit_def parse_bool_def is_token_def is_space_def)

lemma parameter_kind_name_token [token]:
  "is_token (parameter_kind_name (Some pk))"
  "parse_parameter_kind (parameter_kind_name (Some pk)) = Some pk"
  by (cases pk; simp add: is_token_def is_space_def parse_parameter_kind_def)+

lemma value_kind_name_token [token]:
  "is_token (value_kind_name (Some vk))"
  "parse_value_kind (value_kind_name (Some vk)) = Some vk"
  by (cases vk; simp add: is_token_def is_space_def parse_value_kind_def)+

lemma opcode_name_token [token]: "is_token (opcode_name (Some c))"
  by (cases c; simp add: is_token_def is_space_def)

lemma parse_opcode_name [token]: "parse_opcode (opcode_name (Some c)) = Some c"
proof -
  have "list_all (\<lambda>c. parse_opcode (opcode_name (Some c)) = Some c) opcode_enumerators"
    by code_simp
  moreover have "c \<in> set opcode_enumerators"
    by (cases c) (simp_all add: opcode_enumerators_def)
  ultimately show ?thesis
    by (simp add: list_all_iff)
qed

lemma kernel_name_char:
  "is_alpha c \<or> is_digit c \<or> c = CHR ''_'' \<or> c = CHR ''$'' \<Longrightarrow> \<not> is_space c"
  by (auto simp: is_alpha_def is_digit_def is_space_def)

lemma kernel_name_token [token]: "valid_kernel_name w \<Longrightarrow> is_token w"
proof (cases w)
  case (Cons c cs)
  moreover assume "valid_kernel_name w"
  ultimately show ?thesis
    using kernel_name_char by (auto simp: is_token_def)
qed simp

section \<open>Lines\<close>

lemma expect_keyword:
  assumes "is_token w"
  shows "expect w (w @ '' '' @ s) = Some (CHR '' '' # s)"
  using assms by (simp add: expect_def token)

lemma keyword_tokens [token]:
  "is_token ''MFKIR''" "is_token ''PTX''" "is_token ''KERNEL''" "is_token ''PARAMETERS''"
  "is_token ''PARAMETER''" "is_token ''SHARED_ALLOCATIONS''" "is_token ''SHARED_U32''"
  "is_token ''REGISTERS''" "is_token ''REGISTER''" "is_token ''OPERATIONS''" "is_token ''OP''"
  "is_token ''END''"
  by (simp_all add: is_token_def is_space_def)

lemmas expect_keywords [unfolded append_Cons append_Nil, token] =
  keyword_tokens [THEN expect_keyword]

lemma parse_entries_print:
  assumes "is_token kw" "\<And>x. x \<in> set xs \<Longrightarrow> is_token (p x) \<and> f (p x) = Some (g x)"
  shows "parse_entries kw f (length xs)
      (CHR 0x0A # concat (map (\<lambda>x. kw @ '' '' @ p x @ newline) xs) @ s) =
    Some (map g xs, CHR 0x0A # s)"
  using assms(2)
proof (induction xs)
  case (Cons x xs)
  then show ?case
    using expect_keyword [OF assms(1)] by (simp add: token newline_def)
qed simp

lemma parse_section_print:
  assumes "is_token title" "is_token kw" "length xs \<le> limit" "length xs < 2 ^ 32"
    and "\<And>x. x \<in> set xs \<Longrightarrow> is_token (p x) \<and> f (p x) = Some (g x)"
  shows "parse_section title limit kw f
      (CHR 0x0A # title @ '' '' @ decimal (length xs) @ newline @
       concat (map (\<lambda>x. kw @ '' '' @ p x @ newline) xs) @ s) =
    Some (map g xs, CHR 0x0A # s)"
proof -
  have "unat (of_nat (length xs) :: u32) = length xs"
    using assms(4) by (simp add: unsigned_of_nat take_bit_nat_eq_self)
  then show ?thesis
    using assms(3,4) expect_keyword [OF assms(1)] parse_entries_print [of kw xs p f g s, OF assms(2,5)]
    by (simp add: parse_section_def take_u32_where_def take_u32_as token newline_def)
qed

lemma printed_inputs_start [token]:
  "starts_space s \<Longrightarrow> starts_space (concat (map (\<lambda>v. CHR '' '' # dec32 v) vs) @ s)"
  by (cases vs) (simp_all add: token)

lemma parse_inputs_print:
  "starts_space s \<Longrightarrow>
    parse_inputs (length vs) (concat (map (\<lambda>v. CHR '' '' # dec32 v) vs) @ s) = Some (vs, s)"
  by (induction vs) (simp_all add: take_u32_as token)

lemma parse_operation_print:
  assumes "opcode_of (op_opcode op) = Some c" "op_input_count op \<le> 3"
  shows "parse_operation i (CHR 0x0A # serialize_operation op @ s) =
    Inr (view_operation op, CHR 0x0A # s)"
proof -
  let ?vs = "map (at3 (op_inputs op)) [0..<unat (op_input_count op)]"
  have inputs: "map (\<lambda>i. '' '' @ dec32 (at3 (op_inputs op) i)) [0..<unat (op_input_count op)] =
      map (\<lambda>v. CHR '' '' # dec32 v) ?vs"
    by simp
  show ?thesis
    unfolding serialize_operation_def parse_operation_def inputs
    using assms parse_inputs_print [of _ ?vs]
    by (simp add: token newline_def view_operation_def take_u32_where_def take_u32_as
        del: map_map at3.simps)
qed

lemma parse_operations_print:
  assumes "list_all (\<lambda>op. opcode_of (op_opcode op) \<noteq> None \<and> op_input_count op \<le> 3) ops"
  shows "parse_operations i (length ops) (CHR 0x0A # concat (map serialize_operation ops) @ s) =
    Inr (map view_operation ops, CHR 0x0A # s)"
  using assms
  by (induction ops arbitrary: i) (auto simp: parse_operation_print)

section \<open>The whole text\<close>

lemma operations_bad_counts:
  "\<not> operations_bad k i ops d \<Longrightarrow> list_all (\<lambda>op. cop_input_count op \<le> 3) ops"
  by (induction ops arbitrary: i d) (auto simp: operation_bad_def not_less)

lemma verified_kernel_facts:
  assumes "verify_kernel k = []"
  shows "header_accepted k" "enumerators_in_range k" "validate_kernel (view_kernel k) = None"
    "operations k \<noteq> []" "length (shared_allocations k) \<le> 64"
    "list_all (\<lambda>op. opcode_of (op_opcode op) \<noteq> None \<and> op_input_count op \<le> 3) (operations k)"
proof -
  show *: "header_accepted k" "enumerators_in_range k" "validate_kernel (view_kernel k) = None"
    using assms by (simp_all add: verify_iff_validate)
  show "operations k \<noteq> []" "length (shared_allocations k) \<le> 64"
    using assms by (simp_all add: verify_kernel_def verify_header_iff)
  have "list_all (\<lambda>op. cop_input_count op \<le> 3) (cpu_operations (view_kernel k))"
    using *(3) by (intro operations_bad_counts) (auto simp: validate_kernel_def split: if_splits)
  then show "list_all (\<lambda>op. opcode_of (op_opcode op) \<noteq> None \<and> op_input_count op \<le> 3) (operations k)"
    using *(2) by (auto simp: enumerators_in_range_def list_all_iff view_kernel_def)
qed

lemma parse_serialized:
  assumes "verify_kernel k = []" "length (serialize_text k) \<le> kMaximumArtifactBytes"
  shows "parse_kernel (serialize_text k) = Inr (view_kernel k)"
proof -
  note facts = verified_kernel_facts [OF assms(1)]
  have name: "is_token (kernel_name k)"
    using facts(1) by (simp add: header_accepted_def token)
  have params: "parse_section ''PARAMETERS'' kMaximumParameters ''PARAMETER'' parse_parameter_kind
      (CHR 0x0A # ''PARAMETERS'' @ '' '' @ decimal (length (parameters k)) @ newline @
       concat (map (\<lambda>p. ''PARAMETER'' @ '' '' @
         parameter_kind_name (parameter_kind_of (param_kind p)) @ newline) (parameters k)) @ s) =
      Some (cpu_parameters (view_kernel k), CHR 0x0A # s)" for s
    unfolding view_kernel_def cpu_kernel.simps using facts(1,2)
    by (intro parse_section_print)
      (auto simp: token header_accepted_def kernel_limits enumerators_in_range_def list_all_iff)
  have shared: "parse_section ''SHARED_ALLOCATIONS'' kMaximumSharedAllocations ''SHARED_U32'' parse_u32
      (CHR 0x0A # ''SHARED_ALLOCATIONS'' @ '' '' @ decimal (length (shared_allocations k)) @ newline @
       concat (map (\<lambda>a. ''SHARED_U32'' @ '' '' @ dec32 (sh_words a) @ newline)
         (shared_allocations k)) @ s) =
      Some (cpu_shared_words (view_kernel k), CHR 0x0A # s)" for s
    unfolding view_kernel_def cpu_kernel.simps using facts(5)
    by (intro parse_section_print) (auto simp: token kernel_limits)
  have regs: "parse_section ''REGISTERS'' kMaximumRegisters ''REGISTER'' parse_value_kind
      (CHR 0x0A # ''REGISTERS'' @ '' '' @ decimal (length (registers k)) @ newline @
       concat (map (\<lambda>r. ''REGISTER'' @ '' '' @
         value_kind_name (value_kind_of (reg_kind r)) @ newline) (registers k)) @ s) =
      Some (cpu_registers (view_kernel k), CHR 0x0A # s)" for s
    unfolding view_kernel_def cpu_kernel.simps using facts(1,2)
    by (intro parse_section_print)
      (auto simp: token header_accepted_def kernel_limits enumerators_in_range_def list_all_iff)
  note ops = parse_operations_print [OF facts(6)]
  have count: "take_u32_where (\<lambda>n. n \<noteq> 0 \<and> unat n \<le> kMaximumOperations)
      (CHR '' '' # decimal (length (operations k)) @ CHR 0x0A # s) =
      Some (of_nat (length (operations k)), CHR 0x0A # s)"
    "unat (of_nat (length (operations k)) :: u32) = length (operations k)" for s
    using facts(1,4) dvd_imp_le [of "2 ^ 32" "length (operations k)"]
    by (auto simp: take_u32_where_def take_u32_as token header_accepted_def kernel_limits
        unsigned_of_nat take_bit_nat_eq_self word_of_nat_eq_0_iff)
  have finish: "expect ''END'' (''END'' @ newline) = Some newline" "exhausted newline"
    by (simp_all add: expect_def exhausted_def take_token_def is_space_def newline_def)
  have view: "\<lparr>cpu_parameters = cpu_parameters (view_kernel k),
      cpu_shared_words = cpu_shared_words (view_kernel k),
      cpu_registers = cpu_registers (view_kernel k),
      cpu_operations = map view_operation (operations k)\<rparr> = view_kernel k"
    by (simp add: view_kernel_def)
  have "\<not> kMaximumArtifactBytes < length (serialize_text k)"
    using assms(2) by simp
  then show ?thesis
    unfolding parse_kernel_def parse_tail_def if_not_P
    using facts(1,3) name params shared regs ops count finish view
    by (simp add: serialize_text_def token newline_def take_u32_where_def [of "\<lambda>n. n = _"] take_u32_as
      kKernelIrSchemaVersion_def header_accepted_def)
qed

section \<open>The text as an interface\<close>

text \<open>
  What a producer and a consumer of an artifact rely on: an artifact that fits decodes to what its
  producer meant. Then the artifact determines its meaning.
\<close>

locale artifact_codec =
  fixes encode :: "'k \<Rightarrow> 'e + 't"
    and decode :: "'t \<Rightarrow> 'd + 'v"
    and meaning :: "'k \<Rightarrow> 'v"
    and fits :: "'t \<Rightarrow> bool"
  assumes decode_encode: "encode k = Inr t \<Longrightarrow> fits t \<Longrightarrow> decode t = Inr (meaning k)"
begin

lemma encode_determines:
  assumes "encode k' = Inr t" "encode k = Inr t" "fits t"
  shows "meaning k' = meaning k"
  using decode_encode [OF assms(1,3)] decode_encode [OF assms(2,3)] by simp

end

interpretation kernel_text: artifact_codec serialize_kernel parse_kernel view_kernel
  "\<lambda>t. length t \<le> kMaximumArtifactBytes"
  by unfold_locales
    (use parse_serialized in \<open>auto simp: serialize_kernel_def Let_def split: if_splits\<close>)

section \<open>The properties\<close>

text \<open>A kernel in which every thread stores a scalar argument at its own index of a buffer.\<close>

definition sample_operation :: "u32 \<Rightarrow> u32 \<Rightarrow> u32 list \<Rightarrow> u32 \<Rightarrow> operation" where
  "sample_operation code result inputs attribute = \<lparr>op_opcode = code, op_result = result,
    op_inputs = zero_filled inputs, op_input_count = of_nat (length inputs),
    op_attribute = attribute, op_flag = False, op_predicate = kNoValue,
    op_predicate_negated = False, op_location = default_location\<rparr>"

definition sample_kernel :: kernel where
  "sample_kernel = \<lparr>schema_version = 2, ptx_major = 9, ptx_minor = 0, kernel_name = ''fill'',
    parameters = [\<lparr>param_kind = 0, param_location = default_location\<rparr>,
      \<lparr>param_kind = 1, param_location = default_location\<rparr>],
    shared_allocations = [],
    registers = map (\<lambda>w. \<lparr>reg_kind = w, reg_location = default_location\<rparr>) [4, 1, 2, 4, 1],
    operations = [
      sample_operation 0 0 [] 0,
      sample_operation 4 1 [] 0,
      sample_operation 13 2 [1] 4,
      sample_operation 15 3 [0, 2] 0,
      sample_operation 1 4 [] 1,
      sample_operation 33 kNoValue [3, 4] 0,
      sample_operation 41 kNoValue [] 0]\<rparr>"

lemmas kernel_evaluation = verify_iff_validate header_accepted_def enumerators_in_range_def
  validate_kernel_def view_kernel_def view_operation_def sample_operation_def zero_filled_def
  is_alpha_def kernel_limits opcode_of_def value_kind_of_def parameter_kind_of_def enumerator_def
  opcode_enumerators_def cpu_has_opcode_def operation_bad_def result_bad_def define_result_def
  input_bad_def guard_bad_def attribute_bad_def parameter_bad_def kNoValue_def upt_conv_Cons

lemmas text_evaluation = serialize_text_def serialize_operation_def sample_operation_def
  decimal_simps opcode_of_def value_kind_of_def parameter_kind_of_def zero_filled_def
  enumerator_def opcode_enumerators_def newline_def optional_register_def bool_digit_def
  kNoValue_def kMaximumArtifactBytes_def kKernelIrSchemaVersion_def upt_conv_Cons

lemma sample_kernel_verified: "verify_kernel sample_kernel = []"
  by (simp add: sample_kernel_def kernel_evaluation)

lemma sample_text_short: "length (serialize_text sample_kernel) \<le> kMaximumArtifactBytes"
  by (simp add: sample_kernel_def text_evaluation)

text \<open>C12. The compiler's verifier and the interpreter's validator accept the same kernels. A kernel
  has no diagnostics exactly when its header and its limits are in order, every enumeration-typed
  field holds an enumerator, and the interpreter's own validator accepts the kernel it would
  read. So nothing the compiler passes on is refused by the interpreter, and nothing the
  interpreter accepts, with a proper header, would have been refused by the compiler.
\<close>

theorem verifier_matches_validator:
  "verify_kernel k = [] \<longleftrightarrow>
    header_accepted k \<and> enumerators_in_range k \<and> validate_kernel (view_kernel k) = None"
  by (rule verify_iff_validate)

text \<open>C6. The canonical text carries a kernel to the interpreter unchanged, and identifies it. If
  \<open>serialize_kernel\<close> returns a text that is within the interpreter's artifact limit, then
  \<open>parse_kernel\<close> returns the kernel itself, without the source locations and the name; and any
  kernel with the same text is the same kernel to the interpreter, as the cache that is keyed by
  the text relies on.
\<close>

theorem serialized_kernel_parses_back:
  assumes "serialize_kernel k = Inr artifact" "length artifact \<le> kMaximumArtifactBytes"
  shows "parse_kernel artifact = Inr (view_kernel k) \<and>
    (\<forall>k'. serialize_kernel k' = Inr artifact \<longrightarrow> view_kernel k' = view_kernel k)"
  using kernel_text.decode_encode [OF assms] kernel_text.encode_determines [OF _ assms] by blast

theorem serialized_kernel_parses_back_witness:
  "serialize_kernel sample_kernel = Inr (serialize_text sample_kernel) \<and>
   length (serialize_text sample_kernel) \<le> kMaximumArtifactBytes \<and>
   parse_kernel (serialize_text sample_kernel) = Inr (view_kernel sample_kernel)"
proof -
  have printed: "serialize_kernel sample_kernel = Inr (serialize_text sample_kernel)"
    by (simp add: serialize_kernel_def sample_kernel_verified)
  with serialized_kernel_parses_back [OF printed sample_text_short] sample_text_short show ?thesis
    by blast
qed

end
