(* ===== verification/CpuProgress.thy ===== *)
theory CpuProgress
  imports CpuInterp KernelRoundtrip
begin

text \<open>
  Control flow of the interpreter: how an operation moves a thread, that a thread of a parsed
  kernel only moves forward, and that the scheduling loop of a block therefore ends.
\<close>

section \<open>What parsing guarantees\<close>

lemma need_Inr: "need e n x f = Inr r \<longleftrightarrow> (\<exists>v. x = Some v \<and> f v = Inr r)"
  by (simp add: need_def parse_failure_def split: option.split)

lemma parse_operations_length:
  "parse_operations i n s = Inr (ops, s') \<Longrightarrow> length ops = n"
  by (induction n arbitrary: i s ops s') (auto split: sum.splits prod.splits)

lemma take_u32_where_holds: "take_u32_where P s = Some (v, s') \<Longrightarrow> P v"
  by (auto simp: take_u32_where_def split: option.splits prod.splits if_splits)

lemma parsed_tail:
  assumes "parse_tail params shared regs s = Inr k"
  shows "validate_kernel k = None \<and> length (cpu_operations k) \<le> 65536"
proof -
  obtain count s1 where count: "take_u32_where (\<lambda>n. n \<noteq> 0 \<and> unat n \<le> kMaximumOperations) s1 =
      Some count"
    and rest: "(case parse_operations 0 (unat (fst count)) (snd count) of Inl d \<Rightarrow> Inl d
      | Inr (ops, s) \<Rightarrow> need InvalidArtifact kNoValue (expect ''END'' s) (\<lambda>s.
        if \<not> exhausted s then parse_failure InvalidArtifact kNoValue else
        let k = \<lparr>cpu_parameters = params, cpu_shared_words = shared, cpu_registers = regs,
          cpu_operations = ops\<rparr> in
        (case validate_kernel k of Some e \<Rightarrow> parse_failure e kNoValue | None \<Rightarrow> Inr k))) = Inr k"
    using assms unfolding parse_tail_def need_Inr by (auto simp: case_prod_beta)
  have "unat (fst count) \<le> 65536"
    using count take_u32_where_holds [of _ s1 "fst count" "snd count"] by (auto simp: kernel_limits)
  then show ?thesis
    using rest parse_operations_length
    by (auto simp: need_Inr parse_failure_def Let_def
        split: sum.splits prod.splits if_splits option.splits)
qed

lemma parsed_kernel:
  assumes "parse_kernel text = Inr k"
  shows "validate_kernel k = None" "length (cpu_operations k) \<le> 65536"
proof -
  obtain params shared regs s where "parse_tail params shared regs s = Inr k"
    using assms
    by (auto simp: parse_kernel_def need_Inr parse_failure_def case_prod_beta split: if_splits)
  from parsed_tail [OF this] show "validate_kernel k = None" "length (cpu_operations k) \<le> 65536"
    by simp_all
qed

section \<open>How an operation moves its thread\<close>

text \<open>The result of an operation that goes on to the next one.\<close>

definition moves_on :: "thread_state \<Rightarrow> fault + machine \<Rightarrow> bool" where
  "moves_on t r \<longleftrightarrow> (case r of Inl _ \<Rightarrow> True | Inr (t', _) \<Rightarrow> ts_pc t' = ts_pc t + 1 \<and>
    ts_waiting t' = ts_waiting t \<and> ts_returned t' = ts_returned t \<and> ts_steps t' = ts_steps t)"

named_theorems moves \<open>operations that go on to the next one\<close>

lemma moves_on_Inl [moves]: "moves_on t (Inl f)"
  by (simp add: moves_on_def)

lemma moves_on_advance [moves]:
  "ts_pc t' = ts_pc t \<Longrightarrow> ts_waiting t' = ts_waiting t \<Longrightarrow> ts_returned t' = ts_returned t \<Longrightarrow>
    ts_steps t' = ts_steps t \<Longrightarrow> moves_on t (Inr (advance (t', rest)))"
  by (simp add: moves_on_def advance_def)

lemma moves_on_assign [moves]: "moves_on (fst m) (assign op m v)"
  by (auto simp: assign_def moves split: prod.split)

lemma moves_on_and_then: "(\<And>x. moves_on t (f x)) \<Longrightarrow> moves_on t (and_then r f)"
  by (simp add: and_then_def moves split: sum.split)

lemma moves_on_fail [moves]: "moves_on t (fail_with c m er)"
  by (simp add: fail_with_def moves)

lemma moves_on_operations [moves]:
  "moves_on (fst m) (unary get f op m)"
  "moves_on (fst m) (binary get' f' op m)"
  "moves_on (fst m) (ternary get'' f'' op m)"
  "moves_on (fst m) (select get1 f1 op m)"
  "moves_on (fst m) (load_global f2 e c op m)"
  "moves_on (fst m) (store_global get2 e c op m)"
  "moves_on (fst m) (store_global_byte e c op m)"
  "moves_on (fst m) (store_global_wide e c op m)"
  "moves_on (fst m) (load_shared c op m)"
  "moves_on (fst m) (store_shared c op m)"
  "moves_on (fst m) (add_global_address c op m)"
  "moves_on (fst m) (add_shared_address op m)"
  by (auto simp: unary_def binary_def ternary_def select_def load_global_def store_global_def
      store_global_byte_def store_global_wide_def load_shared_def store_shared_def
      add_global_address_def add_shared_address_def moves
      intro!: moves_on_and_then split: sum.split prod.split)

lemma moves_on_opcode:
  assumes "c \<noteq> BranchIf" "c \<noteq> BarrierSync" "c \<noteq> Return"
  shows "moves_on (fst m) (execute_opcode c e co op m)"
  using assms by (cases c) (simp_all add: moves moves_on_and_then)

text \<open>
  Where a thread is after an operation, by the operation's code: behind it, waiting at it,
  returned, or at the branch target.
\<close>

definition next_control :: "cpu_operation \<Rightarrow> thread_state \<Rightarrow> thread_state \<Rightarrow> bool" where
  "next_control op t t' \<longleftrightarrow> ts_steps t' = ts_steps t \<and>
    (if cop_opcode op = BarrierSync \<and> cop_predicate op = kNoValue then
       ts_pc t' = ts_pc t \<and> ts_waiting t' \<and> ts_returned t' = ts_returned t
     else if cop_opcode op = Return \<and> cop_predicate op = kNoValue then
       ts_pc t' = ts_pc t + 1 \<and> ts_waiting t' = ts_waiting t \<and> ts_returned t'
     else if cop_opcode op = BranchIf then
       (ts_pc t' = ts_pc t + 1 \<or> ts_pc t' = cop_attribute op) \<and>
       ts_waiting t' = ts_waiting t \<and> ts_returned t' = ts_returned t
     else ts_pc t' = ts_pc t + 1 \<and> ts_waiting t' = ts_waiting t \<and> ts_returned t' = ts_returned t)"

lemma next_control_moves_on:
  "moves_on t (Inr (t', rest)) \<Longrightarrow> cop_opcode op \<notin> {BarrierSync, Return} \<or> cop_predicate op \<noteq> kNoValue
    \<Longrightarrow> next_control op t t'"
  by (auto simp: next_control_def moves_on_def)

lemma execute_opcode_next:
  assumes "execute_opcode (cop_opcode op) e co op m = Inr m'"
    and "cop_opcode op \<in> {BarrierSync, Return} \<Longrightarrow> cop_predicate op = kNoValue"
  shows "next_control op (fst m) (fst m')"
proof (cases "cop_opcode op \<in> {BranchIf, BarrierSync, Return}")
  case True
  with assms show ?thesis
    by (cases m)
      (auto simp: next_control_def branch_if_def advance_def and_then_def Let_def
        split: sum.splits prod.splits)
next
  case False
  then have "moves_on (fst m) (Inr m')"
    using moves_on_opcode [of "cop_opcode op" m e co op] assms(1) by auto
  with False show ?thesis
    by (intro next_control_moves_on [where rest = "snd m'"]) simp_all
qed

lemma execute_guarded_next:
  assumes "execute_guarded e co op m = Inr m'"
    and "cop_opcode op \<in> {BarrierSync, Return} \<Longrightarrow> cop_predicate op = kNoValue"
  shows "next_control op (fst m) (fst m')"
proof (cases "execute_opcode (cop_opcode op) e co op m = Inr m'")
  case True
  then show ?thesis
    by (rule execute_opcode_next) (use assms(2) in auto)
next
  case False
  then have "cop_predicate op \<noteq> kNoValue" "m' = advance m"
    using assms(1) by (auto simp: execute_guarded_def and_then_def split: if_splits sum.splits)
  then show ?thesis
    by (intro next_control_moves_on [where rest = "snd m"])
      (auto simp: moves_on_def advance_def split: prod.splits)
qed

section \<open>What validation guarantees at each operation\<close>

definition defined_at :: "cpu_kernel \<Rightarrow> nat \<Rightarrow> bool list" where
  "defined_at k i = fold define_result (take i (cpu_operations k))
    (replicate (length (cpu_registers k)) False)"

lemma operations_bad_nth:
  "\<not> operations_bad k i ops d \<Longrightarrow> j < length ops \<Longrightarrow>
    \<not> operation_bad k (i + j) (ops ! j) (fold define_result (take j ops) d)"
proof (induction ops arbitrary: i j d)
  case (Cons op ops)
  then show ?case
    using Cons.IH [of "Suc i" "define_result op d" "j - 1"] by (cases j) auto
qed simp

lemma validated_operation:
  assumes "validate_kernel k = None" "i < length (cpu_operations k)"
  shows "\<not> operation_bad k i (cpu_operations k ! i) (defined_at k i)"
  using assms operations_bad_nth [of k 0 "cpu_operations k" _ i]
  by (auto simp: validate_kernel_def defined_at_def split: if_splits)

lemma validated_last:
  assumes "validate_kernel k = None"
  shows "cpu_operations k \<noteq> []" "cop_opcode (last (cpu_operations k)) = Return"
  using assms by (auto simp: validate_kernel_def split: if_splits)

lemma validated_control:
  assumes "validate_kernel k = None" "i < length (cpu_operations k)"
  defines "op \<equiv> cpu_operations k ! i"
  shows "cop_opcode op \<in> {BarrierSync, Return, BranchIf} \<Longrightarrow> cop_predicate op = kNoValue"
    and "cop_opcode op = Return \<longleftrightarrow> i + 1 = length (cpu_operations k)"
    and "cop_opcode op = BranchIf \<Longrightarrow> i < unat (cop_attribute op) \<and>
      unat (cop_attribute op) + 1 = length (cpu_operations k)"
proof -
  have ok: "\<not> guard_bad k op (define_result op (defined_at k i))" "\<not> attribute_bad k i op"
    if "i < length (cpu_operations k)" "op = cpu_operations k ! i" for i op
    using validated_operation [OF assms(1) that(1)] that(2) by (auto simp: operation_bad_def)
  show "cop_opcode op \<in> {BarrierSync, Return, BranchIf} \<Longrightarrow> cop_predicate op = kNoValue"
    using ok(1) [OF assms(2)] op_def
    by (auto simp: guard_bad_def cpu_may_be_predicated_def Let_def split: if_splits)
  have return_last: "j + 1 = length (cpu_operations k)"
    if "j < length (cpu_operations k)" "cop_opcode (cpu_operations k ! j) = Return" for j
    using ok(2) [OF that(1) refl] that(2) by (simp add: attribute_bad_def Let_def)
  show "cop_opcode op = Return \<longleftrightarrow> i + 1 = length (cpu_operations k)"
    using return_last [OF assms(2)] validated_last [OF assms(1)]
    by (metis add_diff_cancel_right' last_conv_nth op_def)
  show "i < unat (cop_attribute op) \<and> unat (cop_attribute op) + 1 = length (cpu_operations k)"
    if "cop_opcode op = BranchIf"
    using ok(2) [OF assms(2), of op] that return_last [of "unat (cop_attribute op)"] op_def
    by (simp add: attribute_bad_def Let_def)
qed

section \<open>Progress\<close>

definition thread_rank :: "cpu_kernel \<Rightarrow> thread_state \<Rightarrow> nat" where
  "thread_rank k t = (if ts_returned t then 0
    else 2 * (length (cpu_operations k) - unat (ts_pc t)) + (if ts_waiting t then 0 else 1))"

definition control_ok :: "cpu_kernel \<Rightarrow> thread_state \<Rightarrow> bool" where
  "control_ok k t \<longleftrightarrow> (ts_waiting t \<longrightarrow> \<not> ts_returned t \<and> unat (ts_pc t) < length (cpu_operations k))"

definition runnable :: "cpu_kernel \<Rightarrow> bool" where
  "runnable k \<longleftrightarrow> validate_kernel k = None \<and> length (cpu_operations k) \<le> 65536"

lemma parsed_runnable: "parse_kernel text = Inr k \<Longrightarrow> runnable k"
  by (simp add: runnable_def parsed_kernel)

lemma unat_Suc_pc: "unat (pc :: u32) < 65536 \<Longrightarrow> unat (pc + 1) = unat pc + 1"
  by (simp add: unat_word_ariths)

lemma execute_one_next:
  assumes "runnable (en_kernel e)" "execute_one e c (t, rest) = (None, (t', rest'))"
  defines "op \<equiv> cpu_operations (en_kernel e) ! unat (ts_pc t)"
  shows "unat (ts_pc t) < length (cpu_operations (en_kernel e))"
    and "next_control op (t\<lparr>ts_steps := ts_steps t + 1\<rparr>) t'"
    and "execute_guarded e c op (t\<lparr>ts_steps := ts_steps t + 1\<rparr>, rest) = Inr (t', rest')"
proof -
  show pc: "unat (ts_pc t) < length (cpu_operations (en_kernel e))"
    and run: "execute_guarded e c op (t\<lparr>ts_steps := ts_steps t + 1\<rparr>, rest) = Inr (t', rest')"
    using assms(2) by (auto simp: execute_one_def Let_def op_def split: if_splits sum.splits)
  from validated_control(1) [of "en_kernel e", OF _ pc] assms(1)
  have "cop_opcode op \<in> {BarrierSync, Return} \<Longrightarrow> cop_predicate op = kNoValue"
    by (auto simp: op_def runnable_def)
  from execute_guarded_next [OF run this]
  show "next_control op (t\<lparr>ts_steps := ts_steps t + 1\<rparr>) t'"
    by simp
qed

lemma execute_one_rank:
  assumes "runnable (en_kernel e)" "execute_one e c (t, rest) = (None, (t', rest'))"
    and "\<not> ts_waiting t" "\<not> ts_returned t"
  shows "thread_rank (en_kernel e) t' < thread_rank (en_kernel e) t" "control_ok (en_kernel e) t'"
proof -
  note step = execute_one_next [OF assms(1,2)]
  have "validate_kernel (en_kernel e) = None" "unat (ts_pc t) < 65536"
    using assms(1) step(1) by (auto simp: runnable_def)
  note control = validated_control [OF this(1) step(1)] and Suc = unat_Suc_pc [OF this(2)]
  show "thread_rank (en_kernel e) t' < thread_rank (en_kernel e) t"
    using step(1,2) control(3) assms(3,4)
    by (auto simp: next_control_def thread_rank_def Suc split: if_splits)
  show "control_ok (en_kernel e) t'"
    using step(1,2) assms(3,4) by (auto simp: next_control_def control_ok_def split: if_splits)
qed

text \<open>A pass by its first thread: one that is done or waits, one that fails, one that goes on.\<close>

lemma cta_pass_idle:
  fixes e cx cy ts mem shared
  assumes "ts_returned t \<or> ts_waiting t"
  defines "p \<equiv> cta_pass e cx cy (t # ts) mem shared" and "q \<equiv> cta_pass e cx cy ts mem shared"
  shows "ps_fault p = ps_fault q" "ps_threads p = t # ps_threads q" "ps_memory p = ps_memory q"
    "ps_shared p = ps_shared q" "ps_progressed p = ps_progressed q"
    "ps_returned p = ps_returned q + (if ts_returned t then 1 else 0)"
    "ps_waiting p = ps_waiting q + (if \<not> ts_returned t \<and> ts_waiting t then 1 else 0)"
  using assms(1) by (auto simp: p_def q_def Let_def)

lemma cta_pass_fails:
  fixes ts
  assumes "\<not> ts_returned t" "\<not> ts_waiting t"
    and "execute_one e (thread_coordinates cx cy t) (t, mem, shared) = (Some f, t', mem', shared')"
  defines "p \<equiv> cta_pass e cx cy (t # ts) mem shared"
  shows "ps_fault p = Some f" "ps_memory p = mem'"
  using assms(1-3) by (simp_all add: p_def)

lemma cta_pass_runs:
  fixes ts
  assumes "\<not> ts_returned t" "\<not> ts_waiting t"
    and "execute_one e (thread_coordinates cx cy t) (t, mem, shared) = (None, t', mem', shared')"
  defines "p \<equiv> cta_pass e cx cy (t # ts) mem shared" and "q \<equiv> cta_pass e cx cy ts mem' shared'"
  shows "ps_fault p = ps_fault q" "ps_threads p = t' # ps_threads q" "ps_memory p = ps_memory q"
    "ps_shared p = ps_shared q" "ps_progressed p"
    "ps_returned p = ps_returned q + (if ts_returned t' then 1 else 0)"
    "ps_waiting p = ps_waiting q + (if \<not> ts_returned t' \<and> ts_waiting t' then 1 else 0)"
  using assms(1-3) by (simp_all add: p_def q_def Let_def)

lemma cta_pass_length [simp]: "length (ps_threads (cta_pass e cx cy ts mem shared)) = length ts"
  by (induction e cx cy ts mem shared rule: cta_pass.induct)
    (auto simp: Let_def split: prod.split option.split)

lemma cta_pass_rank:
  assumes "runnable (en_kernel e)"
    and "ps_fault (cta_pass e cx cy ts mem shared) = None"
    and "\<forall>t \<in> set ts. control_ok (en_kernel e) t"
  defines "p \<equiv> cta_pass e cx cy ts mem shared"
  shows "(\<Sum>t\<leftarrow>ps_threads p. thread_rank (en_kernel e) t) + (if ps_progressed p then 1 else 0) \<le>
      (\<Sum>t\<leftarrow>ts. thread_rank (en_kernel e) t) \<and>
    (\<forall>t \<in> set (ps_threads p). control_ok (en_kernel e) t)"
  using assms(2,3) unfolding p_def
proof (induction ts arbitrary: mem shared)
  case (Cons t ts)
  show ?case
  proof (cases "ts_returned t \<or> ts_waiting t")
    case True
    with Cons.prems Cons.IH [of mem shared] show ?thesis
      by (auto simp: Let_def split: if_splits)
  next
    case False
    obtain f t' mem' shared' where run:
      "execute_one e (thread_coordinates cx cy t) (t, mem, shared) = (f, t', mem', shared')"
      by (metis prod.exhaust)
    with Cons.prems False have f: "f = None"
      by (auto split: option.splits)
    show ?thesis
      using Cons.prems Cons.IH [of mem' shared'] False run f
        execute_one_rank [OF assms(1) run [unfolded f]]
      by (auto simp: Let_def split: if_splits)
  qed
qed simp

lemma release_rank:
  assumes "runnable k" "control_ok k t" "ts_waiting t"
  shows "thread_rank k (release t) < thread_rank k t" "control_ok k (release t)"
proof -
  have "unat (ts_pc t) < 65536"
    using assms by (simp add: runnable_def control_ok_def)
  then show "thread_rank k (release t) < thread_rank k t" "control_ok k (release t)"
    using assms by (auto simp: thread_rank_def release_def control_ok_def unat_Suc_pc)
qed

lemma after_pass_cases:
  assumes "after_pass cx cy p = Inr ts'"
  shows "ps_fault p = None" "ps_threads p \<noteq> [] \<or> ps_returned p \<noteq> 0"
    "ts' = ps_threads p \<and> ps_progressed p \<or>
     ts' = map release (ps_threads p) \<and> (\<forall>t \<in> set (ps_threads p). ts_waiting t)"
  using assms by (auto simp: after_pass_def Let_def list_all_iff split: if_splits)

lemma after_pass_rank:
  assumes "runnable (en_kernel e)" "\<forall>t \<in> set ts. control_ok (en_kernel e) t"
    and "after_pass cx cy (cta_pass e cx cy ts mem shared) = Inr ts'"
  shows "(\<Sum>t\<leftarrow>ts'. thread_rank (en_kernel e) t) < (\<Sum>t\<leftarrow>ts. thread_rank (en_kernel e) t)"
    and "\<forall>t \<in> set ts'. control_ok (en_kernel e) t" "length ts' = length ts"
proof -
  let ?p = "cta_pass e cx cy ts mem shared" and ?r = "thread_rank (en_kernel e)"
  note cases = after_pass_cases [OF assms(3)]
  note pass = cta_pass_rank [OF assms(1) cases(1) assms(2)]
  have released: "(\<Sum>t\<leftarrow>map release us. ?r t) < (\<Sum>t\<leftarrow>us. ?r t)"
    if "us \<noteq> []" "\<forall>t \<in> set us. control_ok (en_kernel e) t \<and> ts_waiting t" for us
    using that
  proof (induction us rule: list_nonempty_induct)
    case (cons t us)
    then show ?case
      using release_rank(1) [OF assms(1), of t] by simp
  qed (use release_rank(1) [OF assms(1)] in simp)
  have "ps_returned ?p = 0" if "ps_threads ?p = []"
    using that cta_pass_length [of e cx cy ts mem shared] by (cases ts) auto
  with cases(2) have "ps_threads ?p \<noteq> []"
    by auto
  with cases(3) pass released [of "ps_threads ?p"]
  show "(\<Sum>t\<leftarrow>ts'. ?r t) < (\<Sum>t\<leftarrow>ts. ?r t)"
    by (auto split: if_splits)
  show "\<forall>t \<in> set ts'. control_ok (en_kernel e) t" "length ts' = length ts"
    using cases(3) pass release_rank(2) [OF assms(1)] by auto
qed

lemma cta_loop_ends:
  assumes "runnable (en_kernel e)"
  shows "\<forall>t \<in> set ts. control_ok (en_kernel e) t \<Longrightarrow>
    (\<Sum>t\<leftarrow>ts. thread_rank (en_kernel e) t) < fuel \<Longrightarrow>
    \<exists>result. cta_loop fuel i e cx cy stop ts mem shared = Some result"
proof (induction fuel arbitrary: i ts mem shared)
  case (Suc fuel)
  show ?case
  proof (cases "after_pass cx cy (cta_pass e cx cy ts mem shared)")
    case (Inr ts')
    note step = after_pass_rank [OF assms Suc.prems(1) Inr]
    show ?thesis
      using Suc.IH [OF step(2)] step(1) Suc.prems(2) Inr by (simp add: Let_def)
  qed (simp add: Let_def)
qed simp

lemma initial_thread:
  assumes "t \<in> set (initial_threads k l)"
  shows "ts_registers t = replicate (length (cpu_registers k)) Monostate" "ts_pc t = 0"
    "ts_steps t = 0" "\<not> ts_waiting t" "\<not> ts_returned t"
  using assms by (auto simp: initial_threads_def)

lemma length_initial_threads:
  "length (initial_threads k l) = unat (block_x l) * unat (block_y l)"
  by (simp add: initial_threads_def length_concat comp_def sum_list_triv)

definition block_fuel :: "cpu_kernel \<Rightarrow> launch_dimensions \<Rightarrow> nat" where
  "block_fuel k l = unat (block_x l) * unat (block_y l) * (2 * length (cpu_operations k) + 1) + 1"

lemma execute_cta_ends:
  assumes "runnable (en_kernel e)" "block_fuel (en_kernel e) (en_launch e) \<le> fuel"
  shows "\<exists>result. execute_cta fuel e cx cy stop mem = Some result"
  unfolding execute_cta_def
proof (rule cta_loop_ends [OF assms(1)])
  let ?ts = "initial_threads (en_kernel e) (en_launch e)"
  show "\<forall>t \<in> set ?ts. control_ok (en_kernel e) t"
    using initial_thread(4) by (auto simp: control_ok_def)
  have "map (thread_rank (en_kernel e)) ?ts =
      map (\<lambda>_. 2 * length (cpu_operations (en_kernel e)) + 1) ?ts"
    using initial_thread by (auto simp: thread_rank_def)
  then show "(\<Sum>t\<leftarrow>?ts. thread_rank (en_kernel e) t) < fuel"
    using assms(2) by (simp only: sum_list_triv) (simp add: block_fuel_def length_initial_threads)
qed

end
