(* ===== verification/CpuTyping.thy ===== *)
theory CpuTyping
  imports CpuProgress
begin

text \<open>
  Type safety of the interpreter: in a validated kernel a register that is read has been written
  with a value of its declared kind, so that no \<open>std::get\<close> fails and no index leaves its vector.
  The one gap of both verifiers, an operation that reads the register it defines itself, is an
  explicit side condition.
\<close>

section \<open>Typed registers\<close>

fun value_ok :: "exec_env \<Rightarrow> value_kind \<Rightarrow> runtime_value \<Rightarrow> bool" where
  "value_ok e Predicate (VBool _) = True"
| "value_ok e U32 (VU32 _) = True"
| "value_ok e U64 (VU64 _) = True"
| "value_ok e F32 (VFloat _) = True"
| "value_ok e GlobalAddress (VGlobal p _) = (buffer_of p (en_arguments e) \<noteq> None)"
| "value_ok e SharedAddress (VShared a _) = (unat a < length (cpu_shared_words (en_kernel e)))"
| "value_ok e _ _ = False"

lemma value_ok_kinds:
  "value_ok e Predicate v \<longleftrightarrow> (\<exists>b. v = VBool b)"
  "value_ok e U32 v \<longleftrightarrow> (\<exists>w. v = VU32 w)"
  "value_ok e U64 v \<longleftrightarrow> (\<exists>w. v = VU64 w)"
  "value_ok e F32 v \<longleftrightarrow> (\<exists>w. v = VFloat w)"
  "value_ok e GlobalAddress v \<longleftrightarrow> (\<exists>p b. v = VGlobal p b \<and> buffer_of p (en_arguments e) \<noteq> None)"
  "value_ok e SharedAddress v \<longleftrightarrow>
    (\<exists>a b. v = VShared a b \<and> unat a < length (cpu_shared_words (en_kernel e)))"
  by (cases v; simp)+

abbreviation op_at :: "exec_env \<Rightarrow> nat \<Rightarrow> cpu_operation" where
  "op_at e i \<equiv> cpu_operations (en_kernel e) ! i"

abbreviation contract_at :: "exec_env \<Rightarrow> nat \<Rightarrow> contract_record" where
  "contract_at e i \<equiv> cpu_operation_contract (cop_opcode (op_at e i))"

definition registers_typed :: "exec_env \<Rightarrow> nat \<Rightarrow> runtime_value list \<Rightarrow> bool" where
  "registers_typed e i vs \<longleftrightarrow> length vs = length (cpu_registers (en_kernel e)) \<and>
    (\<forall>j < i. has_result (contract_at e j) \<longrightarrow>
      value_ok e (cpu_registers (en_kernel e) ! unat (cop_result (op_at e j)))
        (vs ! unat (cop_result (op_at e j))))"

definition shared_ok :: "exec_env \<Rightarrow> shared_memory \<Rightarrow> bool" where
  "shared_ok e shared \<longleftrightarrow> map length shared = map unat (cpu_shared_words (en_kernel e))"

definition reads_own_result :: "cpu_operation \<Rightarrow> bool" where
  "reads_own_result op \<longleftrightarrow> has_result (cpu_operation_contract (cop_opcode op)) \<and>
    list_ex (\<lambda>i. at3 (cop_inputs op) i = cop_result op) [0..<unat (cop_input_count op)]"

definition no_self_reads :: "cpu_kernel \<Rightarrow> bool" where
  "no_self_reads k \<longleftrightarrow> list_all (\<lambda>op. \<not> reads_own_result op) (cpu_operations k)"

definition launchable :: "exec_env \<Rightarrow> bool" where
  "launchable e \<longleftrightarrow> runnable (en_kernel e) \<and> no_self_reads (en_kernel e) \<and>
    validate_arguments (en_kernel e) (en_arguments e) = None"

definition memory_fault :: "fault \<Rightarrow> bool" where
  "memory_fault f \<longleftrightarrow> (case f of Failure d \<Rightarrow>
      ed_error d \<in> {AddressOverflow, MisalignedAddress, OutOfBounds, WriteToReadOnly}
    | _ \<Rightarrow> False)"

section \<open>What the validator guarantees about registers\<close>

lemma length_define_result [simp]: "length (define_result op d) = length d"
  by (simp add: define_result_def)

lemma nth_define_result:
  "r < length d \<Longrightarrow> define_result op d ! r \<longleftrightarrow> d ! r \<or>
    (has_result (cpu_operation_contract (cop_opcode op)) \<and> unat (cop_result op) = r)"
  by (cases "unat (cop_result op) < length d") (auto simp: define_result_def nth_list_update)

lemma fold_define_result:
  "r < length d \<Longrightarrow> fold define_result ops d ! r \<longleftrightarrow> d ! r \<or>
    (\<exists>op \<in> set ops. has_result (cpu_operation_contract (cop_opcode op)) \<and> unat (cop_result op) = r)"
  by (induction ops arbitrary: d) (auto simp: nth_define_result)

lemma length_defined_at [simp]: "length (defined_at k i) = length (cpu_registers k)"
proof -
  have "length (fold define_result ops d) = length d" for ops d
    by (induction ops arbitrary: d) simp_all
  then show ?thesis
    by (simp add: defined_at_def)
qed

lemma defined_at_iff:
  assumes "r < length (cpu_registers k)" "i \<le> length (cpu_operations k)"
  shows "defined_at k i ! r \<longleftrightarrow> (\<exists>j < i. has_result (cpu_operation_contract
    (cop_opcode (cpu_operations k ! j))) \<and> unat (cop_result (cpu_operations k ! j)) = r)"
  using assms by (auto simp: defined_at_def fold_define_result simp flip: nth_image)

lemma validated_result:
  assumes "runnable (en_kernel e)" "i < length (cpu_operations (en_kernel e))"
    and "has_result (contract_at e i)"
  shows "unat (cop_result (op_at e i)) < length (cpu_registers (en_kernel e))"
    and "cpu_registers (en_kernel e) ! unat (cop_result (op_at e i)) = result_kind (contract_at e i)"
  using validated_operation [of "en_kernel e" i] assms
  by (auto simp: runnable_def operation_bad_def result_bad_def Let_def)

lemma validated_count:
  assumes "runnable (en_kernel e)" "i < length (cpu_operations (en_kernel e))"
  shows "cop_input_count (op_at e i) = input_count (contract_at e i)"
  using validated_operation [of "en_kernel e" i] assms
  by (auto simp: runnable_def operation_bad_def)

lemma validated_read:
  assumes "i < length (cpu_operations (en_kernel e))" "r < length (cpu_registers (en_kernel e))"
    and "define_result (op_at e i) (defined_at (en_kernel e) i) ! r"
    and "has_result (contract_at e i) \<Longrightarrow> r \<noteq> unat (cop_result (op_at e i))"
  shows "\<exists>j < i. has_result (contract_at e j) \<and> unat (cop_result (op_at e j)) = r"
proof -
  have "defined_at (en_kernel e) i ! r"
    using assms(2-4) by (auto simp: nth_define_result)
  then show ?thesis
    using assms(1,2) by (auto simp: defined_at_iff)
qed

lemma input_defined_before:
  assumes "runnable (en_kernel e)" "no_self_reads (en_kernel e)"
    and "i < length (cpu_operations (en_kernel e))" "j < unat (input_count (contract_at e i))"
  defines "r \<equiv> unat (input (op_at e i) j)"
  shows "r < length (cpu_registers (en_kernel e))"
    and "cpu_registers (en_kernel e) ! r = at3 (input_kinds (contract_at e i)) j"
    and "\<exists>l < i. has_result (contract_at e l) \<and> unat (cop_result (op_at e l)) = r"
proof -
  have "\<not> input_bad (en_kernel e) (op_at e i)
      (define_result (op_at e i) (defined_at (en_kernel e) i)) j"
    using validated_operation [of "en_kernel e" i] assms(1,3,4) validated_count [OF assms(1,3)]
    by (auto simp: runnable_def operation_bad_def list_ex_iff)
  then have defined: "define_result (op_at e i) (defined_at (en_kernel e) i) ! r"
    and reg: "r < length (cpu_registers (en_kernel e))"
    "cpu_registers (en_kernel e) ! r = at3 (input_kinds (contract_at e i)) j"
    by (auto simp: input_bad_def Let_def r_def)
  from reg show "r < length (cpu_registers (en_kernel e))"
    "cpu_registers (en_kernel e) ! r = at3 (input_kinds (contract_at e i)) j" .
  have "\<not> reads_own_result (op_at e i)"
    using assms(2,3) by (simp add: no_self_reads_def list_all_length)
  then have "has_result (contract_at e i) \<Longrightarrow> r \<noteq> unat (cop_result (op_at e i))"
    using assms(4) validated_count [OF assms(1,3)] unfolding r_def
    by (auto simp: reads_own_result_def list_ex_iff simp del: at3.simps simp flip: word_unat_eq_iff)
  from validated_read [OF assms(3) reg(1) defined this]
  show "\<exists>l < i. has_result (contract_at e l) \<and> unat (cop_result (op_at e l)) = r" .
qed

lemma validated_input:
  assumes "launchable e" "i < length (cpu_operations (en_kernel e))" "registers_typed e i vs"
    and "j < unat (input_count (contract_at e i))"
  shows "unat (input (op_at e i) j) < length vs"
    and "value_ok e (at3 (input_kinds (contract_at e i)) j) (vs ! unat (input (op_at e i) j))"
proof -
  have run: "runnable (en_kernel e)" "no_self_reads (en_kernel e)"
    using assms(1) by (simp_all add: launchable_def)
  note defined = input_defined_before [OF run assms(2,4)]
  show "value_ok e (at3 (input_kinds (contract_at e i)) j) (vs ! unat (input (op_at e i) j))"
    using defined assms(3) by (auto simp: registers_typed_def simp del: at3.simps)
  show "unat (input (op_at e i) j) < length vs"
    using defined(1) assms(3) by (simp add: registers_typed_def)
qed

lemma validated_guard:
  assumes "launchable e" "i < length (cpu_operations (en_kernel e))" "registers_typed e i vs"
    and "cop_predicate (op_at e i) \<noteq> kNoValue"
  shows "unat (cop_predicate (op_at e i)) < length vs"
    and "value_ok e Predicate (vs ! unat (cop_predicate (op_at e i)))"
    and "\<not> has_result (contract_at e i)"
proof -
  let ?r = "unat (cop_predicate (op_at e i))"
  have "\<not> guard_bad (en_kernel e) (op_at e i)
      (define_result (op_at e i) (defined_at (en_kernel e) i))"
    using validated_operation [of "en_kernel e" i] assms(1,2)
    by (auto simp: launchable_def runnable_def operation_bad_def)
  then have ok: "?r < length (cpu_registers (en_kernel e))" "cpu_registers (en_kernel e) ! ?r = Predicate"
    "define_result (op_at e i) (defined_at (en_kernel e) i) ! ?r"
    "cpu_may_be_predicated (cop_opcode (op_at e i))"
    using assms(4) by (auto simp: guard_bad_def Let_def)
  show "\<not> has_result (contract_at e i)"
    using ok(4) by (auto simp: cpu_may_be_predicated_def)
  then show "value_ok e Predicate (vs ! ?r)"
    using validated_read [OF assms(2) ok(1,3)] ok(2) assms(3) by (auto simp: registers_typed_def)
  show "?r < length vs"
    using ok(1) assms(3) by (simp add: registers_typed_def)
qed

section \<open>One operation is safe\<close>

text \<open>The situation in which operation \<open>i\<close> runs, and what it may end in.\<close>

definition ready :: "exec_env \<Rightarrow> nat \<Rightarrow> machine \<Rightarrow> bool" where
  "ready e i m \<longleftrightarrow> launchable e \<and> i < length (cpu_operations (en_kernel e)) \<and>
    registers_typed e i (ts_registers (fst m)) \<and> shared_ok e (snd (snd m))"

definition safe :: "exec_env \<Rightarrow> nat \<Rightarrow> fault + machine \<Rightarrow> bool" where
  "safe e i r \<longleftrightarrow> (case r of Inl f \<Rightarrow> memory_fault f
    | Inr m \<Rightarrow> registers_typed e (Suc i) (ts_registers (fst m)) \<and> shared_ok e (snd (snd m)))"

named_theorems safety \<open>operations of a launchable kernel are safe\<close>

lemma safe_fail [safety]:
  "er \<in> {AddressOverflow, MisalignedAddress, OutOfBounds, WriteToReadOnly} \<Longrightarrow>
    safe e i (fail_with c m er)"
  by (simp add: safe_def fail_with_def execution_failure_def memory_fault_def)

lemma safe_read:
  assumes "ready e i m" "j < unat (input_count (contract_at e i))"
    and "at3 (input_kinds (contract_at e i)) j = vk"
    and "\<And>v. value_ok e vk v \<Longrightarrow> get v \<noteq> None"
    and "\<And>v x. value_ok e vk v \<Longrightarrow> get v = Some x \<Longrightarrow> safe e i (f x)"
  shows "safe e i (and_then (read_register get m (input (op_at e i) j)) f)"
proof -
  note typed = validated_input [of e i "ts_registers (fst m)" j]
  have ok: "value_ok e vk (ts_registers (fst m) ! unat (input (op_at e i) j))"
    "unat (input (op_at e i) j) < length (ts_registers (fst m))"
    using assms(1-3) typed by (auto simp: ready_def simp del: at3.simps)
  then obtain x where x: "get (ts_registers (fst m) ! unat (input (op_at e i) j)) = Some x"
    using assms(4) by blast
  then have "read_register get m (input (op_at e i) j) = Inr x"
    using ok(2) by (simp add: read_register_def Let_def del: at3.simps)
  with assms(5) [OF ok(1) x] show ?thesis
    by simp
qed

lemma safe_assign:
  assumes "ready e i m" "has_result (contract_at e i)" "value_ok e (result_kind (contract_at e i)) v"
  shows "safe e i (assign (op_at e i) m v)"
proof -
  have run: "runnable (en_kernel e)" "i < length (cpu_operations (en_kernel e))"
    using assms(1) by (auto simp: ready_def launchable_def)
  note result = validated_result [OF run assms(2)]
  have "registers_typed e (Suc i) ((ts_registers (fst m))[unat (cop_result (op_at e i)) := v])"
    using assms result by (auto simp: ready_def registers_typed_def nth_list_update less_Suc_eq)
  moreover have "unat (cop_result (op_at e i)) < length (ts_registers (fst m))"
    using assms(1) result(1) by (simp add: ready_def registers_typed_def)
  ultimately show ?thesis
    using assms(1) by (cases m) (auto simp: assign_def advance_def safe_def ready_def)
qed

lemma safe_no_result:
  assumes "ready e i m" "\<not> has_result (contract_at e i)"
    and "ts_registers t' = ts_registers (fst m)" "map length shared' = map length (snd (snd m))"
  shows "safe e i (Inr (t', mem', shared'))"
  using assms by (auto simp: safe_def ready_def registers_typed_def shared_ok_def less_Suc_eq)

lemma safe_advance:
  "safe e i (Inr m) \<Longrightarrow> safe e i (Inr (advance m))"
  by (cases m) (simp add: safe_def advance_def)

abbreviation kinds_at :: "exec_env \<Rightarrow> nat \<Rightarrow> nat \<Rightarrow> value_kind" where
  "kinds_at e i j \<equiv> at3 (input_kinds (contract_at e i)) j"

lemma safe_unary:
  assumes "ready e i m" "has_result (contract_at e i)" "1 \<le> unat (input_count (contract_at e i))"
    and "\<And>v. value_ok e (kinds_at e i 0) v \<Longrightarrow> get v \<noteq> None"
    and "\<And>x. value_ok e (result_kind (contract_at e i)) (f x)"
  shows "safe e i (unary get f (op_at e i) m)"
  unfolding unary_def using assms by (intro safe_read safe_assign) auto

lemma safe_binary:
  assumes "ready e i m" "has_result (contract_at e i)" "2 \<le> unat (input_count (contract_at e i))"
    and "\<And>v. value_ok e (kinds_at e i 0) v \<Longrightarrow> get v \<noteq> None"
    and "\<And>v. value_ok e (kinds_at e i 1) v \<Longrightarrow> get v \<noteq> None"
    and "\<And>x y. value_ok e (result_kind (contract_at e i)) (f x y)"
  shows "safe e i (binary get f (op_at e i) m)"
  unfolding binary_def using assms by (intro safe_read safe_assign) auto

lemma safe_ternary:
  assumes "ready e i m" "has_result (contract_at e i)" "3 \<le> unat (input_count (contract_at e i))"
    and "\<And>v. value_ok e (kinds_at e i 0) v \<Longrightarrow> get v \<noteq> None"
    and "\<And>v. value_ok e (kinds_at e i 1) v \<Longrightarrow> get v \<noteq> None"
    and "\<And>v. value_ok e (kinds_at e i 2) v \<Longrightarrow> get v \<noteq> None"
    and "\<And>x y z. value_ok e (result_kind (contract_at e i)) (f x y z)"
  shows "safe e i (ternary get f (op_at e i) m)"
  unfolding ternary_def using assms by (intro safe_read safe_assign) auto

lemma safe_select:
  assumes "ready e i m" "has_result (contract_at e i)" "3 \<le> unat (input_count (contract_at e i))"
    and "\<And>v. value_ok e (kinds_at e i 0) v \<Longrightarrow> get v \<noteq> None"
    and "\<And>v. value_ok e (kinds_at e i 1) v \<Longrightarrow> get v \<noteq> None"
    and "kinds_at e i 2 = Predicate"
    and "\<And>x. value_ok e (result_kind (contract_at e i)) (f x)"
  shows "safe e i (select get f (op_at e i) m)"
  unfolding select_def
proof (rule safe_read [where vk = Predicate])
  show "safe e i (and_then (read_register get m (input (op_at e i) (if b then 0 else 1)))
      (\<lambda>x. assign (op_at e i) m (f x)))" for b
    using assms by (intro safe_read safe_assign) (auto split: if_splits)
qed (use assms in \<open>auto simp: value_ok_kinds\<close>)

lemma global_word_ok:
  "buffer_of (fst a) args \<noteq> None \<Longrightarrow> global_word a args w = Inl er \<Longrightarrow>
    er \<in> {MisalignedAddress, OutOfBounds, WriteToReadOnly}"
  by (auto simp: global_word_def split: option.splits if_splits)

lemma safe_load_global:
  assumes "ready e i m" "has_result (contract_at e i)" "1 \<le> unat (input_count (contract_at e i))"
    and "kinds_at e i 0 = GlobalAddress" "\<And>x. value_ok e (result_kind (contract_at e i)) (f x)"
  shows "safe e i (load_global f e c (op_at e i) m)"
  unfolding load_global_def using assms
  by (intro safe_read [where vk = GlobalAddress])
    (auto simp: value_ok_kinds split: sum.split intro!: safe_assign safe_fail dest!: global_word_ok [rotated])

lemma safe_store_global:
  assumes "ready e i m" "\<not> has_result (contract_at e i)" "2 \<le> unat (input_count (contract_at e i))"
    and "kinds_at e i 0 = GlobalAddress" "\<And>v. value_ok e (kinds_at e i 1) v \<Longrightarrow> get v \<noteq> None"
  shows "safe e i (store_global get e c (op_at e i) m)"
  unfolding store_global_def using assms
  by (intro safe_read [where vk = GlobalAddress])
    (auto simp: value_ok_kinds split: sum.split prod.split
      intro!: safe_read safe_fail safe_advance safe_no_result dest!: global_word_ok [rotated])

lemma global_byte_ok:
  "buffer_of (fst a) args \<noteq> None \<Longrightarrow> global_byte a args w = Inl er \<Longrightarrow>
    er \<in> {OutOfBounds, WriteToReadOnly}"
  by (auto simp: global_byte_def split: option.splits if_splits)

lemma store_global_u64_ok:
  "buffer_of (fst a) args \<noteq> None \<Longrightarrow> store_global_u64 a args v mem = Inl er \<Longrightarrow>
    er \<in> {MisalignedAddress, OutOfBounds, WriteToReadOnly}"
  by (auto simp: store_global_u64_def Let_def split: option.splits if_splits)

lemma safe_store_global_byte:
  assumes "ready e i m" "cop_opcode (op_at e i) = StoreGlobalU8"
  shows "safe e i (store_global_byte e c (op_at e i) m)"
  unfolding store_global_byte_def using assms
  by (intro safe_read [where vk = GlobalAddress])
    (auto simp: value_ok_kinds split: sum.split prod.split
      intro!: safe_read [where vk = U32] safe_fail safe_advance safe_no_result
      dest!: global_byte_ok [rotated])

lemma safe_store_global_wide:
  assumes "ready e i m" "cop_opcode (op_at e i) = StoreGlobalU64"
  shows "safe e i (store_global_wide e c (op_at e i) m)"
  unfolding store_global_wide_def using assms
  by (intro safe_read [where vk = GlobalAddress] safe_read [where vk = U64])
    (auto simp: value_ok_kinds split: sum.split prod.split
      intro!: safe_fail safe_advance safe_no_result dest!: store_global_u64_ok [rotated])

lemma shared_word_ok:
  assumes "shared_ok e shared" "unat (fst a) < length (cpu_shared_words (en_kernel e))"
  shows "shared_word a shared = Inl er \<Longrightarrow> er \<in> {MisalignedAddress, OutOfBounds}"
    and "shared_word a shared = Inr (al, i) \<Longrightarrow> al < length shared"
proof -
  have "length shared = length (cpu_shared_words (en_kernel e))"
    using assms(1) by (metis shared_ok_def length_map)
  then show "shared_word a shared = Inl er \<Longrightarrow> er \<in> {MisalignedAddress, OutOfBounds}"
    and "shared_word a shared = Inr (al, i) \<Longrightarrow> al < length shared"
    using assms(2) by (auto simp: shared_word_def Let_def split: if_splits)
qed

lemma safe_load_shared:
  assumes "ready e i m" "cop_opcode (op_at e i) = LoadSharedU32"
  shows "safe e i (load_shared c (op_at e i) m)"
proof -
  have "shared_ok e (snd (snd m))"
    using assms(1) by (simp add: ready_def)
  then show ?thesis
    unfolding load_shared_def using assms
    by (intro safe_read [where vk = SharedAddress])
      (auto simp: value_ok_kinds split: sum.split prod.split intro!: safe_assign safe_fail
        dest!: shared_word_ok(1) [rotated 2])
qed

lemma map_length_store:
  "al < length xs \<Longrightarrow> map length (xs[al := (xs ! al)[i := v]]) = map length xs"
  by (simp add: map_update list_update_same_conv)

lemma safe_store_shared:
  assumes "ready e i m" "cop_opcode (op_at e i) = StoreSharedU32"
  shows "safe e i (store_shared c (op_at e i) m)"
proof -
  have "shared_ok e (snd (snd m))"
    using assms(1) by (simp add: ready_def)
  then show ?thesis
    unfolding store_shared_def using assms
    by (intro safe_read [where vk = SharedAddress])
      (auto simp: value_ok_kinds map_length_store split: sum.split prod.split
        intro!: safe_read [where vk = U32] safe_fail safe_advance safe_no_result
        dest!: shared_word_ok [rotated 2])
qed

lemma safe_add_global_address:
  assumes "ready e i m" "cop_opcode (op_at e i) = AddGlobalAddress"
  shows "safe e i (add_global_address c (op_at e i) m)"
  unfolding add_global_address_def using assms
  by (intro safe_read [where vk = GlobalAddress] safe_read [where vk = U64])
    (auto simp: value_ok_kinds intro!: safe_assign safe_fail)

lemma safe_add_shared_address:
  assumes "ready e i m" "cop_opcode (op_at e i) = AddSharedAddress"
  shows "safe e i (add_shared_address (op_at e i) m)"
  unfolding add_shared_address_def using assms
  by (intro safe_read [where vk = SharedAddress] safe_read [where vk = U32])
    (auto simp: value_ok_kinds intro!: safe_assign)

lemma safe_branch_if:
  assumes "ready e i m" "cop_opcode (op_at e i) = BranchIf"
  shows "safe e i (branch_if (op_at e i) m)"
  unfolding branch_if_def using assms
  by (intro safe_read [where vk = Predicate])
    (auto simp: value_ok_kinds Let_def split: prod.split intro!: safe_no_result)

lemma argument_kinds:
  assumes "launchable e" "i < length (cpu_operations (en_kernel e))"
  defines "a \<equiv> cop_attribute (op_at e i)"
  shows "cop_opcode (op_at e i) = LoadParameterAddress \<Longrightarrow> buffer_of a (en_arguments e) \<noteq> None"
    and "cop_opcode (op_at e i) = LoadParameterU32 \<Longrightarrow> \<exists>w. read_argument arg_u32 e a = Inr w"
    and "cop_opcode (op_at e i) = LoadParameterF32 \<Longrightarrow> \<exists>w. read_argument arg_f32 e a = Inr w"
    and "cop_opcode (op_at e i) = LoadSharedAddress \<Longrightarrow>
      unat a < length (cpu_shared_words (en_kernel e))"
proof -
  have attr: "\<not> attribute_bad (en_kernel e) i (op_at e i)"
    using validated_operation [of "en_kernel e" i] assms(1,2)
    by (auto simp: launchable_def runnable_def operation_bad_def)
  have args: "list_all2 argument_matches (cpu_parameters (en_kernel e)) (en_arguments e)"
    using assms(1) by (auto simp: launchable_def validate_arguments_def split: if_splits)
  have arg: "unat a < length (en_arguments e) \<and> argument_matches pk (en_arguments e ! unat a)"
    if "\<not> parameter_bad (en_kernel e) a pk" for pk
    using that args by (auto simp: parameter_bad_def list_all2_conv_all_nth)
  show "buffer_of a (en_arguments e) \<noteq> None"
    if "cop_opcode (op_at e i) = LoadParameterAddress"
    using attr arg [of BufferU32] that
    by (cases "en_arguments e ! unat a") (auto simp: attribute_bad_def buffer_of_def a_def Let_def)
  show "\<exists>w. read_argument arg_u32 e a = Inr w" if "cop_opcode (op_at e i) = LoadParameterU32"
    using attr arg [of ScalarU32] that
    by (cases "en_arguments e ! unat a") (auto simp: attribute_bad_def read_argument_def a_def Let_def)
  show "\<exists>w. read_argument arg_f32 e a = Inr w" if "cop_opcode (op_at e i) = LoadParameterF32"
    using attr arg [of ScalarF32] that
    by (cases "en_arguments e ! unat a") (auto simp: attribute_bad_def read_argument_def a_def Let_def)
  show "unat a < length (cpu_shared_words (en_kernel e))"
    if "cop_opcode (op_at e i) = LoadSharedAddress"
    using attr that by (simp add: attribute_bad_def a_def Let_def)
qed

lemma safe_parameter_loads:
  assumes "ready e i m"
    and "cop_opcode (op_at e i) \<in>
      {LoadParameterAddress, LoadParameterU32, LoadParameterF32, LoadSharedAddress}"
  shows "safe e i (execute_opcode (cop_opcode (op_at e i)) e c (op_at e i) m)"
proof -
  have "launchable e" "i < length (cpu_operations (en_kernel e))"
    using assms(1) by (auto simp: ready_def)
  note kinds = argument_kinds [OF this]
  from assms(2) consider "cop_opcode (op_at e i) = LoadParameterAddress"
    | "cop_opcode (op_at e i) = LoadParameterU32" | "cop_opcode (op_at e i) = LoadParameterF32"
    | "cop_opcode (op_at e i) = LoadSharedAddress"
    by auto
  then show ?thesis
    using kinds safe_assign [OF assms(1)] by cases fastforce+
qed

lemma safe_opcode:
  assumes "ready e i m"
  shows "safe e i (execute_opcode (cop_opcode (op_at e i)) e c (op_at e i) m)"
proof (cases "cop_opcode (op_at e i)")
qed (use assms safe_parameter_loads [OF assms, of c] in
  \<open>auto simp: value_ok_kinds intro!: safe_assign safe_unary safe_binary safe_ternary safe_select
    safe_load_global safe_store_global safe_store_global_byte safe_store_global_wide
    safe_load_shared safe_store_shared safe_add_global_address safe_add_shared_address
    safe_branch_if safe_no_result safe_advance split: prod.split\<close>)

lemma safe_guarded:
  assumes "ready e i m"
  shows "safe e i (execute_guarded e c (op_at e i) m)"
proof (cases "cop_predicate (op_at e i) = kNoValue")
  case True
  then show ?thesis
    using safe_opcode [OF assms, of c] by (simp add: execute_guarded_def)
next
  case False
  have "launchable e" "i < length (cpu_operations (en_kernel e))"
    "registers_typed e i (ts_registers (fst m))"
    using assms by (auto simp: ready_def)
  note guard = validated_guard [OF this False]
  then obtain b where "read_register as_bool m (cop_predicate (op_at e i)) = Inr b"
    by (auto simp: read_register_def value_ok_kinds)
  moreover have "safe e i (Inr (advance m))"
    using safe_advance safe_no_result [OF assms guard(3), of "fst m" "snd (snd m)" "fst (snd m)"]
    by simp
  ultimately show ?thesis
    using False safe_opcode [OF assms, of c] by (simp add: execute_guarded_def)
qed

section \<open>One block is safe\<close>

definition thread_safe :: "exec_env \<Rightarrow> thread_state \<Rightarrow> bool" where
  "thread_safe e t \<longleftrightarrow> (let n = length (cpu_operations (en_kernel e)); pc = unat (ts_pc t) in
    length (ts_registers t) = length (cpu_registers (en_kernel e)) \<and>
    (\<not> ts_returned t \<longrightarrow> pc < n \<and> unat (ts_steps t) \<le> pc + (if ts_waiting t then 1 else 0)) \<and>
    (ts_waiting t \<longrightarrow> \<not> ts_returned t \<and> cop_opcode (op_at e pc) = BarrierSync) \<and>
    (pc + 1 < n \<longrightarrow> registers_typed e pc (ts_registers t)))"

lemma return_reads_nothing:
  assumes "runnable (en_kernel e)" "i + 1 = length (cpu_operations (en_kernel e))"
  shows "execute_guarded e c (op_at e i) (t, rest) = Inr (advance (t\<lparr>ts_returned := True\<rparr>, rest))"
proof -
  have "validate_kernel (en_kernel e) = None" "i < length (cpu_operations (en_kernel e))"
    using assms by (auto simp: runnable_def)
  from validated_control(1,2) [OF this] assms(2) show ?thesis
    by (simp add: execute_guarded_def)
qed

lemma execute_one_safe:
  assumes "launchable e" "thread_safe e t" "shared_ok e shared" "\<not> ts_returned t" "\<not> ts_waiting t"
  shows "execute_one e c (t, mem, shared) = (Some f, m') \<Longrightarrow> memory_fault f"
    and "execute_one e c (t, mem, shared) = (None, (t', mem', shared')) \<Longrightarrow>
      thread_safe e t' \<and> shared_ok e shared'"
proof -
  let ?n = "length (cpu_operations (en_kernel e))" and ?pc = "unat (ts_pc t)"
    and ?t1 = "t\<lparr>ts_steps := ts_steps t + 1\<rparr>"
  have run: "runnable (en_kernel e)" "?n \<le> 65536"
    using assms(1) by (auto simp: launchable_def runnable_def)
  have pc: "?pc < ?n" "unat (ts_steps t) \<le> ?pc"
    using assms(2,4,5) by (auto simp: thread_safe_def Let_def)
  have steps: "unat (ts_steps t + 1) = unat (ts_steps t) + 1"
    using pc run(2) by (simp add: unat_word_ariths)
  then have limit: "\<not> kMaximumThreadSteps < ts_steps t + 1"
    using pc run(2) by (simp add: kMaximumThreadSteps_def word_less_nat_alt)
  have step: "safe e ?pc (execute_guarded e c (op_at e ?pc) (?t1, mem, shared))" if "?pc + 1 < ?n"
    using assms that by (intro safe_guarded) (auto simp: ready_def thread_safe_def Let_def)
  show "memory_fault f" if one: "execute_one e c (t, mem, shared) = (Some f, m')"
  proof (cases "?pc + 1 < ?n")
    case True
    with step one limit pc(1) show ?thesis
      by (auto simp: execute_one_def Let_def safe_def split: sum.splits)
  next
    case False
    with pc(1) have "?pc + 1 = ?n"
      by simp
    with one limit pc(1) return_reads_nothing [OF run(1) this] show ?thesis
      by (simp add: execute_one_def Let_def)
  qed
  assume one: "execute_one e c (t, mem, shared) = (None, (t', mem', shared'))"
  note nxt = execute_one_next [OF run(1) one]
  note control = validated_control [OF _ pc(1)] and Suc = unat_Suc_pc [of "ts_pc t"]
  show "thread_safe e t' \<and> shared_ok e shared'"
  proof (cases "?pc + 1 < ?n")
    case True
    then have "registers_typed e (Suc ?pc) (ts_registers t')" "shared_ok e shared'"
      using step nxt(3) by (auto simp: safe_def)
    moreover have "registers_typed e ?pc (ts_registers t')"
      using \<open>registers_typed e (Suc ?pc) (ts_registers t')\<close> by (simp add: registers_typed_def)
    ultimately show ?thesis
      using True nxt(2) control assms(4,5) pc steps run Suc
      by (auto simp: thread_safe_def next_control_def runnable_def registers_typed_def Let_def
          split: if_splits)
  next
    case False
    with pc(1) have last: "?pc + 1 = ?n"
      by simp
    with nxt(3) return_reads_nothing [OF run(1) last, of c ?t1 "(mem, shared)"]
    have "t' = ?t1\<lparr>ts_returned := True, ts_pc := ts_pc t + 1\<rparr>" "shared' = shared"
      by (auto simp: advance_def)
    then show ?thesis
      using assms(2,3,5) last pc run(2) Suc by (auto simp: thread_safe_def Let_def)
  qed
qed

lemma cta_pass_safe:
  assumes "launchable e"
  shows "\<forall>t \<in> set ts. thread_safe e t \<Longrightarrow> shared_ok e shared \<Longrightarrow>
    (case ps_fault (cta_pass e cx cy ts mem shared) of Some f \<Rightarrow> memory_fault f
     | None \<Rightarrow> (\<forall>t \<in> set (ps_threads (cta_pass e cx cy ts mem shared)). thread_safe e t) \<and>
        shared_ok e (ps_shared (cta_pass e cx cy ts mem shared)))"
proof (induction ts arbitrary: mem shared)
  case (Cons t ts)
  show ?case
  proof (cases "ts_returned t \<or> ts_waiting t")
    case True
    then show ?thesis
      using Cons.IH [of shared mem] Cons.prems
      by (simp add: cta_pass_idle del: cta_pass.simps split: option.splits)
  next
    case False
    obtain f t' mem' shared' where run:
      "execute_one e (thread_coordinates cx cy t) (t, mem, shared) = (f, t', mem', shared')"
      by (metis prod.exhaust)
    have "thread_safe e t" "shared_ok e shared" "\<not> ts_returned t" "\<not> ts_waiting t"
      using Cons.prems False by auto
    note one = execute_one_safe [OF assms this, of "thread_coordinates cx cy t"]
    show ?thesis
    proof (cases f)
      case None
      then have "thread_safe e t'" "shared_ok e shared'"
        using one(2) run by auto
      then show ?thesis
        using Cons.IH [of shared' mem'] Cons.prems cta_pass_runs(1-4) [OF _ _ run [unfolded None]] False
        by (simp del: cta_pass.simps split: option.splits)
    next
      case (Some f)
      then show ?thesis
        using one(1) run False cta_pass_fails(1) [OF _ _ run [unfolded Some]]
        by (auto simp del: cta_pass.simps)
    qed
  qed
qed simp

lemma release_safe:
  assumes "launchable e" "thread_safe e t" "ts_waiting t"
  shows "thread_safe e (release t)"
proof -
  let ?pc = "unat (ts_pc t)"
  have t: "?pc < length (cpu_operations (en_kernel e))" "cop_opcode (op_at e ?pc) = BarrierSync"
    "\<not> ts_returned t"
    using assms(2,3) by (auto simp: thread_safe_def Let_def)
  have run: "validate_kernel (en_kernel e) = None" "length (cpu_operations (en_kernel e)) \<le> 65536"
    using assms(1) by (auto simp: launchable_def runnable_def)
  have "?pc + 1 < length (cpu_operations (en_kernel e))"
    using validated_control(2) [OF run(1) t(1)] t by auto
  then show ?thesis
    using assms(2,3) t run(2) unat_Suc_pc [of "ts_pc t"]
    by (auto simp: thread_safe_def release_def registers_typed_def Let_def less_Suc_eq)
qed

section \<open>The loop of a block is safe\<close>

lemma cta_pass_counts:
  "ps_fault (cta_pass e cx cy ts mem shared) = None \<Longrightarrow>
    ps_returned (cta_pass e cx cy ts mem shared) =
      length (filter ts_returned (ps_threads (cta_pass e cx cy ts mem shared))) \<and>
    ps_waiting (cta_pass e cx cy ts mem shared) =
      length (filter (\<lambda>t. \<not> ts_returned t \<and> ts_waiting t)
        (ps_threads (cta_pass e cx cy ts mem shared)))"
proof (induction ts arbitrary: mem shared)
  case (Cons t ts)
  show ?case
  proof (cases "ts_returned t \<or> ts_waiting t")
    case True
    then show ?thesis
      using Cons.IH [of mem shared] Cons.prems by (simp add: cta_pass_idle del: cta_pass.simps)
  next
    case False
    obtain f t' mem' shared' where run:
      "execute_one e (thread_coordinates cx cy t) (t, mem, shared) = (f, t', mem', shared')"
      by (metis prod.exhaust)
    with Cons.prems False have f: "f = None"
      using cta_pass_fails(1) [of t e cx cy mem shared] by (cases f) auto
    show ?thesis
      using Cons.IH [of mem' shared'] Cons.prems False cta_pass_runs [OF _ _ run [unfolded f]]
      by (simp del: cta_pass.simps)
  qed
qed simp

definition stepped :: "exec_env \<Rightarrow> thread_state \<Rightarrow> thread_state \<Rightarrow> bool" where
  "stepped e t t' \<longleftrightarrow> (if ts_returned t then t' = t
    else \<exists>c rest rest'. execute_one e c (t, rest) = (None, (t', rest')))"

lemma cta_pass_stepped:
  "ps_fault (cta_pass e cx cy ts mem shared) = None \<Longrightarrow> \<forall>t \<in> set ts. \<not> ts_waiting t \<Longrightarrow>
    list_all2 (stepped e) ts (ps_threads (cta_pass e cx cy ts mem shared)) \<and>
    (ps_progressed (cta_pass e cx cy ts mem shared) \<longleftrightarrow> (\<exists>t \<in> set ts. \<not> ts_returned t))"
proof (induction ts arbitrary: mem shared)
  case (Cons t ts)
  show ?case
  proof (cases "ts_returned t")
    case True
    with Cons show ?thesis
      by (auto simp: Let_def stepped_def)
  next
    case False
    obtain f t' mem' shared' where run:
      "execute_one e (thread_coordinates cx cy t) (t, mem, shared) = (f, t', mem', shared')"
      by (metis prod.exhaust)
    with Cons.prems False have f: "f = None"
      using cta_pass_fails(1) [of t e cx cy mem shared] by (cases f) auto
    from run f have "stepped e t t'"
      unfolding stepped_def using False by simp blast
    then show ?thesis
      using Cons.IH [of mem' shared'] Cons.prems False cta_pass_runs [OF _ _ run [unfolded f]]
      by (auto simp del: cta_pass.simps)
  qed
qed simp

definition loop_safe :: "exec_env \<Rightarrow> thread_state list \<Rightarrow> bool" where
  "loop_safe e ts \<longleftrightarrow> (\<forall>t \<in> set ts. thread_safe e t \<and> \<not> ts_waiting t) \<and>
    (cpu_has_opcode BarrierSync (en_kernel e) \<longrightarrow>
      (\<exists>pc. \<forall>t \<in> set ts. \<not> ts_returned t \<and> ts_pc t = pc))"

lemma stepped_next:
  assumes "runnable (en_kernel e)" "stepped e t t'" "\<not> ts_returned t" "\<not> ts_waiting t"
  shows "unat (ts_pc t) < length (cpu_operations (en_kernel e))"
    and "ts_waiting t' \<Longrightarrow> cop_opcode (op_at e (unat (ts_pc t))) = BarrierSync"
    and "cop_opcode (op_at e (unat (ts_pc t))) \<noteq> BranchIf \<Longrightarrow>
      ts_waiting t' = (cop_opcode (op_at e (unat (ts_pc t))) = BarrierSync) \<and>
      ts_returned t' = (cop_opcode (op_at e (unat (ts_pc t))) = Return) \<and>
      ts_pc t' = ts_pc t + (if cop_opcode (op_at e (unat (ts_pc t))) = BarrierSync then 0 else 1)"
proof -
  obtain c rest rest' where "execute_one e c (t, rest) = (None, (t', rest'))"
    using assms(2,3) by (auto simp: stepped_def)
  note nxt = execute_one_next [OF assms(1) this]
  show pc: "unat (ts_pc t) < length (cpu_operations (en_kernel e))"
    by (rule nxt(1))
  have valid: "validate_kernel (en_kernel e) = None"
    using assms(1) by (simp add: runnable_def)
  note control = validated_control(1) [OF valid pc]
  show "ts_waiting t' \<Longrightarrow> cop_opcode (op_at e (unat (ts_pc t))) = BarrierSync"
    using nxt(2) assms(4) by (auto simp: next_control_def split: if_splits)
  show "ts_waiting t' = (cop_opcode (op_at e (unat (ts_pc t))) = BarrierSync) \<and>
      ts_returned t' = (cop_opcode (op_at e (unat (ts_pc t))) = Return) \<and>
      ts_pc t' = ts_pc t + (if cop_opcode (op_at e (unat (ts_pc t))) = BarrierSync then 0 else 1)"
    if "cop_opcode (op_at e (unat (ts_pc t))) \<noteq> BranchIf"
    using that nxt(2) assms(3,4) control by (auto simp: next_control_def split: if_splits)
qed

lemma has_opcode_at:
  "i < length (cpu_operations k) \<Longrightarrow> cop_opcode (cpu_operations k ! i) = c \<Longrightarrow> cpu_has_opcode c k"
  by (auto simp: cpu_has_opcode_def list_ex_length)

lemma list_all2_in_set2: "list_all2 P xs ys \<Longrightarrow> y \<in> set ys \<Longrightarrow> \<exists>x \<in> set xs. P x y"
  by (induction rule: list_all2_induct) auto

lemma no_barrier_no_wait:
  assumes "runnable (en_kernel e)" "\<not> cpu_has_opcode BarrierSync (en_kernel e)"
    and "list_all2 (stepped e) ts ts'" "\<forall>t \<in> set ts. \<not> ts_waiting t"
  shows "\<forall>t \<in> set ts'. \<not> ts_waiting t"
proof
  fix t' assume "t' \<in> set ts'"
  then obtain t where t: "t \<in> set ts" "stepped e t t'"
    using assms(3) list_all2_in_set2 by metis
  show "\<not> ts_waiting t'"
  proof (cases "ts_returned t")
    case True
    with t assms(4) show ?thesis
      by (auto simp: stepped_def)
  next
    case False
    have "\<not> ts_waiting t"
      using t(1) assms(4) by simp
    note nxt = stepped_next(1,2) [OF assms(1) t(2) False this]
    with assms(2) has_opcode_at [of "unat (ts_pc t)" "en_kernel e" BarrierSync] show ?thesis
      by auto
  qed
qed

lemma barrier_no_branch:
  assumes "runnable (en_kernel e)" "cpu_has_opcode BarrierSync (en_kernel e)"
    and "i < length (cpu_operations (en_kernel e))"
  shows "cop_opcode (op_at e i) \<noteq> BranchIf"
  using assms has_opcode_at [of i "en_kernel e" BranchIf]
  by (auto simp: runnable_def validate_kernel_def split: if_splits)

lemma lockstep:
  assumes "runnable (en_kernel e)" "cpu_has_opcode BarrierSync (en_kernel e)"
    and "list_all2 (stepped e) ts ts'" "ts \<noteq> []"
    and "\<forall>t \<in> set ts. \<not> ts_waiting t \<and> \<not> ts_returned t \<and> ts_pc t = pc"
  defines "c \<equiv> cop_opcode (op_at e (unat pc))"
  shows "\<forall>t \<in> set ts'. ts_waiting t = (c = BarrierSync) \<and> ts_returned t = (c = Return) \<and>
    ts_pc t = pc + (if c = BarrierSync then 0 else 1)"
proof
  fix t' assume "t' \<in> set ts'"
  then obtain t where t: "t \<in> set ts" "stepped e t t'"
    using assms(3) list_all2_in_set2 by metis
  have flags: "\<not> ts_returned t" "\<not> ts_waiting t" "ts_pc t = pc"
    using t(1) assms(5) by auto
  note nxt = stepped_next(1,3) [OF assms(1) t(2) flags(1,2)]
  show "ts_waiting t' = (c = BarrierSync) \<and> ts_returned t' = (c = Return) \<and>
    ts_pc t' = pc + (if c = BarrierSync then 0 else 1)"
    using nxt(2) barrier_no_branch [OF assms(1,2) nxt(1)] by (simp add: c_def flags(3))
qed

definition counted :: "pass_state \<Rightarrow> bool" where
  "counted p \<longleftrightarrow> ps_fault p = None \<and> ps_returned p = length (filter ts_returned (ps_threads p)) \<and>
    ps_waiting p = length (filter (\<lambda>t. \<not> ts_returned t \<and> ts_waiting t) (ps_threads p))"

lemma length_filter_all: "length (filter P xs) = length xs \<longleftrightarrow> (\<forall>x \<in> set xs. P x)"
  by (metis filter_True length_filter_less less_irrefl)

lemma after_pass_none_waits:
  assumes "counted p" "\<forall>t \<in> set (ps_threads p). \<not> ts_waiting t"
    and "ps_progressed p \<or> (\<forall>t \<in> set (ps_threads p). ts_returned t)"
  shows "after_pass cx cy p =
    (if \<forall>t \<in> set (ps_threads p). ts_returned t then Inl None else Inr (ps_threads p))"
proof -
  have "ps_waiting p = 0"
    using assms(1,2) by (auto simp: counted_def)
  moreover have "ps_returned p = length (ps_threads p) \<longleftrightarrow> (\<forall>t \<in> set (ps_threads p). ts_returned t)"
    using assms(1) by (simp add: counted_def length_filter_all)
  ultimately show ?thesis
    using assms(1,3) by (auto simp: after_pass_def Let_def counted_def)
qed

lemma after_pass_all_wait:
  assumes "counted p" "ps_threads p \<noteq> []"
    and "\<forall>t \<in> set (ps_threads p). ts_waiting t \<and> \<not> ts_returned t \<and> ts_pc t = pc"
  shows "after_pass cx cy p = Inr (map release (ps_threads p))"
proof -
  have "ps_waiting p = length (ps_threads p)"
    using assms(1,3) length_filter_all [of "\<lambda>t. \<not> ts_returned t \<and> ts_waiting t" "ps_threads p"]
    by (auto simp: counted_def)
  moreover have "ps_returned p \<noteq> length (ps_threads p)"
    using assms by (auto simp: counted_def length_filter_all)
  ultimately show ?thesis
    using assms by (auto simp: after_pass_def Let_def counted_def list_all_iff)
qed

lemma after_pass_free:
  assumes "launchable e" "loop_safe e ts" "counted p" "list_all2 (stepped e) ts (ps_threads p)"
    and "ps_progressed p \<longleftrightarrow> (\<exists>t \<in> set ts. \<not> ts_returned t)"
    and "\<forall>t \<in> set (ps_threads p). thread_safe e t" "\<not> cpu_has_opcode BarrierSync (en_kernel e)"
  shows "after_pass cx cy p = Inl None \<or>
    after_pass cx cy p = Inr (ps_threads p) \<and> loop_safe e (ps_threads p)"
proof -
  have idle: "\<forall>t \<in> set (ps_threads p). \<not> ts_waiting t"
    by (rule no_barrier_no_wait [of e ts])
      (use assms(1,2,4,7) in \<open>auto simp: launchable_def loop_safe_def\<close>)
  have "ts_returned t'" if stuck: "\<not> ps_progressed p" and mem: "t' \<in> set (ps_threads p)" for t'
  proof -
    obtain t where t: "t \<in> set ts" "stepped e t t'"
      using list_all2_in_set2 [OF assms(4) mem] by blast
    then have "ts_returned t"
      using assms(5) stuck by blast
    with t(2) show ?thesis
      by (simp add: stepped_def)
  qed
  then have "after_pass cx cy p =
      (if \<forall>t \<in> set (ps_threads p). ts_returned t then Inl None else Inr (ps_threads p))"
    using assms(3) idle by (intro after_pass_none_waits) auto
  then show ?thesis
    using assms(6,7) idle by (auto simp: loop_safe_def)
qed

lemma after_pass_lockstep:
  assumes "launchable e" "loop_safe e ts" "counted p" "list_all2 (stepped e) ts (ps_threads p)"
    and "ps_progressed p \<longleftrightarrow> (\<exists>t \<in> set ts. \<not> ts_returned t)"
    and "\<forall>t \<in> set (ps_threads p). thread_safe e t" "cpu_has_opcode BarrierSync (en_kernel e)"
  shows "after_pass cx cy p = Inl None \<or>
    (\<exists>ts'. after_pass cx cy p = Inr ts' \<and> loop_safe e ts')"
proof (cases "ts = []")
  case True
  with assms(4) have "ps_threads p = []"
    by simp
  with after_pass_none_waits [OF assms(3)] show ?thesis
    by simp
next
  case False
  have run: "runnable (en_kernel e)"
    using assms(1) by (simp add: launchable_def)
  obtain pc where pc: "\<forall>t \<in> set ts. \<not> ts_waiting t \<and> \<not> ts_returned t \<and> ts_pc t = pc"
    using assms(2,7) by (auto simp: loop_safe_def)
  let ?c = "cop_opcode (op_at e (unat pc))"
  note same = lockstep [OF run assms(7,4) False pc]
  have nonempty: "ps_threads p \<noteq> []"
    using assms(4) False by auto
  have progressed: "ps_progressed p"
    using assms(5) pc False by (cases ts) auto
  show ?thesis
  proof (cases "?c = BarrierSync")
    case True
    then have waits: "\<forall>t \<in> set (ps_threads p). ts_waiting t \<and> \<not> ts_returned t \<and> ts_pc t = pc"
      using same by simp
    have "loop_safe e (map release (ps_threads p))"
      using waits assms(6) release_safe [OF assms(1)] by (auto simp: loop_safe_def release_def)
    with after_pass_all_wait [OF assms(3) nonempty waits] show ?thesis
      by blast
  next
    case False
    then have "loop_safe e (ps_threads p)" if "?c \<noteq> Return"
      using same that assms(6) by (auto simp: loop_safe_def)
    moreover have "after_pass cx cy p =
        (if \<forall>t \<in> set (ps_threads p). ts_returned t then Inl None else Inr (ps_threads p))"
      using assms(3) same False progressed by (intro after_pass_none_waits) auto
    ultimately show ?thesis
      using same False by auto
  qed
qed

lemma after_pass_safe:
  fixes cx cy mem
  assumes "launchable e" "loop_safe e ts" "shared_ok e shared"
  defines "p \<equiv> cta_pass e cx cy ts mem shared"
  shows "after_pass cx cy p = Inl (Some f) \<Longrightarrow> memory_fault f"
    and "after_pass cx cy p = Inr ts' \<Longrightarrow> loop_safe e ts' \<and> shared_ok e (ps_shared p)"
proof -
  have ts: "\<forall>t \<in> set ts. thread_safe e t" "\<forall>t \<in> set ts. \<not> ts_waiting t"
    using assms(2) by (auto simp: loop_safe_def)
  note pass = cta_pass_safe [OF assms(1) ts(1) assms(3), of cx cy mem, folded p_def]
  have goes_on: "after_pass cx cy p = Inl None \<or>
      (\<exists>ts'. after_pass cx cy p = Inr ts' \<and> loop_safe e ts')" if None: "ps_fault p = None"
  proof -
    have "counted p"
      using cta_pass_counts [OF None [unfolded p_def], folded p_def] None by (simp add: counted_def)
    with cta_pass_stepped [OF None [unfolded p_def] ts(2), folded p_def] pass None
      after_pass_free [OF assms(1,2), of p cx cy] after_pass_lockstep [OF assms(1,2), of p cx cy]
    show ?thesis
      by auto
  qed
  show "after_pass cx cy p = Inl (Some f) \<Longrightarrow> memory_fault f"
    using pass goes_on by (cases "ps_fault p") (auto simp: after_pass_def Let_def)
  show "after_pass cx cy p = Inr ts' \<Longrightarrow> loop_safe e ts' \<and> shared_ok e (ps_shared p)"
    using pass goes_on after_pass_cases(1) [of cx cy p ts'] by auto
qed

lemma cta_loop_safe:
  assumes "launchable e"
  shows "loop_safe e ts \<Longrightarrow> shared_ok e shared \<Longrightarrow>
    cta_loop fuel i e cx cy stop ts mem shared = Some (Some f, mem') \<Longrightarrow>
    memory_fault f \<or> f = block_failure Cancelled kNoValue cx cy"
proof (induction fuel arbitrary: i ts mem shared)
  case (Suc fuel)
  note after = after_pass_safe [OF assms Suc.prems(1,2), of cx cy mem]
  show ?case
    using Suc.prems(3) Suc.IH after
    by (auto simp: Let_def split: if_splits sum.splits)
qed simp

lemma initial_safe:
  assumes "launchable e"
  shows "loop_safe e (initial_threads (en_kernel e) (en_launch e))"
    and "shared_ok e (map (\<lambda>w. replicate (unat w) 0) (cpu_shared_words (en_kernel e)))"
proof -
  have "cpu_operations (en_kernel e) \<noteq> []"
    using assms validated_last(1) by (auto simp: launchable_def runnable_def)
  then show "loop_safe e (initial_threads (en_kernel e) (en_launch e))"
    using initial_thread by (auto simp: loop_safe_def thread_safe_def registers_typed_def Let_def)
  show "shared_ok e (map (\<lambda>w. replicate (unat w) 0) (cpu_shared_words (en_kernel e)))"
    by (simp add: shared_ok_def)
qed

lemma execute_cta_safe:
  assumes "launchable e" "execute_cta fuel e cx cy stop mem = Some (Some f, mem')"
  shows "memory_fault f \<or> f = block_failure Cancelled kNoValue cx cy"
  using cta_loop_safe [OF assms(1) initial_safe [OF assms(1)]] assms(2)
  by (simp add: execute_cta_def)

end
