(* ===== verification/CpuSafety.thy ===== *)
theory CpuSafety
  imports CpuTyping
begin

text \<open>
  What the CPU interpreter promises for every kernel its parser accepts: a block always ends, it
  ends without a fault of the interpreter itself, it writes only to the writable buffers it was
  given, and the floating-point environment is checked whenever a float is involved. And the one
  exception: both verifiers accept an operation that reads the register it defines.
\<close>

section \<open>Writes stay in the writable buffers\<close>

definition writable_word :: "argument list \<Rightarrow> nat \<Rightarrow> bool" where
  "writable_word args a \<longleftrightarrow> list_ex (\<lambda>arg. case arg of
      ArgBuffer b \<Rightarrow> buf_writable b \<and> buf_base b \<le> a \<and> a < buf_base b + buf_size b
    | _ \<Rightarrow> False) args"

definition same_outside :: "argument list \<Rightarrow> memory \<Rightarrow> memory \<Rightarrow> bool" where
  "same_outside args mem mem' \<longleftrightarrow> (\<forall>a. \<not> writable_word args a \<longrightarrow> mem' a = mem a)"

lemma same_outside_refl [simp]: "same_outside args mem mem"
  by (simp add: same_outside_def)

lemma same_outside_trans:
  "same_outside args m1 m2 \<Longrightarrow> same_outside args m2 m3 \<Longrightarrow> same_outside args m1 m3"
  by (simp add: same_outside_def)

lemma same_outside_upd:
  "same_outside args mem mem' \<Longrightarrow> writable_word args a \<Longrightarrow> same_outside args mem (mem'(a := w))"
  by (auto simp: same_outside_def)

lemma buffer_word_writable:
  assumes "buffer_of p args = Some b" "buf_writable b" "i < buf_size b"
  shows "writable_word args (buf_base b + i)"
proof -
  have "unat p < length args" "args ! unat p = ArgBuffer b"
    using assms(1) by (auto simp: buffer_of_def split: if_splits argument.splits)
  then show ?thesis
    using assms(2,3) unfolding writable_word_def list_ex_length by force
qed

definition keeps :: "argument list \<Rightarrow> memory \<Rightarrow> fault + machine \<Rightarrow> bool" where
  "keeps args mem r \<longleftrightarrow> (case r of Inl _ \<Rightarrow> True | Inr m \<Rightarrow> same_outside args mem (fst (snd m)))"

named_theorems keeping \<open>operations write only to writable buffers\<close>

lemma keeps_Inl [keeping]: "keeps args mem (Inl f)"
  by (simp add: keeps_def)

lemma keeps_advance [keeping]: "keeps args mem (Inr (advance m)) = keeps args mem (Inr m)"
  by (simp add: keeps_def advance_def split: prod.split)

lemma keeps_same: "same_outside args mem mem' \<Longrightarrow> keeps args mem (Inr (t, mem', shared))"
  by (simp add: keeps_def)

lemma keeps_assign [keeping]: "keeps args (fst (snd m)) (assign op m v)"
  by (auto simp: assign_def keeps_def advance_def split: prod.split)

lemma keeps_and_then: "(\<And>x. keeps args mem (f x)) \<Longrightarrow> keeps args mem (and_then r f)"
  by (simp add: and_then_def keeping split: sum.split)

lemma keeps_fail [keeping]: "keeps args mem (fail_with c m er)"
  by (simp add: fail_with_def keeping)

lemma global_word_outside:
  "global_word a args True = Inr i \<Longrightarrow> same_outside args mem (mem(i := v))"
  by (auto simp: global_word_def split: option.splits if_splits
      intro!: same_outside_upd buffer_word_writable)

lemma global_byte_outside:
  "global_byte a args True = Inr (i, b) \<Longrightarrow> same_outside args mem (mem(i := v))"
  by (auto simp: global_byte_def split: option.splits if_splits
      intro!: same_outside_upd buffer_word_writable)

lemma store_global_u64_outside:
  assumes "store_global_u64 a args v mem = Inr mem'"
  shows "same_outside args mem mem'"
proof -
  obtain b where b: "buffer_of (fst a) args = Some b" "buf_writable b"
    "unat (snd a) div 4 + 1 < buf_size b"
    and mem': "mem' = mem(buf_base b + unat (snd a) div 4 := narrow v,
      buf_base b + unat (snd a) div 4 + 1 := narrow (drop_bit 32 v))"
    using assms by (auto simp: store_global_u64_def Let_def split: option.splits if_splits)
  have "writable_word args (buf_base b + unat (snd a) div 4)"
    "writable_word args (buf_base b + (unat (snd a) div 4 + 1))"
    by (rule buffer_word_writable [OF b(1,2)]; use b(3) in simp)+
  then show ?thesis
    unfolding mem' by (intro same_outside_upd) (simp_all add: add.assoc)
qed

lemma keeps_plain_operations [keeping]:
  "keeps args (fst (snd m)) (unary get f op m)"
  "keeps args (fst (snd m)) (binary get' f' op m)"
  "keeps args (fst (snd m)) (ternary get'' f'' op m)"
  "keeps args (fst (snd m)) (select get1 f1 op m)"
  "keeps args (fst (snd m)) (load_global f2 e c op m)"
  "keeps args (fst (snd m)) (load_shared c op m)"
  "keeps args (fst (snd m)) (store_shared c op m)"
  "keeps args (fst (snd m)) (add_global_address c op m)"
  "keeps args (fst (snd m)) (add_shared_address op m)"
  "keeps args (fst (snd m)) (branch_if op m)"
  by (auto simp: unary_def binary_def ternary_def select_def load_global_def load_shared_def
      store_shared_def add_global_address_def add_shared_address_def branch_if_def keeping Let_def
      intro!: keeps_and_then keeps_same split: sum.split prod.split)

lemma keeps_stores [keeping]:
  "keeps (en_arguments e) (fst (snd m)) (store_global get e c op m)"
  "keeps (en_arguments e) (fst (snd m)) (store_global_byte e c op m)"
  "keeps (en_arguments e) (fst (snd m)) (store_global_wide e c op m)"
  by (auto simp: store_global_def store_global_byte_def store_global_wide_def keeping
      global_word_outside global_byte_outside store_global_u64_outside
      intro!: keeps_and_then keeps_same split: sum.split prod.split)

lemma keeps_opcode: "keeps (en_arguments e) (fst (snd m)) (execute_opcode c e co op m)"
  by (cases c) (auto simp: keeping intro!: keeps_and_then keeps_same split: prod.split)

lemma keeps_guarded: "keeps (en_arguments e) (fst (snd m)) (execute_guarded e co op m)"
proof -
  have "keeps (en_arguments e) (fst (snd m)) (Inr m)"
    by (simp add: keeps_def)
  then show ?thesis
    by (auto simp: execute_guarded_def keeping keeps_opcode intro!: keeps_and_then)
qed

lemma execute_one_outside:
  assumes "execute_one e c (t, mem, shared) = (f, t', mem', shared')"
  shows "same_outside (en_arguments e) mem mem'"
  using assms keeps_guarded [of e "(t\<lparr>ts_steps := ts_steps t + 1\<rparr>, mem, shared)"]
  by (fastforce simp: execute_one_def Let_def keeps_def split: if_splits sum.splits)

lemma cta_pass_outside:
  "same_outside (en_arguments e) mem (ps_memory (cta_pass e cx cy ts mem shared))"
proof (induction ts arbitrary: mem shared)
  case (Cons t ts)
  show ?case
  proof (cases "ts_returned t \<or> ts_waiting t")
    case True
    then show ?thesis
      using Cons.IH by (simp add: cta_pass_idle del: cta_pass.simps)
  next
    case False
    obtain f t' mem' shared' where run:
      "execute_one e (thread_coordinates cx cy t) (t, mem, shared) = (f, t', mem', shared')"
      by (metis prod.exhaust)
    have one: "same_outside (en_arguments e) mem mem'"
      by (rule execute_one_outside [OF run])
    show ?thesis
      using one Cons.IH [of mem' shared'] run False
        cta_pass_fails(2) [of t e cx cy mem shared] cta_pass_runs(3) [of t e cx cy mem shared]
      by (cases f) (auto simp del: cta_pass.simps intro: same_outside_trans)
  qed
qed simp

lemma cta_loop_outside:
  "cta_loop fuel i e cx cy stop ts mem shared = Some (r, mem') \<Longrightarrow>
    same_outside (en_arguments e) mem mem'"
proof (induction fuel arbitrary: i ts mem shared)
  case (Suc fuel)
  note pass = cta_pass_outside [of e mem cx cy ts shared]
  show ?case
    using Suc.prems Suc.IH pass
    by (auto simp: Let_def split: if_splits sum.splits intro: same_outside_trans)
qed simp

section \<open>The floating-point environment\<close>

definition touches_f32 :: "opcode \<Rightarrow> bool" where
  "touches_f32 c \<longleftrightarrow> (let ct = cpu_operation_contract c in
    (has_result ct \<and> result_kind ct = F32) \<or>
    list_ex (\<lambda>j. at3 (input_kinds ct) j = F32) [0..<unat (input_count ct)])"

lemma float_source:
  assumes "touches_f32 c"
    and "\<not> list_ex (\<lambda>j. at3 (input_kinds (cpu_operation_contract c)) j = F32)
      [0..<unat (input_count (cpu_operation_contract c))]"
  shows "c \<in> {LoadParameterF32, ConvertRnF32U32, ConvertRnF32S32, LoadGlobalF32}"
  using assms by (cases c) (simp_all add: touches_f32_def upt_conv_Cons)

lemma fp_operations_complete:
  assumes "runnable (en_kernel e)" "no_self_reads (en_kernel e)"
    and "i < length (cpu_operations (en_kernel e))" "touches_f32 (cop_opcode (op_at e i))"
  shows "has_fp_operations (en_kernel e)"
  using assms(3,4)
proof (induction i rule: less_induct)
  case (less i)
  let ?c = "contract_at e i"
  show ?case
  proof (cases "list_ex (\<lambda>j. at3 (input_kinds ?c) j = F32) [0..<unat (input_count ?c)]")
    case False
    from float_source [OF less.prems(2) this] less.prems(1) show ?thesis
      by (auto simp: has_fp_operations_def list_ex_length)
  next
    case True
    then obtain j where j: "j < unat (input_count ?c)" "at3 (input_kinds ?c) j = F32"
      by (auto simp: list_ex_iff)
    note before = input_defined_before [OF assms(1,2) less.prems(1) j(1)]
    then obtain l where l: "l < i" "has_result (contract_at e l)"
      "unat (cop_result (op_at e l)) = unat (input (op_at e i) j)"
      by blast
    have "result_kind (contract_at e l) = F32"
      using validated_result(2) [OF assms(1) _ l(2)] l less.prems(1) before(2) j(2) by simp
    with l less.IH [of l] less.prems(1) show ?thesis
      by (simp add: touches_f32_def Let_def)
  qed
qed

section \<open>Concrete runs\<close>

definition idle_fp :: fp_unit where
  "idle_fp = \<lparr>fp_add = \<lambda>x y. 0, fp_sub = \<lambda>x y. 0, fp_div = \<lambda>x y. 0, fp_mul = \<lambda>x y. 0,
    fp_sqrt = \<lambda>x. 0, fp_fma = \<lambda>x y z. 0, fp_exp = \<lambda>x. 0\<rparr>"

definition sample_env :: "kernel \<Rightarrow> argument list \<Rightarrow> u32 \<Rightarrow> exec_env" where
  "sample_env k args n = \<lparr>en_kernel = view_kernel k, en_arguments = args,
    en_launch = \<lparr>grid_x = 1, block_x = n, grid_y = 1, block_y = 1\<rparr>, en_fp = idle_fp\<rparr>"

definition sample_arguments :: "argument list" where
  "sample_arguments =
    [ArgBuffer \<lparr>buf_base = 1, buf_size = 1, buf_writable = True\<rparr>, ArgU32 7]"

definition sample_run :: "nat \<Rightarrow> u32 \<Rightarrow> (fault option \<times> memory) option" where
  "sample_run fuel n = execute_cta fuel (sample_env sample_kernel sample_arguments n) 0 0
    (\<lambda>_. False) (\<lambda>_. 0)"

text \<open>An operation that adds a register to itself before anything has written it.\<close>

definition self_read_kernel :: kernel where
  "self_read_kernel = sample_kernel\<lparr>parameters := [],
    registers := [\<lparr>reg_kind = 1, reg_location = default_location\<rparr>],
    operations := [sample_operation 9 0 [0, 0] 0, sample_operation 41 kNoValue [] 0]\<rparr>"

text \<open>A float argument of which the absolute value is taken.\<close>

definition float_kernel :: kernel where
  "float_kernel = sample_kernel\<lparr>
    parameters := [\<lparr>param_kind = 2, param_location = default_location\<rparr>],
    registers := map (\<lambda>w. \<lparr>reg_kind = w, reg_location = default_location\<rparr>) [3, 3],
    operations := [sample_operation 2 0 [] 0, sample_operation 7 1 [0] 0,
      sample_operation 41 kNoValue [] 0]\<rparr>"

lemma sample_texts:
  "parse_kernel (serialize_text sample_kernel) = Inr (view_kernel sample_kernel)"
  "parse_kernel (serialize_text self_read_kernel) = Inr (view_kernel self_read_kernel)"
  "parse_kernel (serialize_text float_kernel) = Inr (view_kernel float_kernel)"
  by (rule parse_serialized; simp add: sample_kernel_def self_read_kernel_def float_kernel_def
      kernel_evaluation text_evaluation)+

lemma sample_run_ends: "map_option fst (sample_run 20 1) = Some None"
  by code_simp

lemma sample_run_fails: "map_option fst (sample_run 20 2) =
    Some (Some (Failure \<lparr>ed_error = OutOfBounds, ed_operation = 5, ed_block_x = 0, ed_block_y = 0,
      ed_thread_x = 1, ed_thread_y = 0\<rparr>))"
  by code_simp

lemma sample_no_self_reads: "no_self_reads (view_kernel sample_kernel)"
  by code_simp

lemma sample_arguments_valid:
  "validate_arguments (view_kernel sample_kernel) sample_arguments = None"
  by code_simp

section \<open>The properties\<close>

text \<open>C17. A block always ends. For every kernel the parser accepts, whatever the arguments, the memory,
  the launch and the stop token, the scheduling loop of \<open>execute_cta\<close> returns after at most
  \<open>threads * (2 * operations + 1) + 1\<close> iterations: branches only go forward, and a barrier that
  is left is never met again.
\<close>

theorem parsed_kernel_ends:
  assumes "parse_kernel artifact = Inr (en_kernel e)"
    and "block_fuel (en_kernel e) (en_launch e) \<le> fuel"
  shows "\<exists>result mem'. execute_cta fuel e cx cy stop mem = Some (result, mem')"
  using execute_cta_ends [OF parsed_runnable [OF assms(1)] assms(2), of cx cy stop mem] by auto

theorem parsed_kernel_ends_witness:
  "\<exists>result mem'. sample_run 100 2 = Some (result, mem')"
proof -
  let ?e = "sample_env sample_kernel sample_arguments 2"
  have "block_fuel (en_kernel ?e) (en_launch ?e) \<le> 100"
    by (simp add: block_fuel_def sample_env_def view_kernel_def sample_kernel_def)
  then show ?thesis
    unfolding sample_run_def
    by (intro parsed_kernel_ends [where artifact = "serialize_text sample_kernel"])
      (simp_all add: sample_texts sample_env_def)
qed

text \<open>C4. A kernel the parser accepts is well typed when it runs. If no operation of it reads the
  register it defines itself and the arguments match the parameters, then a block that fails,
  fails with an error of its own memory accesses or because it was cancelled. No register is read
  with the wrong alternative or before it was written, no index leaves its vector, and the errors
  that guard the interpreter itself (an invalid artifact, a diverged barrier, the step limit, a
  wrong argument type) do not occur.
\<close>

theorem parsed_kernel_type_safe:
  assumes "parse_kernel artifact = Inr (en_kernel e)" "no_self_reads (en_kernel e)"
    and "validate_arguments (en_kernel e) (en_arguments e) = None"
    and "execute_cta fuel e cx cy stop mem = Some (Some f, mem')"
  shows "\<exists>d. f = Failure d \<and> ed_error d \<in>
    {AddressOverflow, MisalignedAddress, OutOfBounds, WriteToReadOnly, Cancelled}"
proof -
  have "launchable e"
    using assms(1-3) parsed_runnable by (simp add: launchable_def)
  from execute_cta_safe [OF this assms(4)] show ?thesis
    by (cases f) (auto simp: memory_fault_def block_failure_def execution_failure_def)
qed

theorem parsed_kernel_type_safe_witness:
  "\<exists>f mem' d. sample_run 20 2 = Some (Some f, mem') \<and> f = Failure d \<and>
    ed_error d \<in> {AddressOverflow, MisalignedAddress, OutOfBounds, WriteToReadOnly, Cancelled}"
proof -
  obtain f mem' where run: "sample_run 20 2 = Some (Some f, mem')"
    using sample_run_fails by (cases "sample_run 20 2") auto
  have "\<exists>d. f = Failure d \<and> ed_error d \<in>
      {AddressOverflow, MisalignedAddress, OutOfBounds, WriteToReadOnly, Cancelled}"
    by (rule parsed_kernel_type_safe [where artifact = "serialize_text sample_kernel",
        OF _ _ _ run [unfolded sample_run_def]])
      (simp_all add: sample_env_def sample_texts sample_no_self_reads sample_arguments_valid)
  with run show ?thesis
    by blast
qed

text \<open>C23. A block writes only to the writable buffers it was given: whatever the kernel, the launch
  and the outcome, a word of memory outside every writable buffer argument is the same afterwards
  as before. In particular a read-only buffer that overlaps no writable one keeps its contents.
\<close>

theorem block_writes_confined:
  assumes "execute_cta fuel e cx cy stop mem = Some (result, mem')"
    and "\<not> writable_word (en_arguments e) a"
  shows "mem' a = mem a"
  using cta_loop_outside [of fuel 0 e cx cy stop] assms
  by (auto simp: execute_cta_def same_outside_def)

theorem block_writes_confined_witness:
  "\<exists>mem'. sample_run 20 1 = Some (None, mem') \<and> mem' 0 = 0"
proof -
  obtain mem' where run: "sample_run 20 1 = Some (None, mem')"
    using sample_run_ends by (cases "sample_run 20 1") auto
  have "\<not> writable_word (en_arguments (sample_env sample_kernel sample_arguments 1)) 0"
    by (simp add: sample_env_def sample_arguments_def writable_word_def)
  from block_writes_confined [OF run [unfolded sample_run_def] this] run show ?thesis
    by simp
qed

text \<open>The floating-point environment is checked for every kernel that handles a float: in a kernel
  the parser accepts, in which no operation reads the register it defines itself, an operation
  with a float result or a float operand implies that \<open>has_fp_operations\<close> holds, although its
  list leaves out the absolute value, the square root, the exponential and the selection.
\<close>

lemma float_kernels_are_checked:
  fixes e :: exec_env
  assumes "parse_kernel artifact = Inr (en_kernel e)" "no_self_reads (en_kernel e)"
    and "op \<in> set (cpu_operations (en_kernel e))" "touches_f32 (cop_opcode op)"
  shows "has_fp_operations (en_kernel e)"
  using assms parsed_runnable [OF assms(1)] fp_operations_complete [of e]
  by (auto simp: in_set_conv_nth)


end
