(* ===== verification/CpuExecutor.thy ===== *)
theory CpuExecutor
  imports CpuSafety
begin

text \<open>
  The launch of a kernel and the collection of its blocks' results
  (\<open>execute_kernel_ir\<close> in \<open>interpreter.cpp\<close> and \<open>Batch\<close>, \<open>CpuExecutor::Impl::run\<close> in
  \<open>executor.cpp\<close> of the CPU runtime). The worker threads take jobs from queues and report them in
  any order; here the reports are a list in an arbitrary order, each an atomic step under the
  batch's mutex.
\<close>

section \<open>The batch\<close>

type_synonym execution_result = "execution_diagnostic option"

definition executor_failure :: "execution_error \<Rightarrow> execution_result" where
  "executor_failure er = Some (base_diagnostic er kNoValue)"

record batch =
  bt_remaining :: u64
  bt_first_failure :: "(u64 \<times> execution_diagnostic) option"
  bt_cancellation_observed :: bool

definition new_batch :: "u64 \<Rightarrow> batch" where
  "new_batch count = \<lparr>bt_remaining = count, bt_first_failure = None,
    bt_cancellation_observed = False\<rparr>"

definition keep_first ::
  "u64 \<Rightarrow> execution_diagnostic \<Rightarrow> (u64 \<times> execution_diagnostic) option \<Rightarrow>
    (u64 \<times> execution_diagnostic) option" where
  "keep_first index d current = (case current of None \<Rightarrow> Some (index, d)
    | Some (i, _) \<Rightarrow> if index < i then Some (index, d) else current)"

definition finish :: "u64 \<Rightarrow> execution_result \<Rightarrow> batch \<Rightarrow> batch" where
  "finish index result b = b\<lparr>
    bt_cancellation_observed := bt_cancellation_observed b \<or>
      (case result of None \<Rightarrow> False | Some d \<Rightarrow> ed_error d = Cancelled),
    bt_first_failure := (case result of None \<Rightarrow> bt_first_failure b
      | Some d \<Rightarrow> keep_first index d (bt_first_failure b)),
    bt_remaining := bt_remaining b - 1\<rparr>"

definition discard :: "u64 \<Rightarrow> u64 \<Rightarrow> batch \<Rightarrow> batch" where
  "discard first_index count b = (if count = 0 then b else b\<lparr>
    bt_cancellation_observed := True,
    bt_first_failure := keep_first first_index (base_diagnostic Cancelled kNoValue)
      (bt_first_failure b),
    bt_remaining := bt_remaining b - count\<rparr>)"

text \<open>None is that the caller still waits.\<close>

definition wait :: "batch \<Rightarrow> execution_result option" where
  "wait b = (if bt_remaining b \<noteq> 0 then None
    else if bt_cancellation_observed b then Some (executor_failure Cancelled)
    else Some (map_option snd (bt_first_failure b)))"

section \<open>Workers and job queues\<close>


definition jobs_per_pool :: "nat \<Rightarrow> nat \<Rightarrow> nat list" where
  "jobs_per_pool count pool_count = map (\<lambda>index. count div pool_count +
    (if index < count mod pool_count then 1 else 0)) [0..<pool_count]"

text \<open>The queues after the first \<open>dispatched\<close> jobs have been enqueued round robin.\<close>

definition enqueued :: "nat \<Rightarrow> nat \<Rightarrow> nat \<Rightarrow> nat list" where
  "enqueued pool_count dispatched pool = filter (\<lambda>index. index mod pool_count = pool) [0..<dispatched]"

section \<open>The launch\<close>

definition kMaximumLogicalThreads :: u64 where
  "kMaximumLogicalThreads = 16 * 1024 * 1024"

definition kMaximumThreadsPerCta :: u64 where
  "kMaximumThreadsPerCta = 1024"

definition launch_rejected :: "launch_dimensions \<Rightarrow> bool" where
  "launch_rejected l \<longleftrightarrow>
    (if grid_x l = 0 \<or> grid_y l = 0 \<or> block_x l = 0 \<or> block_y l = 0 then True
     else let threads_per_cta = widen (block_x l) * widen (block_y l) in
       if kMaximumThreadsPerCta < threads_per_cta \<or>
         kMaximumLogicalThreads div threads_per_cta < widen (grid_x l) then True
       else kMaximumLogicalThreads div (threads_per_cta * widen (grid_x l)) < widen (grid_y l))"


definition cta_count :: "launch_dimensions \<Rightarrow> u64" where
  "cta_count l = widen (grid_x l) * widen (grid_y l)"

definition cta_block :: "launch_dimensions \<Rightarrow> u64 \<Rightarrow> u32 \<times> u32" where
  "cta_block l index = (narrow (index mod widen (grid_x l)), narrow (index div widen (grid_x l)))"



section \<open>The result of a batch\<close>

definition finish_all :: "(u64 \<times> execution_result) list \<Rightarrow> batch \<Rightarrow> batch" where
  "finish_all rs b = foldl (\<lambda>b r. finish (fst r) (snd r) b) b rs"

definition job_cancelled :: "u64 \<times> execution_result \<Rightarrow> bool" where
  "job_cancelled r \<longleftrightarrow> (case snd r of None \<Rightarrow> False | Some d \<Rightarrow> ed_error d = Cancelled)"

text \<open>The failure that a sequential run of the jobs in the order of their index would meet first.\<close>

definition lowest_failure :: "(u64 \<times> execution_result) list \<Rightarrow> execution_result" where
  "lowest_failure rs = (case sort_key fst (filter (\<lambda>r. snd r \<noteq> None) rs) of
    [] \<Rightarrow> None | r # _ \<Rightarrow> snd r)"

lemma finish_all_snoc: "finish_all (rs @ [r]) b = finish (fst r) (snd r) (finish_all rs b)"
  by (simp add: finish_all_def)

lemma finish_all_remaining:
  "bt_remaining (finish_all rs b) = bt_remaining b - of_nat (length rs)"
  by (induction rs rule: rev_induct) (simp_all add: finish_all_def finish_def)

lemma finish_all_cancelled:
  "bt_cancellation_observed (finish_all rs (new_batch n)) \<longleftrightarrow> list_ex job_cancelled rs"
  by (induction rs rule: rev_induct)
    (auto simp: finish_all_def finish_def new_batch_def job_cancelled_def split: option.splits)

text \<open>The kept failure is a reported one, and none has a lower index.\<close>

lemma finish_all_first:
  "case bt_first_failure (finish_all rs (new_batch n)) of
    None \<Rightarrow> (\<forall>r \<in> set rs. snd r = None)
  | Some (i, d) \<Rightarrow> (i, Some d) \<in> set rs \<and> (\<forall>r \<in> set rs. snd r \<noteq> None \<longrightarrow> i \<le> fst r)"
proof (induction rs rule: rev_induct)
  case Nil
  then show ?case
    by (simp add: finish_all_def new_batch_def)
next
  case (snoc r rs)
  show ?case
  proof (cases "snd r")
    case None
    with snoc show ?thesis
      by (auto simp: finish_all_snoc finish_def split: option.splits)
  next
    case (Some d)
    then have r: "r = (fst r, Some d)"
      by (cases r) simp
    show ?thesis
    proof (cases "bt_first_failure (finish_all rs (new_batch n))")
      case None
      with snoc Some r show ?thesis
        by (auto simp: finish_all_snoc finish_def keep_first_def)
    next
      case (Some x)
      then obtain i d' where x: "bt_first_failure (finish_all rs (new_batch n)) = Some (i, d')"
        by (cases x) auto
      show ?thesis
      proof (cases "fst r < i")
        case True
        with snoc x \<open>snd r = Some d\<close> r show ?thesis
          by (auto simp: finish_all_snoc finish_def keep_first_def)
      next
        case False
        with snoc x \<open>snd r = Some d\<close> r show ?thesis
          by (auto simp: finish_all_snoc finish_def keep_first_def)
      qed
    qed
  qed
qed

lemma lowest_failure_unique:
  assumes "distinct (map fst rs)" "(i, Some d) \<in> set rs"
    and "\<forall>r \<in> set rs. snd r \<noteq> None \<longrightarrow> i \<le> fst r"
  shows "lowest_failure rs = Some d"
proof -
  define fs where "fs = sort_key fst (filter (\<lambda>r. snd r \<noteq> None) rs)"
  have set: "set fs = {r \<in> set rs. snd r \<noteq> None}" and sorted: "sorted (map fst fs)"
    by (auto simp: fs_def)
  then have mem: "(i, Some d) \<in> set fs"
    using assms(2) by simp
  then obtain r fs' where fs: "fs = r # fs'"
    by (cases fs) auto
  have r: "r \<in> set rs" "snd r \<noteq> None"
    using set fs by auto
  have "fst r \<le> i"
    using mem sorted unfolding fs by auto
  then have "fst r = i"
    using assms(3) r by (meson order_antisym)
  then have "r = (i, Some d)"
    using assms(1,2) r(1) by (metis eq_key_imp_eq_value prod.collapse)
  then show ?thesis
    using fs by (simp add: lowest_failure_def fs_def)
qed

lemma no_failure:
  "\<forall>r \<in> set rs. snd r = None \<Longrightarrow> lowest_failure rs = None"
  by (simp add: lowest_failure_def)

lemma batch_result:
  assumes "distinct (map fst rs)"
  shows "wait (finish_all rs (new_batch (of_nat (length rs)))) =
    Some (if list_ex job_cancelled rs then executor_failure Cancelled else lowest_failure rs)"
proof -
  let ?b = "finish_all rs (new_batch (of_nat (length rs)))"
  have "map_option snd (bt_first_failure ?b) = lowest_failure rs"
    using finish_all_first [of rs "of_nat (length rs)"] lowest_failure_unique [OF assms]
      no_failure [of rs]
    by (auto split: option.splits)
  then show ?thesis
    by (simp add: wait_def finish_all_remaining finish_all_cancelled) (simp add: new_batch_def)
qed

section \<open>A launch\<close>

lemma unat_widen_mult: "unat (widen a * widen b) = unat a * unat b"
proof -
  have "unat a * unat b < 2 ^ 32 * 2 ^ 32"
    using unsigned_less [of a, where 'a=nat] unsigned_less [of b, where 'a=nat]
    by (intro mult_strict_mono) auto
  then show ?thesis
    by (simp add: unat_word_ariths)
qed

lemma unat_narrow: "unat w < 2 ^ 32 \<Longrightarrow> unat (narrow w) = unat w"
  by (simp add: narrow_def unsigned_ucast_eq take_bit_nat_eq_self)

lemma accepted_launch:
  assumes "\<not> launch_rejected l"
  defines "threads \<equiv> unat (block_x l) * unat (block_y l)"
  shows "0 < threads" "threads \<le> 1024" "0 < unat (grid_x l) * unat (grid_y l)"
    "threads * (unat (grid_x l) * unat (grid_y l)) \<le> 16777216"
proof -
  let ?t = "widen (block_x l) * widen (block_y l)"
  have nonzero: "grid_x l \<noteq> 0" "grid_y l \<noteq> 0" "block_x l \<noteq> 0" "block_y l \<noteq> 0"
    using assms(1) by (auto simp: launch_rejected_def split: if_splits)
  have checks: "\<not> kMaximumThreadsPerCta < ?t" "\<not> kMaximumLogicalThreads div ?t < widen (grid_x l)"
    "\<not> kMaximumLogicalThreads div (?t * widen (grid_x l)) < widen (grid_y l)"
    using assms(1) nonzero by (auto simp: launch_rejected_def Let_def split: if_splits)
  show pos: "0 < threads" "0 < unat (grid_x l) * unat (grid_y l)"
    using nonzero by (auto simp: threads_def unat_gt_0)
  show "threads \<le> 1024"
    using checks(1)
    by (simp add: threads_def kMaximumThreadsPerCta_def word_less_nat_alt unat_widen_mult)
  have "unat (grid_x l) \<le> 16777216 div threads"
    using checks(2) by (simp add: threads_def kMaximumLogicalThreads_def word_less_nat_alt unat_div
        unat_widen_mult not_less)
  then have x: "threads * unat (grid_x l) \<le> 16777216"
    using pos(1) by (simp add: less_eq_div_iff_mult_less_eq mult.commute)
  then have "unat (?t * widen (grid_x l)) = threads * unat (grid_x l)"
    by (subst unat_word_ariths) (simp add: unat_widen_mult threads_def)
  then have "unat (grid_y l) \<le> 16777216 div (threads * unat (grid_x l))"
    using checks(3) by (simp add: kMaximumLogicalThreads_def word_less_nat_alt unat_div not_less)
  then show "threads * (unat (grid_x l) * unat (grid_y l)) \<le> 16777216"
    using pos by (simp add: less_eq_div_iff_mult_less_eq ac_simps)
qed

lemma unat_cta_count: "unat (cta_count l) = unat (grid_x l) * unat (grid_y l)"
  by (simp add: cta_count_def unat_widen_mult)

lemma cta_block_coordinates:
  assumes "grid_x l \<noteq> 0" "index < cta_count l"
  shows "unat (fst (cta_block l index)) = unat index mod unat (grid_x l)"
    and "unat (snd (cta_block l index)) = unat index div unat (grid_x l)"
    and "fst (cta_block l index) < grid_x l" "snd (cta_block l index) < grid_y l"
proof -
  have gx: "0 < unat (grid_x l)"
    using assms(1) by (simp add: unat_gt_0)
  have index: "unat index < unat (grid_x l) * unat (grid_y l)"
    using assms(2) by (simp add: word_less_nat_alt unat_cta_count)
  have m: "unat index mod unat (grid_x l) < unat (grid_x l)"
    using gx by simp
  have d: "unat index div unat (grid_x l) < unat (grid_y l)"
    using index gx by (simp add: div_less_iff_less_mult mult.commute)
  show x: "unat (fst (cta_block l index)) = unat index mod unat (grid_x l)"
    unfolding cta_block_def fst_conv using m unsigned_less [of "grid_x l", where 'a=nat]
    by (subst unat_narrow) (simp_all add: unat_mod)
  show y: "unat (snd (cta_block l index)) = unat index div unat (grid_x l)"
    unfolding cta_block_def snd_conv using d unsigned_less [of "grid_y l", where 'a=nat]
    by (subst unat_narrow) (simp_all add: unat_div)
  show "fst (cta_block l index) < grid_x l" "snd (cta_block l index) < grid_y l"
    using m d by (simp_all add: word_less_nat_alt x y)
qed

lemma cta_block_inj:
  assumes "grid_x l \<noteq> 0" "i < cta_count l" "j < cta_count l" "cta_block l i = cta_block l j"
  shows "i = j"
  using cta_block_coordinates(1,2) [OF assms(1,2)] cta_block_coordinates(1,2) [OF assms(1,3)] assms(4)
  by (metis mod_div_decomp word_unat_eq_iff)

section \<open>The run of a whole launch\<close>







section \<open>Job queues\<close>

lemma length_enqueued:
  assumes "pool < pools"
  shows "length (enqueued pools n pool) = n div pools + (if pool < n mod pools then 1 else 0)"
proof (induction n)
  case (Suc n)
  then show ?case
    using assms by (auto simp: enqueued_def div_Suc mod_Suc)
qed (simp add: enqueued_def)

lemma sum_jobs_per_pool:
  assumes "0 < pools"
  shows "sum_list (jobs_per_pool n pools) = n"
proof -
  have "sum_list (jobs_per_pool n pools) = (\<Sum>i < pools. n div pools + (if i < n mod pools then 1 else 0))"
    by (simp add: jobs_per_pool_def sum_list_sum_nth atLeast0LessThan)
  also have "\<dots> = pools * (n div pools) + card {i. i < pools \<and> i < n mod pools}"
    by (simp add: sum.distrib Int_def flip: sum.inter_filter)
  also have "{i. i < pools \<and> i < n mod pools} = {..< n mod pools}"
    using mod_less_divisor [OF assms, of n] by auto
  finally show ?thesis
    by simp
qed

section \<open>The properties\<close>




text \<open>C24. The result of a launch does not depend on the order in which the workers finish. When each
  job has been reported once, in any order, the waiting caller gets what a sequential run of the
  jobs by index would report: the cancellation if a job was cancelled, else the failure of the
  lowest index, else success.
\<close>

theorem batch_reports_lowest_failure:
  assumes "distinct (map fst reports)"
  shows "wait (finish_all reports (new_batch (of_nat (length reports)))) =
    Some (if list_ex job_cancelled reports then executor_failure Cancelled
      else lowest_failure reports)"
  by (rule batch_result [OF assms])

theorem batch_reports_lowest_failure_witness:
  "wait (finish_all [(2, executor_failure OutOfBounds), (0, None), (1, executor_failure System)]
    (new_batch 3)) = Some (executor_failure System)"
proof -
  have "\<not> (2 :: u64) \<le> 1"
    by code_simp
  then show ?thesis
    using batch_reports_lowest_failure
      [of "[(2, executor_failure OutOfBounds), (0, None), (1, executor_failure System)]"]
    by (simp add: list_ex_iff job_cancelled_def executor_failure_def base_diagnostic_def
        lowest_failure_def)
qed

text \<open>Every job has a reserved place: the sizes reserved for the pools' queues add up to the number
  of jobs, and the round-robin dispatch puts into each queue exactly as many jobs as were reserved
  for it, and never more before the dispatch is complete.
\<close>

lemma queues_fit_reservation:
  assumes "pool < pools" "dispatched \<le> count"
  shows "sum_list (jobs_per_pool count pools) = count \<and>
    length (enqueued pools count pool) = jobs_per_pool count pools ! pool \<and>
    length (enqueued pools dispatched pool) \<le> jobs_per_pool count pools ! pool"
proof -
  have "length (enqueued pools count pool) = jobs_per_pool count pools ! pool"
    using assms(1) by (simp add: length_enqueued jobs_per_pool_def)
  moreover have "length (enqueued pools dispatched pool) \<le> length (enqueued pools count pool)"
  proof -
    obtain n where n: "count = dispatched + n"
      using assms(2) le_Suc_ex by blast
    have "[0..<dispatched + n] = [0..<dispatched] @ [dispatched..<dispatched + n]"
      by (rule upt_add_eq_append) simp
    then show ?thesis
      by (simp add: enqueued_def n)
  qed
  ultimately show ?thesis
    using assms(1) sum_jobs_per_pool [of pools count] by simp
qed

text \<open>A launch that is not rejected stays within the limits, and the blocks are exactly the points
  of the grid. A block has between 1 and 1024 threads, the launch at most \<open>2 ^ 24\<close>, the number of
  blocks is the product of the grid's sides without overflow, every job index stands for a block
  inside the grid, and two jobs never stand for the same block.
\<close>

lemma accepted_launch_bounds:
  assumes "\<not> launch_rejected l" "i < cta_count l" "j < cta_count l"
  shows "0 < unat (block_x l) * unat (block_y l) \<and> unat (block_x l) * unat (block_y l) \<le> 1024 \<and>
    unat (cta_count l) = unat (grid_x l) * unat (grid_y l) \<and>
    unat (block_x l) * unat (block_y l) * unat (cta_count l) \<le> 2 ^ 24 \<and>
    fst (cta_block l i) < grid_x l \<and> snd (cta_block l i) < grid_y l \<and>
    (cta_block l i = cta_block l j \<longleftrightarrow> i = j)"
proof -
  have "grid_x l \<noteq> 0"
    using assms(1) by (auto simp: launch_rejected_def)
  then show ?thesis
    using accepted_launch [OF assms(1)] cta_block_coordinates(3,4) [of l i] cta_block_inj [of l i j]
      assms(2,3)
    by (auto simp: unat_cta_count)
qed

end
