(* ===== verification/VulkanStreams.thy ===== *)
theory VulkanStreams
  imports Prelude
begin

unbundle bit_operations_syntax

text \<open>
  The host-independent submission model of the Vulkan backend
  (\<open>plugins/backend/vulkan/runtime/.../vulkan_streams.hpp\<close> and \<open>streams.cpp\<close>): the graph that plans
  operations on streams with their dependencies, the pool of command resources with its completion
  timeline, and the ledger that joins the two into one transaction. An operation kind is the
  number the source passes around, since a value outside the enumeration is refused. An output
  object is part of the result; a null output is not modelled.
\<close>

section \<open>The stream graph\<close>

datatype stream_status =
    StreamSuccess | StreamInvalidArgument | StreamStaleGeneration | StreamUnknownStream
  | StreamInvalidVisibility | StreamDependencyNotReady | StreamDuplicateDependency
  | StreamTooManyDependencies | StreamTimelineExhausted

definition operation_copy :: u32 where "operation_copy = 1"
definition operation_launch :: u32 where "operation_launch = 2"

definition kStageTransfer :: u32 where "kStageTransfer = push_bit 0 1"
definition kStageCompute :: u32 where "kStageCompute = push_bit 1 1"
definition kAccessTransferRead :: u32 where "kAccessTransferRead = push_bit 0 1"
definition kAccessTransferWrite :: u32 where "kAccessTransferWrite = push_bit 1 1"
definition kAccessShaderRead :: u32 where "kAccessShaderRead = push_bit 2 1"
definition kAccessShaderWrite :: u32 where "kAccessShaderWrite = push_bit 3 1"
definition kCopyAccesses :: u32 where "kCopyAccesses = kAccessTransferRead OR kAccessTransferWrite"
definition kLaunchAccesses :: u32 where "kLaunchAccesses = kAccessShaderRead OR kAccessShaderWrite"
definition kMaxDependencies :: nat where "kMaxDependencies = 8"
definition kMaxStreams :: nat where "kMaxStreams = 32"

record visibility =
  stage_mask :: u32
  access_mask :: u32

record dependency =
  dep_stream :: u64
  dep_value :: u64

text \<open>The first \<open>dependency_count\<close> entries of the dependency array are a list.\<close>

record submission_plan =
  plan_sequence :: u64
  plan_generation :: u64
  plan_stream :: u64
  plan_kind :: u32
  plan_visibility :: visibility
  plan_dependencies :: "dependency list"

record stream_state =
  st_id :: u64
  st_last_sequence :: u64

record stream_graph =
  g_generation :: u64
  g_next_sequence :: u64
  g_streams :: "stream_state list"

definition new_graph :: "u64 \<Rightarrow> stream_graph" where
  "new_graph generation = \<lparr>g_generation = generation, g_next_sequence = 1, g_streams = []\<rparr>"

definition find_stream :: "u64 \<Rightarrow> stream_graph \<Rightarrow> nat option" where
  "find_stream stream_id g = find_index (\<lambda>s. st_id s = stream_id) (g_streams g)"

definition has_stream :: "u64 \<Rightarrow> stream_graph \<Rightarrow> bool" where
  "has_stream stream_id g \<longleftrightarrow> find_stream stream_id g \<noteq> None"

definition graph_create_stream :: "u64 \<Rightarrow> stream_graph \<Rightarrow> stream_status \<times> stream_graph" where
  "graph_create_stream stream_id g =
    (if stream_id = 0 \<or> kMaxStreams \<le> length (g_streams g) \<or> has_stream stream_id g
     then (StreamInvalidArgument, g)
     else (StreamSuccess, g\<lparr>g_streams := g_streams g @
       [\<lparr>st_id = stream_id, st_last_sequence = 0\<rparr>]\<rparr>))"

definition valid_visibility :: "u32 \<Rightarrow> visibility \<Rightarrow> bool" where
  "valid_visibility kind v =
    (if kind = operation_copy then stage_mask v = kStageTransfer \<and> access_mask v \<noteq> 0 \<and>
       access_mask v AND NOT kCopyAccesses = 0
     else if kind = operation_launch then stage_mask v = kStageCompute \<and> access_mask v \<noteq> 0 \<and>
       access_mask v AND NOT kLaunchAccesses = 0
     else False)"

definition dependency_not_ready :: "stream_graph \<Rightarrow> dependency \<Rightarrow> bool" where
  "dependency_not_ready g d = (case find_stream (dep_stream d) g of None \<Rightarrow> True
    | Some i \<Rightarrow> dep_value d = 0 \<or> st_last_sequence (g_streams g ! i) < dep_value d)"

text \<open>The dependencies from the first on, each checked against the ones before it.\<close>

fun check_dependencies ::
  "stream_graph \<Rightarrow> dependency list \<Rightarrow> dependency list \<Rightarrow> stream_status" where
  "check_dependencies g prior [] = StreamSuccess"
| "check_dependencies g prior (d # ds) =
    (if dependency_not_ready g d then StreamDependencyNotReady
     else if list_ex (\<lambda>p. dep_stream p = dep_stream d \<and> dep_value p = dep_value d) prior
     then StreamDuplicateDependency
     else check_dependencies g (prior @ [d]) ds)"

definition local_dependency_present :: "u64 \<Rightarrow> u64 \<Rightarrow> dependency list \<Rightarrow> bool" where
  "local_dependency_present stream_id last_seq ds \<longleftrightarrow> last_seq \<noteq> 0 \<and>
    list_ex (\<lambda>d. dep_stream d = stream_id \<and> dep_value d = last_seq) ds"

definition planned_dependencies :: "u64 \<Rightarrow> u64 \<Rightarrow> dependency list \<Rightarrow> dependency list" where
  "planned_dependencies stream_id last_seq ds =
    (if last_seq \<noteq> 0 \<and> \<not> local_dependency_present stream_id last_seq ds
     then [\<lparr>dep_stream = stream_id, dep_value = last_seq\<rparr>] else []) @ ds"

definition empty_plan :: submission_plan where
  "empty_plan = \<lparr>plan_sequence = 0, plan_generation = 0, plan_stream = 0,
    plan_kind = operation_copy, plan_visibility = \<lparr>stage_mask = 0, access_mask = 0\<rparr>,
    plan_dependencies = []\<rparr>"

definition graph_submit ::
  "u64 \<Rightarrow> u64 \<Rightarrow> u32 \<Rightarrow> visibility \<Rightarrow> dependency list \<Rightarrow> stream_graph \<Rightarrow>
    (stream_status \<times> submission_plan) \<times> stream_graph" where
  "graph_submit generation stream_id kind vis ds g =
    (if generation = 0 \<or> generation \<noteq> g_generation g then
      ((if generation \<noteq> g_generation g \<and> generation \<noteq> 0 then StreamStaleGeneration
        else StreamInvalidArgument, empty_plan), g)
     else (case find_stream stream_id g of None \<Rightarrow> ((StreamUnknownStream, empty_plan), g)
     | Some i \<Rightarrow> let last_seq = st_last_sequence (g_streams g ! i);
         status = check_dependencies g [] ds in
       if \<not> valid_visibility kind vis then ((StreamInvalidVisibility, empty_plan), g)
       else if kMaxDependencies < length ds then ((StreamTooManyDependencies, empty_plan), g)
       else if status \<noteq> StreamSuccess then ((status, empty_plan), g)
       else if kMaxDependencies < length ds +
         (if last_seq \<noteq> 0 \<and> \<not> local_dependency_present stream_id last_seq ds then 1 else 0)
       then ((StreamTooManyDependencies, empty_plan), g)
       else if g_next_sequence g = -1 then ((StreamTimelineExhausted, empty_plan), g)
       else let plan = \<lparr>plan_sequence = g_next_sequence g, plan_generation = g_generation g,
           plan_stream = stream_id, plan_kind = kind, plan_visibility = vis,
           plan_dependencies = planned_dependencies stream_id last_seq ds\<rparr> in
         if kMaxDependencies < length (plan_dependencies plan)
         then ((StreamTooManyDependencies, empty_plan), g\<lparr>g_next_sequence := g_next_sequence g + 1\<rparr>)
         else ((StreamSuccess, plan),
          g\<lparr>g_next_sequence := g_next_sequence g + 1,
            g_streams := (g_streams g)[i := (g_streams g ! i)\<lparr>st_last_sequence := plan_sequence plan\<rparr>]\<rparr>)))"

section \<open>The resource pool\<close>

datatype command_status =
    CommandSuccess | CommandInvalidArgument | CommandStaleGeneration | CommandExhausted
  | CommandBusy | CommandNotFound | CommandInvalidTimeline | CommandResourceIdExhausted
  | CommandTimelineExhausted

record command_resource =
  r_id :: u64
  r_generation :: u64
  r_stream :: u64
  r_sequence :: u64
  r_completion :: u64

definition empty_resource :: command_resource where
  "empty_resource = \<lparr>r_id = 0, r_generation = 0, r_stream = 0, r_sequence = 0, r_completion = 0\<rparr>"

datatype slot_state = SlotAvailable | SlotAcquired | SlotSubmitted

record slot =
  sl_state :: slot_state
  sl_resource :: command_resource

definition empty_slot :: slot where
  "empty_slot = \<lparr>sl_state = SlotAvailable, sl_resource = empty_resource\<rparr>"

record resource_pool =
  p_slots :: "slot list"
  p_generation :: u64
  p_next_id :: u64
  p_next_sequence :: u64
  p_last_submission :: u64
  p_last_completed :: u64

definition new_pool :: "nat \<Rightarrow> u64 \<Rightarrow> resource_pool" where
  "new_pool capacity generation = \<lparr>p_slots = replicate capacity empty_slot,
    p_generation = generation, p_next_id = 1, p_next_sequence = 1, p_last_submission = 0,
    p_last_completed = 0\<rparr>"

definition same_resource :: "command_resource \<Rightarrow> slot \<Rightarrow> bool" where
  "same_resource r s \<longleftrightarrow> r_id (sl_resource s) = r_id r \<and>
    r_generation (sl_resource s) = r_generation r \<and> r_stream (sl_resource s) = r_stream r \<and>
    r_sequence (sl_resource s) = r_sequence r"

definition find_slot :: "command_resource \<Rightarrow> resource_pool \<Rightarrow> nat option" where
  "find_slot r p = find_index (same_resource r) (p_slots p)"

definition find_exact_slot :: "command_resource \<Rightarrow> resource_pool \<Rightarrow> nat option" where
  "find_exact_slot r p = (case find_slot r p of None \<Rightarrow> None
    | Some i \<Rightarrow> if r_completion (sl_resource (p_slots p ! i)) = r_completion r then Some i else None)"

definition pool_acquire :: "u64 \<Rightarrow> u64 \<Rightarrow> resource_pool \<Rightarrow>
    (command_status \<times> command_resource) \<times> resource_pool" where
  "pool_acquire generation stream_id p =
    (if generation = 0 \<or> generation \<noteq> p_generation p \<or> stream_id = 0 then
      ((if generation \<noteq> p_generation p \<and> generation \<noteq> 0 then CommandStaleGeneration
        else CommandInvalidArgument, empty_resource), p)
     else if p_next_id p = -1 then ((CommandResourceIdExhausted, empty_resource), p)
     else if p_next_sequence p = -1 then ((CommandTimelineExhausted, empty_resource), p)
     else (case find_index (\<lambda>s. sl_state s = SlotAvailable) (p_slots p) of
       None \<Rightarrow> ((CommandExhausted, empty_resource), p)
     | Some i \<Rightarrow> let r = \<lparr>r_id = p_next_id p, r_generation = p_generation p, r_stream = stream_id,
           r_sequence = p_next_sequence p, r_completion = 0\<rparr> in
         ((CommandSuccess, r),
          p\<lparr>p_next_id := p_next_id p + 1, p_next_sequence := p_next_sequence p + 1,
            p_slots := (p_slots p)[i := \<lparr>sl_state = SlotAcquired, sl_resource = r\<rparr>]\<rparr>)))"

definition pool_submit :: "command_resource \<Rightarrow> u64 \<Rightarrow> resource_pool \<Rightarrow> command_status \<times> resource_pool"
where
  "pool_submit r completion p =
    (if r_generation r = 0 \<or> r_generation r \<noteq> p_generation p then (CommandStaleGeneration, p)
     else if completion = 0 \<or> completion \<le> p_last_submission p \<or> completion < p_last_completed p
     then (CommandInvalidTimeline, p)
     else (case find_slot r p of None \<Rightarrow> (CommandNotFound, p)
     | Some i \<Rightarrow> let s = p_slots p ! i in
       if sl_state s \<noteq> SlotAcquired then (CommandNotFound, p)
       else (CommandSuccess, p\<lparr>p_last_submission := completion, p_slots := (p_slots p)[i :=
         \<lparr>sl_state = SlotSubmitted, sl_resource = (sl_resource s)\<lparr>r_completion := completion\<rparr>\<rparr>]\<rparr>)))"

definition pool_cancel :: "command_resource \<Rightarrow> resource_pool \<Rightarrow> command_status \<times> resource_pool" where
  "pool_cancel r p =
    (if r_generation r = 0 \<or> r_generation r \<noteq> p_generation p then (CommandStaleGeneration, p)
     else (case find_slot r p of None \<Rightarrow> (CommandNotFound, p)
     | Some i \<Rightarrow> (case sl_state (p_slots p ! i) of
         SlotSubmitted \<Rightarrow> (CommandBusy, p)
       | SlotAvailable \<Rightarrow> (CommandNotFound, p)
       | SlotAcquired \<Rightarrow> (CommandSuccess, p\<lparr>p_slots := (p_slots p)[i := empty_slot]\<rparr>))))"

definition pool_discard :: "command_resource \<Rightarrow> resource_pool \<Rightarrow> command_status \<times> resource_pool" where
  "pool_discard r p =
    (if r_generation r = 0 \<or> r_generation r \<noteq> p_generation p then (CommandStaleGeneration, p)
     else (case find_exact_slot r p of None \<Rightarrow> (CommandNotFound, p)
     | Some i \<Rightarrow> if sl_state (p_slots p ! i) = SlotAvailable then (CommandNotFound, p)
       else (CommandSuccess, p\<lparr>p_slots := (p_slots p)[i := empty_slot]\<rparr>)))"

definition recycle_slot :: "u64 \<Rightarrow> slot \<Rightarrow> slot" where
  "recycle_slot completed s = (if sl_state s = SlotSubmitted \<and> r_completion (sl_resource s) \<le> completed
    then empty_slot else s)"

definition pool_recycle :: "u64 \<Rightarrow> u64 \<Rightarrow> resource_pool \<Rightarrow> command_status \<times> resource_pool" where
  "pool_recycle generation completed p =
    (if generation = 0 \<or> generation \<noteq> p_generation p then (CommandStaleGeneration, p)
     else if completed = 0 \<or> completed < p_last_completed p \<or> p_last_submission p < completed
     then (CommandInvalidTimeline, p)
     else (CommandSuccess, p\<lparr>p_last_completed := completed,
       p_slots := map (recycle_slot completed) (p_slots p)\<rparr>))"

definition pool_available_count :: "resource_pool \<Rightarrow> nat" where
  "pool_available_count p = length (filter (\<lambda>s. sl_state s = SlotAvailable) (p_slots p))"

definition pool_in_flight_count :: "resource_pool \<Rightarrow> nat" where
  "pool_in_flight_count p = length (p_slots p) - pool_available_count p"

definition pool_reconfigure :: "u64 \<Rightarrow> resource_pool \<Rightarrow> command_status \<times> resource_pool" where
  "pool_reconfigure generation p =
    (if generation = 0 then (CommandInvalidArgument, p)
     else if generation \<le> p_generation p then (CommandStaleGeneration, p)
     else if pool_in_flight_count p \<noteq> 0 then (CommandBusy, p)
     else (CommandSuccess, p\<lparr>p_generation := generation, p_last_submission := 0,
       p_last_completed := 0, p_slots := map (\<lambda>_. empty_slot) (p_slots p)\<rparr>))"

section \<open>The submission ledger\<close>

datatype queue_status =
    QueueSuccess | QueueInvalidArgument | QueueStaleGeneration | QueueUnknownStream
  | QueueInvalidVisibility | QueueDependencyNotReady | QueueDuplicateDependency
  | QueueTooManyDependencies | QueueResourceExhausted | QueueBusy | QueueInvalidTimeline
  | QueueTimelineExhausted | QueueNotFound

primrec map_stream_status :: "stream_status \<Rightarrow> queue_status" where
  "map_stream_status StreamSuccess = QueueSuccess"
| "map_stream_status StreamInvalidArgument = QueueInvalidArgument"
| "map_stream_status StreamStaleGeneration = QueueStaleGeneration"
| "map_stream_status StreamUnknownStream = QueueUnknownStream"
| "map_stream_status StreamInvalidVisibility = QueueInvalidVisibility"
| "map_stream_status StreamDependencyNotReady = QueueDependencyNotReady"
| "map_stream_status StreamDuplicateDependency = QueueDuplicateDependency"
| "map_stream_status StreamTooManyDependencies = QueueTooManyDependencies"
| "map_stream_status StreamTimelineExhausted = QueueTimelineExhausted"

primrec map_command_status :: "command_status \<Rightarrow> queue_status" where
  "map_command_status CommandSuccess = QueueSuccess"
| "map_command_status CommandInvalidArgument = QueueInvalidArgument"
| "map_command_status CommandStaleGeneration = QueueStaleGeneration"
| "map_command_status CommandExhausted = QueueResourceExhausted"
| "map_command_status CommandBusy = QueueBusy"
| "map_command_status CommandNotFound = QueueNotFound"
| "map_command_status CommandInvalidTimeline = QueueInvalidTimeline"
| "map_command_status CommandResourceIdExhausted = QueueResourceExhausted"
| "map_command_status CommandTimelineExhausted = QueueTimelineExhausted"

record queue_submission =
  qs_plan :: submission_plan
  qs_resource :: command_resource
  qs_completion :: u64

record queue_ledger =
  l_graph :: stream_graph
  l_resources :: resource_pool
  l_generation :: u64
  l_next_completion :: u64

definition new_ledger :: "nat \<Rightarrow> u64 \<Rightarrow> queue_ledger" where
  "new_ledger capacity generation = \<lparr>l_graph = new_graph generation,
    l_resources = new_pool capacity generation, l_generation = generation, l_next_completion = 1\<rparr>"

definition ledger_create_stream :: "u64 \<Rightarrow> queue_ledger \<Rightarrow> queue_status \<times> queue_ledger" where
  "ledger_create_stream stream_id l = (let (status, g) = graph_create_stream stream_id (l_graph l) in
    (map_stream_status status, l\<lparr>l_graph := g\<rparr>))"

definition empty_submission :: queue_submission where
  "empty_submission = \<lparr>qs_plan = empty_plan, qs_resource = empty_resource, qs_completion = 0\<rparr>"

definition ledger_submit :: "u64 \<Rightarrow> u64 \<Rightarrow> u32 \<Rightarrow> visibility \<Rightarrow> dependency list \<Rightarrow> queue_ledger \<Rightarrow>
    (queue_status \<times> queue_submission) \<times> queue_ledger" where
  "ledger_submit generation stream_id kind vis ds l =
    (if generation = 0 then ((QueueInvalidArgument, empty_submission), l)
     else if generation \<noteq> l_generation l then ((QueueStaleGeneration, empty_submission), l)
     else if l_next_completion l = -1 then ((QueueTimelineExhausted, empty_submission), l)
     else let ((acquired, r), p1) = pool_acquire generation stream_id (l_resources l) in
       if acquired \<noteq> CommandSuccess
       then ((map_command_status acquired, empty_submission), l\<lparr>l_resources := p1\<rparr>)
       else let ((planned, plan), g1) = graph_submit generation stream_id kind vis ds (l_graph l) in
         if planned \<noteq> StreamSuccess then ((map_stream_status planned, empty_submission),
           l\<lparr>l_graph := g1, l_resources := snd (pool_cancel r p1)\<rparr>)
         else let (submitted, p2) = pool_submit r (l_next_completion l) p1 in
           if submitted \<noteq> CommandSuccess then ((map_command_status submitted, empty_submission),
             l\<lparr>l_graph := g1, l_resources := snd (pool_cancel r p2)\<rparr>)
           else ((QueueSuccess, \<lparr>qs_plan = plan,
               qs_resource = r\<lparr>r_completion := l_next_completion l\<rparr>,
               qs_completion = l_next_completion l\<rparr>),
             l\<lparr>l_graph := g1, l_resources := p2, l_next_completion := l_next_completion l + 1\<rparr>))"

definition ledger_complete :: "u64 \<Rightarrow> u64 \<Rightarrow> queue_ledger \<Rightarrow> queue_status \<times> queue_ledger" where
  "ledger_complete generation completed l =
    (if generation = 0 then (QueueInvalidArgument, l)
     else let (status, p) = pool_recycle generation completed (l_resources l) in
       (map_command_status status, l\<lparr>l_resources := p\<rparr>))"

definition ledger_discard :: "queue_submission \<Rightarrow> queue_ledger \<Rightarrow> queue_status \<times> queue_ledger" where
  "ledger_discard q l =
    (if qs_completion q \<noteq> r_completion (qs_resource q) then (QueueInvalidArgument, l)
     else let (status, p) = pool_discard (qs_resource q) (l_resources l) in
       (map_command_status status, l\<lparr>l_resources := p\<rparr>))"

definition ledger_reconfigure :: "u64 \<Rightarrow> queue_ledger \<Rightarrow> queue_status \<times> queue_ledger" where
  "ledger_reconfigure generation l =
    (if generation = 0 then (QueueInvalidArgument, l)
     else if generation \<le> l_generation l then (QueueStaleGeneration, l)
     else if pool_in_flight_count (l_resources l) \<noteq> 0 then (QueueBusy, l)
     else let (status, p) = pool_reconfigure generation (l_resources l) in
       if status \<noteq> CommandSuccess then (map_command_status status, l\<lparr>l_resources := p\<rparr>)
       else (QueueSuccess, l\<lparr>l_resources := p, l_graph := new_graph generation,
         l_generation := generation, l_next_completion := 1\<rparr>))"

text \<open>Every status has a name of its own; the default name is for values outside the enumeration.\<close>

primrec stream_status_string :: "stream_status \<Rightarrow> string" where
  "stream_status_string StreamSuccess = ''success''"
| "stream_status_string StreamInvalidArgument = ''invalid-argument''"
| "stream_status_string StreamStaleGeneration = ''stale-generation''"
| "stream_status_string StreamUnknownStream = ''unknown-stream''"
| "stream_status_string StreamInvalidVisibility = ''invalid-visibility''"
| "stream_status_string StreamDependencyNotReady = ''dependency-not-ready''"
| "stream_status_string StreamDuplicateDependency = ''duplicate-dependency''"
| "stream_status_string StreamTooManyDependencies = ''too-many-dependencies''"
| "stream_status_string StreamTimelineExhausted = ''timeline-exhausted''"

lemma stream_status_string_inject:
  "stream_status_string x = stream_status_string y \<longleftrightarrow> x = y"
  by (cases x; cases y; simp)

primrec command_resource_status_string :: "command_status \<Rightarrow> string" where
  "command_resource_status_string CommandSuccess = ''success''"
| "command_resource_status_string CommandInvalidArgument = ''invalid-argument''"
| "command_resource_status_string CommandStaleGeneration = ''stale-generation''"
| "command_resource_status_string CommandExhausted = ''exhausted''"
| "command_resource_status_string CommandBusy = ''busy''"
| "command_resource_status_string CommandNotFound = ''not-found''"
| "command_resource_status_string CommandInvalidTimeline = ''invalid-timeline''"
| "command_resource_status_string CommandResourceIdExhausted = ''resource-id-exhausted''"
| "command_resource_status_string CommandTimelineExhausted = ''timeline-exhausted''"

lemma command_resource_status_string_inject:
  "command_resource_status_string x = command_resource_status_string y \<longleftrightarrow> x = y"
  by (cases x; cases y; simp)

primrec queue_submission_status_string :: "queue_status \<Rightarrow> string" where
  "queue_submission_status_string QueueSuccess = ''success''"
| "queue_submission_status_string QueueInvalidArgument = ''invalid-argument''"
| "queue_submission_status_string QueueStaleGeneration = ''stale-generation''"
| "queue_submission_status_string QueueUnknownStream = ''unknown-stream''"
| "queue_submission_status_string QueueInvalidVisibility = ''invalid-visibility''"
| "queue_submission_status_string QueueDependencyNotReady = ''dependency-not-ready''"
| "queue_submission_status_string QueueDuplicateDependency = ''duplicate-dependency''"
| "queue_submission_status_string QueueTooManyDependencies = ''too-many-dependencies''"
| "queue_submission_status_string QueueResourceExhausted = ''resource-exhausted''"
| "queue_submission_status_string QueueBusy = ''busy''"
| "queue_submission_status_string QueueInvalidTimeline = ''invalid-timeline''"
| "queue_submission_status_string QueueTimelineExhausted = ''timeline-exhausted''"
| "queue_submission_status_string QueueNotFound = ''not-found''"

lemma queue_submission_status_string_inject:
  "queue_submission_status_string x = queue_submission_status_string y \<longleftrightarrow> x = y"
  by (cases x; cases y; simp)

text \<open>What a client of the ledger may call, in any order and with any arguments.\<close>

datatype queue_call =
    CreateStream u64
  | SubmitOperation u64 u64 u32 visibility "dependency list"
  | CompleteUpTo u64 u64
  | DiscardSubmission queue_submission
  | ReconfigureLedger u64

primrec queue_step :: "queue_call \<Rightarrow> queue_ledger \<Rightarrow> queue_ledger" where
  "queue_step (CreateStream s) l = snd (ledger_create_stream s l)"
| "queue_step (SubmitOperation g s k v ds) l = snd (ledger_submit g s k v ds l)"
| "queue_step (CompleteUpTo g c) l = snd (ledger_complete g c l)"
| "queue_step (DiscardSubmission q) l = snd (ledger_discard q l)"
| "queue_step (ReconfigureLedger g) l = snd (ledger_reconfigure g l)"

section \<open>Invariants\<close>

definition graph_inv :: "stream_graph \<Rightarrow> bool" where
  "graph_inv g \<longleftrightarrow> distinct (map st_id (g_streams g)) \<and> length (g_streams g) \<le> kMaxStreams \<and>
    0 < g_next_sequence g \<and>
    (\<forall>s \<in> set (g_streams g). st_id s \<noteq> 0 \<and> st_last_sequence s < g_next_sequence g)"

definition slot_ok :: "resource_pool \<Rightarrow> slot \<Rightarrow> bool" where
  "slot_ok p s \<longleftrightarrow> (case sl_state s of
      SlotAvailable \<Rightarrow> s = empty_slot
    | SlotAcquired \<Rightarrow> False
    | SlotSubmitted \<Rightarrow> r_id (sl_resource s) < p_next_id p \<and>
        r_generation (sl_resource s) = p_generation p \<and> p_generation p \<noteq> 0 \<and>
        p_last_completed p < r_completion (sl_resource s) \<and>
        r_completion (sl_resource s) \<le> p_last_submission p)"

text \<open>The completion values that are still awaited.\<close>

definition awaited_in :: "slot list \<Rightarrow> u64 list" where
  "awaited_in ss = map (\<lambda>s. r_completion (sl_resource s))
    (filter (\<lambda>s. sl_state s = SlotSubmitted) ss)"

abbreviation awaited :: "resource_pool \<Rightarrow> u64 list" where
  "awaited p \<equiv> awaited_in (p_slots p)"

definition pool_inv :: "resource_pool \<Rightarrow> bool" where
  "pool_inv p \<longleftrightarrow> (\<forall>s \<in> set (p_slots p). slot_ok p s) \<and> distinct (awaited p) \<and>
    p_last_completed p \<le> p_last_submission p \<and> 0 < p_next_id p"

definition ledger_inv :: "queue_ledger \<Rightarrow> bool" where
  "ledger_inv l \<longleftrightarrow> graph_inv (l_graph l) \<and> pool_inv (l_resources l) \<and>
    g_generation (l_graph l) = l_generation l \<and> p_generation (l_resources l) = l_generation l \<and>
    p_last_submission (l_resources l) \<noteq> -1 \<and>
    l_next_completion l = p_last_submission (l_resources l) + 1"

subsection \<open>The graph\<close>

lemma find_stream_Some:
  assumes "find_stream s g = Some i"
  shows "i < length (g_streams g)" "st_id (g_streams g ! i) = s"
  using find_index_Some [OF assms [unfolded find_stream_def]] by auto

lemma new_graph_inv [simp]: "graph_inv (new_graph generation)"
  by (simp add: graph_inv_def new_graph_def)

lemma graph_create_stream_inv:
  "graph_inv g \<Longrightarrow> graph_inv (snd (graph_create_stream s g))"
  by (auto simp: graph_create_stream_def graph_inv_def has_stream_def find_stream_def
      find_index_None)

lemma planned_dependencies_length:
  "length (planned_dependencies s last_seq ds) =
    length ds + (if last_seq \<noteq> 0 \<and> \<not> local_dependency_present s last_seq ds then 1 else 0)"
  by (simp add: planned_dependencies_def)

text \<open>The two outcomes of planning: nothing changes, or the plan with its effect.\<close>

lemma graph_submit_cases:
  fixes g :: stream_graph
  obtains (refused) status where
    "graph_submit generation s kind vis ds g = ((status, empty_plan), g)" "status \<noteq> StreamSuccess"
  | (planned) i plan where "find_stream s g = Some i" "generation = g_generation g"
    "generation \<noteq> 0" "valid_visibility kind vis" "check_dependencies g [] ds = StreamSuccess"
    "g_next_sequence g \<noteq> -1"
    "plan = \<lparr>plan_sequence = g_next_sequence g, plan_generation = g_generation g,
       plan_stream = s, plan_kind = kind, plan_visibility = vis,
       plan_dependencies = planned_dependencies s (st_last_sequence (g_streams g ! i)) ds\<rparr>"
    "length (plan_dependencies plan) \<le> kMaxDependencies"
    "graph_submit generation s kind vis ds g = ((StreamSuccess, plan),
      g\<lparr>g_next_sequence := g_next_sequence g + 1,
        g_streams := (g_streams g)[i := (g_streams g ! i)\<lparr>st_last_sequence := g_next_sequence g\<rparr>]\<rparr>)"
proof (cases "fst (fst (graph_submit generation s kind vis ds g)) = StreamSuccess")
  case False
  then have "\<exists>status. graph_submit generation s kind vis ds g = ((status, empty_plan), g) \<and>
      status \<noteq> StreamSuccess"
    by (auto simp: graph_submit_def planned_dependencies_length Let_def split: if_splits option.splits)
  then show ?thesis
    using refused by blast
next
  case True
  then obtain i where i: "find_stream s g = Some i"
    by (auto simp: graph_submit_def split: if_splits option.splits)
  show ?thesis
    using True i
    by (intro planned [OF i _ _ _ _ _ refl])
      (auto simp: graph_submit_def planned_dependencies_length Let_def split: if_splits)
qed

lemma update_stream_ids:
  "i < length ss \<Longrightarrow> map st_id (ss[i := (ss ! i)\<lparr>st_last_sequence := n\<rparr>]) = map st_id ss"
  by (simp add: map_update list_update_same_conv)

lemma graph_submit_inv:
  assumes inv: "graph_inv g"
  shows "graph_inv (snd (graph_submit generation s kind vis ds g))"
proof (cases rule: graph_submit_cases [of generation s kind vis ds g])
  case (refused status)
  then show ?thesis
    using inv by simp
next
  case (planned i plan)
  note i = find_stream_Some [OF planned(1)]
  have less: "g_next_sequence g < g_next_sequence g + 1"
    by (rule u64_Suc [OF planned(6)])
  show ?thesis
    using inv i less update_stream_ids [OF i(1), of "g_next_sequence g"] order_less_trans [OF _ less]
    by (auto simp: planned(9) graph_inv_def dest!: set_update_subset_insert [THEN subsetD])
qed

lemma graph_submit_generation [simp]:
  "g_generation (snd (graph_submit generation s kind vis ds g)) = g_generation g"
  by (cases rule: graph_submit_cases [of generation s kind vis ds g]) simp_all

lemma check_dependencies_Success:
  "check_dependencies g prior ds = StreamSuccess \<Longrightarrow>
    (\<forall>d \<in> set ds. \<not> dependency_not_ready g d) \<and> distinct ds \<and> set prior \<inter> set ds = {}"
proof (induction g prior ds rule: check_dependencies.induct)
  case (2 g prior d ds)
  then show ?case
    by (auto simp: list_ex_iff split: if_splits)
qed simp

text \<open>What a graph knows of the dependencies it accepts: they name operations already planned.\<close>

lemma ready_dependency:
  assumes "graph_inv g" "\<not> dependency_not_ready g d"
  shows "0 < dep_value d \<and> dep_value d < g_next_sequence g \<and> has_stream (dep_stream d) g"
proof -
  obtain j where j: "find_stream (dep_stream d) g = Some j" "dep_value d \<noteq> 0"
      "dep_value d \<le> st_last_sequence (g_streams g ! j)"
    using assms(2) by (auto simp: dependency_not_ready_def split: option.splits)
  have "st_last_sequence (g_streams g ! j) < g_next_sequence g"
    using assms(1) find_stream_Some(1) [OF j(1)] by (auto simp: graph_inv_def)
  then show ?thesis
    using j by (auto simp: has_stream_def word_gt_0)
qed

lemma planned_dependencies_ready:
  assumes inv: "graph_inv g" and i: "find_stream s g = Some i"
    and ok: "check_dependencies g [] ds = StreamSuccess"
    and d: "d \<in> set (planned_dependencies s (st_last_sequence (g_streams g ! i)) ds)"
  shows "\<not> dependency_not_ready g d"
  using check_dependencies_Success [OF ok] d i
  by (auto simp: planned_dependencies_def dependency_not_ready_def split: if_splits)

lemma dependency_eta [simp]: "\<lparr>dep_stream = dep_stream d, dep_value = dep_value d\<rparr> = d"
  by (cases d) simp

lemma planned_dependencies_local:
  "prev \<noteq> 0 \<Longrightarrow> \<lparr>dep_stream = s, dep_value = prev\<rparr> \<in> set (planned_dependencies s prev ds)"
  by (auto simp: planned_dependencies_def local_dependency_present_def list_ex_iff)

lemma planned_dependencies_distinct:
  assumes "check_dependencies g [] ds = StreamSuccess"
  shows "distinct (planned_dependencies s prev ds)"
  using check_dependencies_Success [OF assms]
  by (auto simp: planned_dependencies_def local_dependency_present_def list_ex_iff)

subsection \<open>The pool\<close>

lemma awaited_in_simps [simp]:
  "awaited_in [] = []"
  "awaited_in (s # ss) = (if sl_state s = SlotSubmitted then [r_completion (sl_resource s)] else []) @
    awaited_in ss"
  "awaited_in (ss @ ts) = awaited_in ss @ awaited_in ts"
  by (simp_all add: awaited_in_def)

lemma awaited_in_update:
  assumes "i < length ss"
  shows "awaited_in (ss[i := s]) = awaited_in (take i ss) @ awaited_in (s # drop (Suc i) ss)"
    and "awaited_in ss = awaited_in (take i ss) @ awaited_in (ss ! i # drop (Suc i) ss)"
  using assms by (metis upd_conv_take_nth_drop awaited_in_simps(3))
    (metis assms id_take_nth_drop awaited_in_simps(3))

lemma new_pool_inv [simp]: "pool_inv (new_pool capacity generation)"
  by (auto simp: pool_inv_def new_pool_def slot_ok_def empty_slot_def awaited_in_def)

lemma empty_slot_state [simp]: "sl_state empty_slot = SlotAvailable"
  by (simp add: empty_slot_def)

lemma empty_slot_ok [simp]: "slot_ok p empty_slot"
  by (simp add: slot_ok_def)

lemma awaited_le: "pool_inv p \<Longrightarrow> c \<in> set (awaited p) \<Longrightarrow> c \<le> p_last_submission p"
  by (auto simp: pool_inv_def slot_ok_def awaited_in_def split: slot_state.splits)

text \<open>The resource an acquisition hands out, and the pool that has it in slot \<open>i\<close>.\<close>

definition acquired_resource :: "u64 \<Rightarrow> resource_pool \<Rightarrow> command_resource" where
  "acquired_resource s p = \<lparr>r_id = p_next_id p, r_generation = p_generation p, r_stream = s,
    r_sequence = p_next_sequence p, r_completion = 0\<rparr>"

definition pool_with :: "slot \<Rightarrow> nat \<Rightarrow> resource_pool \<Rightarrow> resource_pool" where
  "pool_with s i p = p\<lparr>p_next_id := p_next_id p + 1, p_next_sequence := p_next_sequence p + 1,
    p_slots := (p_slots p)[i := s]\<rparr>"

lemma pool_acquire_cases:
  fixes p :: resource_pool
  obtains (refused) status where
    "pool_acquire generation s p = ((status, empty_resource), p)" "status \<noteq> CommandSuccess"
  | (acquired) i where "i < length (p_slots p)" "sl_state (p_slots p ! i) = SlotAvailable"
    "generation = p_generation p" "generation \<noteq> 0" "p_next_id p \<noteq> -1"
    "pool_acquire generation s p = ((CommandSuccess, acquired_resource s p),
      pool_with \<lparr>sl_state = SlotAcquired, sl_resource = acquired_resource s p\<rparr> i p)"
proof (cases "fst (fst (pool_acquire generation s p)) = CommandSuccess")
  case False
  then have "\<exists>status. pool_acquire generation s p = ((status, empty_resource), p) \<and>
      status \<noteq> CommandSuccess"
    by (auto simp: pool_acquire_def Let_def split: if_splits option.splits)
  then show ?thesis
    using refused by blast
next
  case True
  then obtain i where i: "find_index (\<lambda>s. sl_state s = SlotAvailable) (p_slots p) = Some i"
    by (auto simp: pool_acquire_def split: if_splits option.splits)
  show ?thesis
    using True i find_index_Some [OF i]
    by (intro acquired [of i])
      (auto simp: pool_acquire_def acquired_resource_def pool_with_def Let_def split: if_splits)
qed

lemma slot_id_below:
  assumes "pool_inv p" "i < length (p_slots p)"
  shows "r_id (sl_resource (p_slots p ! i)) < p_next_id p"
proof -
  have "slot_ok p (p_slots p ! i)"
    using assms by (simp add: pool_inv_def)
  then show ?thesis
    using assms(1)
    by (auto simp: slot_ok_def empty_slot_def empty_resource_def pool_inv_def
        split: slot_state.splits)
qed

lemma acquired_slot_found:
  assumes "pool_inv p" "i < length (p_slots p)" "sl_resource s = acquired_resource t p"
  shows "find_slot (acquired_resource t p) (pool_with s i p) = Some i"
  unfolding find_slot_def
proof (rule find_index_unique)
  fix j
  assume j: "j < length (p_slots (pool_with s i p))"
    "same_resource (acquired_resource t p) (p_slots (pool_with s i p) ! j)"
  show "j = i"
    using j assms slot_id_below [OF assms(1), of j]
    by (auto simp: pool_with_def same_resource_def acquired_resource_def nth_list_update
        split: if_splits)
qed (use assms in \<open>simp_all add: pool_with_def same_resource_def\<close>)

lemma pool_with_simps [simp]:
  "p_generation (pool_with s i p) = p_generation p"
  "p_last_submission (pool_with s i p) = p_last_submission p"
  "p_last_completed (pool_with s i p) = p_last_completed p"
  "length (p_slots (pool_with s i p)) = length (p_slots p)"
  by (simp_all add: pool_with_def)

lemma pool_cancel_acquired:
  assumes inv: "pool_inv p" and i: "i < length (p_slots p)" "sl_state (p_slots p ! i) = SlotAvailable"
    and gen: "p_generation p \<noteq> 0"
  shows "pool_cancel (acquired_resource t p)
      (pool_with \<lparr>sl_state = SlotAcquired, sl_resource = acquired_resource t p\<rparr> i p) =
    (CommandSuccess, pool_with empty_slot i p)"
  using i gen acquired_slot_found [OF inv i(1), of _ t]
  by (simp add: pool_cancel_def acquired_resource_def) (simp add: pool_with_def)

lemma pool_submit_acquired:
  assumes inv: "pool_inv p" and i: "i < length (p_slots p)" "sl_state (p_slots p ! i) = SlotAvailable"
    and gen: "p_generation p \<noteq> 0" and c: "p_last_submission p < c"
  shows "pool_submit (acquired_resource t p) c
      (pool_with \<lparr>sl_state = SlotAcquired, sl_resource = acquired_resource t p\<rparr> i p) =
    (CommandSuccess, (pool_with \<lparr>sl_state = SlotSubmitted,
      sl_resource = (acquired_resource t p)\<lparr>r_completion := c\<rparr>\<rparr> i p)\<lparr>p_last_submission := c\<rparr>)"
proof -
  have "c \<noteq> 0" "\<not> c \<le> p_last_submission p" "\<not> c < p_last_completed p"
    using c inv by (auto simp: pool_inv_def)
  then show ?thesis
    using i gen acquired_slot_found [OF inv i(1), of _ t]
    by (simp add: pool_submit_def acquired_resource_def) (simp add: pool_with_def)
qed

end
