(* ===== verification/VulkanLedger.thy ===== *)
theory VulkanLedger
  imports VulkanStreams
begin

text \<open>
  The invariants of the Vulkan submission model and what they give its clients: the completion
  values in flight, the ordering of the operations of a stream over any history of calls, the
  absence of effects of a refused submission, and that a drained ledger can be reconfigured.
\<close>

subsection \<open>The pool invariant\<close>

lemma slot_ok_grow:
  assumes "slot_ok p s" "p_next_id p \<le> p_next_id q" "p_generation q = p_generation p"
    "p_last_completed q = p_last_completed p" "p_last_submission p \<le> p_last_submission q"
  shows "slot_ok q s"
  using assms by (auto simp: slot_ok_def split: slot_state.splits)

lemma available_slot:
  "pool_inv p \<Longrightarrow> i < length (p_slots p) \<Longrightarrow> sl_state (p_slots p ! i) = SlotAvailable \<Longrightarrow>
    p_slots p ! i = empty_slot"
  by (auto simp: pool_inv_def slot_ok_def dest!: nth_mem split: slot_state.splits)

lemma pool_with_empty:
  assumes "pool_inv p" "i < length (p_slots p)" "sl_state (p_slots p ! i) = SlotAvailable"
  shows "pool_with empty_slot i p =
    p\<lparr>p_next_id := p_next_id p + 1, p_next_sequence := p_next_sequence p + 1\<rparr>"
proof -
  have "(p_slots p)[i := empty_slot] = p_slots p"
    using available_slot [OF assms] by (metis list_update_id)
  then show ?thesis
    by (simp add: pool_with_def)
qed

lemma pool_inv_next:
  assumes inv: "pool_inv p" and "p_next_id p \<noteq> -1"
  shows "pool_inv (p\<lparr>p_next_id := p_next_id p + 1, p_next_sequence := n\<rparr>)"
proof -
  have less: "p_next_id p < p_next_id p + 1"
    by (rule u64_Suc [OF assms(2)])
  have "slot_ok (p\<lparr>p_next_id := p_next_id p + 1, p_next_sequence := n\<rparr>) s"
    if "s \<in> set (p_slots p)" for s
    using inv that less by (auto simp: pool_inv_def intro: slot_ok_grow)
  then show ?thesis
    using inv order_less_trans [OF _ less, of 0] by (simp add: pool_inv_def)
qed

lemma pool_inv_submitted:
  assumes inv: "pool_inv p" and i: "i < length (p_slots p)" "sl_state (p_slots p ! i) = SlotAvailable"
    and gen: "p_generation p \<noteq> 0" and nid: "p_next_id p \<noteq> -1" and c: "p_last_submission p < c"
    and r: "r = (acquired_resource t p)\<lparr>r_completion := c\<rparr>"
  shows "pool_inv ((pool_with \<lparr>sl_state = SlotSubmitted, sl_resource = r\<rparr> i p)\<lparr>p_last_submission := c\<rparr>)"
    (is "pool_inv ?q")
proof -
  have less: "p_next_id p < p_next_id p + 1"
    by (rule u64_Suc [OF nid])
  have new: "slot_ok ?q \<lparr>sl_state = SlotSubmitted, sl_resource = r\<rparr>"
    using less gen c inv by (auto simp: slot_ok_def r acquired_resource_def pool_with_def pool_inv_def)
  have old: "slot_ok ?q s" if "s \<in> set (p_slots p)" for s
    using inv that less c by (auto simp: pool_inv_def pool_with_def intro: slot_ok_grow)
  have slots: "slot_ok ?q s" if "s \<in> set (p_slots ?q)" for s
    using that new old set_update_subset_insert [of "p_slots p" i] by (auto simp: pool_with_def)
  have fresh: "c \<notin> set (awaited p)"
    using awaited_le [OF inv, of c] c by auto
  have "distinct (awaited p)"
    using inv by (simp add: pool_inv_def)
  then have "distinct (awaited ?q)"
    using fresh i awaited_in_update [OF i(1)] by (auto simp: pool_with_def r)
  then show ?thesis
    using slots inv c order_less_trans [OF _ less, of 0]
    by (auto simp: pool_inv_def pool_with_def)
qed

lemma pool_discard_inv:
  assumes inv: "pool_inv p"
  shows "pool_inv (snd (pool_discard r p))"
proof (cases "fst (pool_discard r p) = CommandSuccess")
  case False
  then have "snd (pool_discard r p) = p"
    by (auto simp: pool_discard_def split: if_splits option.splits)
  then show ?thesis
    using inv by simp
next
  case True
  then obtain i where i: "find_slot r p = Some i"
      and q: "snd (pool_discard r p) = p\<lparr>p_slots := (p_slots p)[i := empty_slot]\<rparr>"
    by (auto simp: pool_discard_def find_exact_slot_def split: if_splits option.splits)
  have len: "i < length (p_slots p)"
    using find_index_Some [OF i [unfolded find_slot_def]] by simp
  have grow: "slot_ok (p\<lparr>p_slots := (p_slots p)[i := empty_slot]\<rparr>) s" if "slot_ok p s" for s
    by (rule slot_ok_grow [OF that]) simp_all
  have "distinct (awaited_in ((p_slots p)[i := empty_slot]))"
    using inv awaited_in_update [OF len] by (auto simp: pool_inv_def)
  then show ?thesis
    using inv grow set_update_subset_insert [of "p_slots p" i empty_slot]
    by (auto simp: q pool_inv_def)
qed

lemma awaited_in_recycled:
  "awaited_in (map (recycle_slot completed) ss) = filter (\<lambda>c. completed < c) (awaited_in ss)"
  by (induction ss) (auto simp: recycle_slot_def)

lemma pool_recycle_inv:
  assumes inv: "pool_inv p"
  shows "pool_inv (snd (pool_recycle generation completed p))"
proof (cases "fst (pool_recycle generation completed p) = CommandSuccess")
  case False
  then have "snd (pool_recycle generation completed p) = p"
    by (auto simp: pool_recycle_def split: if_splits)
  then show ?thesis
    using inv by simp
next
  case True
  then have q: "snd (pool_recycle generation completed p) = p\<lparr>p_last_completed := completed,
      p_slots := map (recycle_slot completed) (p_slots p)\<rparr>" (is "_ = ?q")
    and le: "completed \<le> p_last_submission p"
    by (auto simp: pool_recycle_def split: if_splits)
  have "slot_ok ?q (recycle_slot completed s)" if "slot_ok p s" for s
    using that by (auto simp: slot_ok_def recycle_slot_def split: slot_state.splits)
  then show ?thesis
    using inv le by (auto simp: q pool_inv_def awaited_in_recycled)
qed

lemma pool_reconfigure_inv:
  assumes inv: "pool_inv p"
  shows "pool_inv (snd (pool_reconfigure generation p))"
  using inv by (auto simp: pool_reconfigure_def pool_inv_def awaited_in_def)

subsection \<open>The ledger invariant\<close>

lemma ledger_invD:
  assumes "ledger_inv l"
  shows "graph_inv (l_graph l)" "pool_inv (l_resources l)" "g_generation (l_graph l) = l_generation l"
    "p_generation (l_resources l) = l_generation l" "p_last_submission (l_resources l) \<noteq> -1"
    "l_next_completion l = p_last_submission (l_resources l) + 1"
    "p_last_submission (l_resources l) < l_next_completion l"
  using assms u64_Suc [of "p_last_submission (l_resources l)"] by (simp_all add: ledger_inv_def)

text \<open>Pools that differ at most in the numbers they would give to the next resource.\<close>

definition same_pool :: "resource_pool \<Rightarrow> resource_pool \<Rightarrow> bool" where
  "same_pool p q \<longleftrightarrow> p_slots q = p_slots p \<and> p_generation q = p_generation p \<and>
    p_last_submission q = p_last_submission p \<and> p_last_completed q = p_last_completed p"

lemma same_pool_refl [simp]: "same_pool p p"
  by (simp add: same_pool_def)

lemma map_status_Success [simp]:
  "map_command_status status = QueueSuccess \<longleftrightarrow> status = CommandSuccess"
  "map_stream_status status' = QueueSuccess \<longleftrightarrow> status' = StreamSuccess"
  by (cases status; simp) (cases status'; simp)

text \<open>
  The two outcomes of a submission in a consistent ledger. The failure the code provides for after
  planning, of a resource that cannot be submitted, is not among them.
\<close>

lemma ledger_submit_cases:
  fixes l :: queue_ledger
  assumes inv: "ledger_inv l"
  obtains (refused) status p where
    "ledger_submit generation s kind vis ds l = ((status, empty_submission), l\<lparr>l_resources := p\<rparr>)"
    "status \<noteq> QueueSuccess" "pool_inv p"
    "same_pool (l_resources l) p"
  | (accepted) i plan g1 where
    "i < length (p_slots (l_resources l))"
    "sl_state (p_slots (l_resources l) ! i) = SlotAvailable"
    "generation = l_generation l" "generation \<noteq> 0" "l_next_completion l \<noteq> -1"
    "p_next_id (l_resources l) \<noteq> -1"
    "graph_submit generation s kind vis ds (l_graph l) = ((StreamSuccess, plan), g1)"
    "ledger_submit generation s kind vis ds l = ((QueueSuccess, \<lparr>qs_plan = plan,
        qs_resource = (acquired_resource s (l_resources l))\<lparr>r_completion := l_next_completion l\<rparr>,
        qs_completion = l_next_completion l\<rparr>),
      l\<lparr>l_graph := g1, l_resources := (pool_with \<lparr>sl_state = SlotSubmitted,
          sl_resource = (acquired_resource s (l_resources l))\<lparr>r_completion := l_next_completion l\<rparr>\<rparr>
          i (l_resources l))\<lparr>p_last_submission := l_next_completion l\<rparr>,
        l_next_completion := l_next_completion l + 1\<rparr>)"
proof (cases "generation = 0 \<or> generation \<noteq> l_generation l \<or> l_next_completion l = -1")
  case True
  then have "\<exists>status. ledger_submit generation s kind vis ds l = ((status, empty_submission), l) \<and>
      status \<noteq> QueueSuccess"
    by (auto simp: ledger_submit_def)
  then show ?thesis
    using refused [of _ "l_resources l"] ledger_invD(2) [OF inv] by auto
next
  case False
  note here = ledger_invD [OF inv]
  show ?thesis
  proof (cases rule: pool_acquire_cases [of generation s "l_resources l"])
    case (refused status)
    show ?thesis
      using False refused here(2)
      by (intro that(1) [of "map_command_status status" "l_resources l"])
        (simp_all add: ledger_submit_def)
  next
    case (acquired i)
    then have gen: "p_generation (l_resources l) \<noteq> 0"
      by simp
    note cancel = pool_cancel_acquired [OF here(2) acquired(1,2) gen, of s]
      and submit = pool_submit_acquired [OF here(2) acquired(1,2) gen here(7), of s]
      and empty = pool_with_empty [OF here(2) acquired(1,2)]
    show ?thesis
    proof (cases rule: graph_submit_cases [of generation s kind vis ds "l_graph l"])
      case (refused status)
      show ?thesis
        using False acquired refused cancel empty pool_inv_next [OF here(2) acquired(5)]
        by (intro that(1) [of "map_stream_status status" "pool_with empty_slot i (l_resources l)"])
          (simp_all add: ledger_submit_def same_pool_def)
    next
      case (planned j plan)
      show ?thesis
        using False acquired planned submit
        by (intro that(2) [OF acquired(1,2) _ _ _ acquired(5) planned(9)]) (auto simp: ledger_submit_def)
    qed
  qed
qed

lemma ledger_submit_inv:
  assumes inv: "ledger_inv l"
  shows "ledger_inv (snd (ledger_submit generation s kind vis ds l))"
  using inv
proof (cases rule: ledger_submit_cases [of l generation s kind vis ds])
  case (refused status p)
  then show ?thesis
    using inv by (simp add: ledger_inv_def same_pool_def)
next
  case (accepted i plan g1)
  note here = ledger_invD [OF inv]
  have gen: "p_generation (l_resources l) \<noteq> 0"
    using accepted here by simp
  have "graph_inv g1" "g_generation g1 = g_generation (l_graph l)"
    using graph_submit_inv [OF here(1), of generation s kind vis ds]
      graph_submit_generation [of generation s kind vis ds "l_graph l"] accepted(7) by simp_all
  then show ?thesis
    using pool_inv_submitted [OF here(2) accepted(1,2) gen accepted(6) here(7) refl, of s] accepted here
    by (simp add: ledger_inv_def)
qed

lemma new_ledger_inv [simp]: "ledger_inv (new_ledger capacity generation)"
  by (simp add: ledger_inv_def new_ledger_def) (simp add: new_graph_def new_pool_def)

lemma graph_create_stream_generation [simp]:
  "g_generation (snd (graph_create_stream s g)) = g_generation g"
  by (simp add: graph_create_stream_def)

lemma pool_discard_keeps [simp]:
  "p_generation (snd (pool_discard r p)) = p_generation p"
  "p_last_submission (snd (pool_discard r p)) = p_last_submission p"
  by (auto simp: pool_discard_def split: option.splits)

lemma pool_recycle_keeps [simp]:
  "p_generation (snd (pool_recycle generation completed p)) = p_generation p"
  "p_last_submission (snd (pool_recycle generation completed p)) = p_last_submission p"
  by (auto simp: pool_recycle_def)

lemma ledger_reconfigure_inv:
  assumes inv: "ledger_inv l"
  shows "ledger_inv (snd (ledger_reconfigure generation l))"
  using inv pool_reconfigure_inv [OF ledger_invD(2) [OF inv], of generation]
  by (auto simp: ledger_reconfigure_def ledger_inv_def pool_reconfigure_def Let_def new_graph_def)
    (simp add: graph_inv_def)

lemma ledger_create_stream_inv:
  "ledger_inv l \<Longrightarrow> ledger_inv (snd (ledger_create_stream s l))"
  by (simp add: ledger_create_stream_def case_prod_beta ledger_inv_def graph_create_stream_inv)

lemma ledger_complete_inv: "ledger_inv l \<Longrightarrow> ledger_inv (snd (ledger_complete generation c l))"
  by (simp add: ledger_complete_def case_prod_beta ledger_inv_def pool_recycle_inv)

lemma ledger_discard_inv: "ledger_inv l \<Longrightarrow> ledger_inv (snd (ledger_discard q l))"
  by (simp add: ledger_discard_def case_prod_beta ledger_inv_def pool_discard_inv)

lemma queue_step_inv: "ledger_inv l \<Longrightarrow> ledger_inv (queue_step c l)"
  by (cases c) (simp_all add: ledger_create_stream_inv ledger_submit_inv ledger_complete_inv
      ledger_discard_inv ledger_reconfigure_inv)

interpretation vk_queue: invariant_component queue_step ledger_inv
  by unfold_locales (rule queue_step_inv)

abbreviation reachable_ledger :: "nat \<Rightarrow> u64 \<Rightarrow> queue_call list \<Rightarrow> queue_ledger" where
  "reachable_ledger capacity generation calls \<equiv>
    run_ops queue_step calls (new_ledger capacity generation)"

lemma reachable_ledger_inv: "ledger_inv (reachable_ledger capacity generation calls)"
  by (rule vk_queue.run_inv) simp

section \<open>Draining\<close>

lemma pool_in_flight_count_alt:
  "pool_in_flight_count p = length (filter (\<lambda>s. sl_state s \<noteq> SlotAvailable) (p_slots p))"
  using sum_length_filter_compl [of "\<lambda>s. sl_state s = SlotAvailable" "p_slots p"]
  by (simp add: pool_in_flight_count_def pool_available_count_def)

lemma in_flight_last_submission:
  assumes inv: "pool_inv p" and busy: "pool_in_flight_count p \<noteq> 0"
  shows "p_last_submission p \<noteq> 0"
proof -
  obtain s where s: "s \<in> set (p_slots p)" "sl_state s \<noteq> SlotAvailable"
    using busy by (auto simp: pool_in_flight_count_alt filter_empty_conv)
  then have "slot_ok p s"
    using inv by (simp add: pool_inv_def)
  then show ?thesis
    using s(2) by (auto simp: slot_ok_def split: slot_state.splits)
qed

lemma recycle_all:
  assumes inv: "pool_inv p" and s: "s \<in> set (p_slots p)"
  shows "recycle_slot (p_last_submission p) s = empty_slot"
proof -
  have "slot_ok p s"
    using inv s by (simp add: pool_inv_def)
  then show ?thesis
    by (cases "sl_state s") (simp_all add: slot_ok_def recycle_slot_def)
qed

lemma recycle_all_slots:
  assumes "pool_inv p"
  shows "map (recycle_slot (p_last_submission p)) (p_slots p) = replicate (length (p_slots p)) empty_slot"
  using recycle_all [OF assms] by (intro nth_equalityI) simp_all

section \<open>Histories\<close>

text \<open>The plan a call adds to the history, and the ledger together with the plans it has accepted.\<close>

definition accepted_by :: "queue_call \<Rightarrow> queue_ledger \<Rightarrow> submission_plan list" where
  "accepted_by c l = (case c of
      SubmitOperation g s k v ds \<Rightarrow> (case ledger_submit g s k v ds l of ((status, q), _) \<Rightarrow>
        if status = QueueSuccess then [qs_plan q] else [])
    | _ \<Rightarrow> [])"

definition history_step ::
  "queue_call \<Rightarrow> queue_ledger \<times> submission_plan list \<Rightarrow> queue_ledger \<times> submission_plan list" where
  "history_step c s = (queue_step c (fst s), snd s @ accepted_by c (fst s))"

definition history :: "nat \<Rightarrow> u64 \<Rightarrow> queue_call list \<Rightarrow> submission_plan list" where
  "history capacity generation calls =
    snd (run_ops history_step calls (new_ledger capacity generation, []))"

text \<open>The earlier operations of a stream in one generation.\<close>

definition on_stream :: "u64 \<Rightarrow> u64 \<Rightarrow> submission_plan list \<Rightarrow> submission_plan list" where
  "on_stream generation s hs =
    filter (\<lambda>p. plan_generation p = generation \<and> plan_stream p = s) hs"

definition last_on_stream :: "u64 \<Rightarrow> u64 \<Rightarrow> submission_plan list \<Rightarrow> u64" where
  "last_on_stream generation s hs = (if on_stream generation s hs = [] then 0
    else plan_sequence (last (on_stream generation s hs)))"

definition follows :: "submission_plan list \<Rightarrow> submission_plan \<Rightarrow> bool" where
  "follows hs q \<longleftrightarrow>
    (\<forall>p \<in> set hs. plan_generation p = plan_generation q \<longrightarrow> plan_sequence p < plan_sequence q) \<and>
    (\<forall>d \<in> set (plan_dependencies q). 0 < dep_value d \<and> dep_value d < plan_sequence q) \<and>
    (on_stream (plan_generation q) (plan_stream q) hs \<noteq> [] \<longrightarrow>
      \<lparr>dep_stream = plan_stream q,
       dep_value = plan_sequence (last (on_stream (plan_generation q) (plan_stream q) hs))\<rparr>
      \<in> set (plan_dependencies q)) \<and>
    distinct (plan_dependencies q) \<and> length (plan_dependencies q) \<le> kMaxDependencies"

text \<open>What the graph remembers of the history: the last operation of each of its streams.\<close>

definition tracks :: "stream_graph \<Rightarrow> submission_plan list \<Rightarrow> bool" where
  "tracks g hs \<longleftrightarrow>
    (\<forall>p \<in> set hs. plan_generation p \<le> g_generation g \<and>
      (plan_generation p = g_generation g \<longrightarrow> 0 < plan_sequence p \<and>
        plan_sequence p < g_next_sequence g \<and> plan_stream p \<in> st_id ` set (g_streams g))) \<and>
    (\<forall>s \<in> set (g_streams g). st_last_sequence s = last_on_stream (g_generation g) (st_id s) hs)"

definition history_inv :: "queue_ledger \<times> submission_plan list \<Rightarrow> bool" where
  "history_inv s \<longleftrightarrow> ledger_inv (fst s) \<and> tracks (l_graph (fst s)) (snd s) \<and>
    (\<forall>n < length (snd s). follows (take n (snd s)) (snd s ! n))"

lemma on_stream_simps [simp]:
  "on_stream g s [] = []"
  "on_stream g s (hs @ [q]) = on_stream g s hs @
    (if plan_generation q = g \<and> plan_stream q = s then [q] else [])"
  by (simp_all add: on_stream_def)

lemma on_stream_empty:
  "on_stream g s hs = [] \<longleftrightarrow> (\<forall>p \<in> set hs. plan_generation p = g \<longrightarrow> plan_stream p \<noteq> s)"
  by (auto simp: on_stream_def filter_empty_conv)

lemma tracks_create_stream:
  assumes t: "tracks g hs"
  shows "tracks (snd (graph_create_stream s g)) hs"
proof (cases "fst (graph_create_stream s g) = StreamSuccess")
  case True
  then have new: "s \<notin> st_id ` set (g_streams g)"
    by (auto simp: graph_create_stream_def has_stream_def find_stream_def find_index_None
        split: if_splits)
  have "on_stream (g_generation g) s hs = []"
    using t new by (auto simp: tracks_def on_stream_empty)
  then show ?thesis
    using t True by (auto simp: tracks_def graph_create_stream_def last_on_stream_def split: if_splits)
next
  case False
  then show ?thesis
    using t by (auto simp: graph_create_stream_def split: if_splits)
qed

lemma tracks_new_generation:
  assumes "tracks g hs" "g_generation g < generation"
  shows "tracks (new_graph generation) hs"
  using assms by (auto simp: tracks_def new_graph_def)

text \<open>Planning extends the history by an operation that follows it.\<close>

lemma graph_submit_Success:
  assumes "graph_submit generation s kind vis ds g = ((StreamSuccess, plan), g1)"
  obtains i where "find_stream s g = Some i" "check_dependencies g [] ds = StreamSuccess"
    "g_next_sequence g \<noteq> -1"
    "plan = \<lparr>plan_sequence = g_next_sequence g, plan_generation = g_generation g,
       plan_stream = s, plan_kind = kind, plan_visibility = vis,
       plan_dependencies = planned_dependencies s (st_last_sequence (g_streams g ! i)) ds\<rparr>"
    "length (plan_dependencies plan) \<le> kMaxDependencies"
    "g1 = g\<lparr>g_next_sequence := g_next_sequence g + 1,
        g_streams := (g_streams g)[i := (g_streams g ! i)\<lparr>st_last_sequence := g_next_sequence g\<rparr>]\<rparr>"
  by (cases rule: graph_submit_cases [of generation s kind vis ds g]) (use assms in auto)

lemma graph_submit_follows:
  assumes inv: "graph_inv g" and t: "tracks g hs"
    and sub: "graph_submit generation s kind vis ds g = ((StreamSuccess, plan), g1)"
  shows "follows hs plan"
proof -
  obtain i where planned: "find_stream s g = Some i" "check_dependencies g [] ds = StreamSuccess"
    "plan = \<lparr>plan_sequence = g_next_sequence g, plan_generation = g_generation g,
       plan_stream = s, plan_kind = kind, plan_visibility = vis,
       plan_dependencies = planned_dependencies s (st_last_sequence (g_streams g ! i)) ds\<rparr>"
    "length (plan_dependencies plan) \<le> kMaxDependencies"
    using sub by (rule graph_submit_Success)
  note i = find_stream_Some [OF planned(1)]
  have prev: "st_last_sequence (g_streams g ! i) = last_on_stream (g_generation g) s hs"
    using t i by (auto simp: tracks_def)
  have chained: "\<lparr>dep_stream = s, dep_value = plan_sequence (last (on_stream (g_generation g) s hs))\<rparr>
      \<in> set (plan_dependencies plan)" if some: "on_stream (g_generation g) s hs \<noteq> []"
  proof -
    have "plan_sequence (last (on_stream (g_generation g) s hs)) \<noteq> 0"
      using t last_in_set [OF some] by (auto simp: tracks_def on_stream_def)
    then show ?thesis
      using some planned_dependencies_local [of "st_last_sequence (g_streams g ! i)" s ds]
      by (simp add: planned(3) prev last_on_stream_def)
  qed
  have deps: "0 < dep_value d \<and> dep_value d < g_next_sequence g"
    if "d \<in> set (plan_dependencies plan)" for d
    using ready_dependency [OF inv planned_dependencies_ready [OF inv planned(1,2), of d]] that
    by (simp add: planned(3))
  show ?thesis
    using t chained deps planned_dependencies_distinct [OF planned(2)] planned(4)
    by (simp add: follows_def planned(3) tracks_def)
qed

lemma graph_submit_tracks:
  assumes inv: "graph_inv g" and t: "tracks g hs"
    and sub: "graph_submit generation s kind vis ds g = ((StreamSuccess, plan), g1)"
  shows "tracks g1 (hs @ [plan])"
proof -
  obtain i where planned: "find_stream s g = Some i" "g_next_sequence g \<noteq> -1"
    "plan_sequence plan = g_next_sequence g" "plan_generation plan = g_generation g"
    "plan_stream plan = s"
    "g1 = g\<lparr>g_next_sequence := g_next_sequence g + 1,
        g_streams := (g_streams g)[i := (g_streams g ! i)\<lparr>st_last_sequence := g_next_sequence g\<rparr>]\<rparr>"
    using sub by (rule graph_submit_Success) auto
  note i = find_stream_Some [OF planned(1)]
  have less: "g_next_sequence g < g_next_sequence g + 1" "0 < g_next_sequence g"
    using u64_Suc [OF planned(2)] inv by (simp_all add: graph_inv_def)
  have ids: "st_id ` set (g_streams g1) = st_id ` set (g_streams g)"
    using arg_cong [OF update_stream_ids [OF i(1), of "g_next_sequence g"], of set]
    by (simp add: planned(6))
  have streams: "st_last_sequence (g_streams g1 ! j) =
      last_on_stream (g_generation g) (st_id (g_streams g1 ! j)) (hs @ [plan])"
    if j: "j < length (g_streams g)" for j
  proof (cases "j = i")
    case True
    then show ?thesis
      using i planned by (simp add: last_on_stream_def)
  next
    case False
    have "st_id (g_streams g ! j) \<noteq> s"
      using inv i j False by (auto simp: graph_inv_def distinct_conv_nth)
    then show ?thesis
      using t j False planned by (simp add: tracks_def last_on_stream_def)
  qed
  have s: "s \<in> st_id ` set (g_streams g)"
    using i by auto
  have old: "plan_sequence p < g_next_sequence g1"
    if "p \<in> set hs" "plan_generation p = g_generation g" for p
    using t that order_less_trans [OF _ less(1)] by (auto simp: tracks_def planned(6))
  have "st_last_sequence x = last_on_stream (g_generation g1) (st_id x) (hs @ [plan])"
    if "x \<in> set (g_streams g1)" for x
    using that streams by (auto simp: in_set_conv_nth planned(6))
  then show ?thesis
    using t less s old ids by (simp add: tracks_def) (simp add: planned)
qed

lemma history_inv_extend:
  assumes "history_inv (l, hs)" "ledger_inv l'" "tracks (l_graph l') (hs @ [q])" "follows hs q"
  shows "history_inv (l', hs @ [q])"
  using assms by (auto simp: history_inv_def less_Suc_eq nth_append)

lemma history_inv_same:
  assumes "history_inv (l, hs)" "ledger_inv l'" "tracks (l_graph l') hs"
  shows "history_inv (l', hs)"
  using assms by (simp add: history_inv_def)

lemma history_submit:
  assumes inv: "history_inv (l, hs)"
  shows "history_inv (history_step (SubmitOperation g s kind vis ds) (l, hs))"
proof -
  have l: "ledger_inv l" and t: "tracks (l_graph l) hs"
    using inv by (simp_all add: history_inv_def)
  show ?thesis
    using l
  proof (cases rule: ledger_submit_cases [of l g s kind vis ds])
    case (refused status p)
    then show ?thesis
      using history_inv_same [OF inv ledger_submit_inv [OF l, of g s kind vis ds]] t
      by (simp add: history_step_def accepted_by_def)
  next
    case (accepted i plan g1)
    then show ?thesis
      using history_inv_extend [OF inv ledger_submit_inv [OF l, of g s kind vis ds], of plan]
        graph_submit_tracks [OF ledger_invD(1) [OF l] t accepted(7)]
        graph_submit_follows [OF ledger_invD(1) [OF l] t accepted(7)]
      by (simp add: history_step_def accepted_by_def)
  qed
qed

lemma history_reconfigure:
  assumes l: "ledger_inv l" and t: "tracks (l_graph l) hs"
  shows "tracks (l_graph (snd (ledger_reconfigure g l))) hs"
  using t tracks_new_generation [OF t, of g] ledger_invD(3) [OF l]
  by (auto simp: ledger_reconfigure_def case_prod_beta not_le)

lemma other_calls_graph:
  "l_graph (snd (ledger_create_stream s l)) = snd (graph_create_stream s (l_graph l))"
  "l_graph (snd (ledger_complete g completed l)) = l_graph l"
  "l_graph (snd (ledger_discard q l)) = l_graph l"
  by (simp_all add: ledger_create_stream_def ledger_complete_def ledger_discard_def case_prod_beta)

lemma history_step_inv:
  assumes "history_inv (l, hs)"
  shows "history_inv (history_step c (l, hs))"
proof (cases c)
  case (SubmitOperation g s kind vis ds)
  then show ?thesis
    using assms by (simp add: history_submit)
qed (use assms in \<open>simp_all add: history_inv_def history_step_def accepted_by_def
    ledger_create_stream_inv ledger_complete_inv ledger_discard_inv ledger_reconfigure_inv
    history_reconfigure other_calls_graph tracks_create_stream\<close>)

interpretation vk_history: invariant_component history_step history_inv
  by unfold_locales (metis history_step_inv prod.collapse)

lemma new_history_inv: "history_inv (new_ledger capacity generation, [])"
  by (simp add: history_inv_def tracks_def last_on_stream_def)
    (simp add: new_ledger_def new_graph_def)

text \<open>A ledger of capacity two and generation one after two copies on stream seven.\<close>

definition transfer_write :: visibility where
  "transfer_write = \<lparr>stage_mask = 1, access_mask = 2\<rparr>"

definition sample_calls :: "queue_call list" where
  "sample_calls = [CreateStream 7, SubmitOperation 1 7 1 transfer_write [],
    SubmitOperation 1 7 1 transfer_write []]"

definition sample_plan :: "u64 \<Rightarrow> dependency list \<Rightarrow> submission_plan" where
  "sample_plan n ds = \<lparr>plan_sequence = n, plan_generation = 1, plan_stream = 7, plan_kind = 1,
    plan_visibility = transfer_write, plan_dependencies = ds\<rparr>"

lemma sample_history: "history 2 1 sample_calls =
    [sample_plan 1 [], sample_plan 2 [\<lparr>dep_stream = 7, dep_value = 1\<rparr>]]"
  by code_simp

section \<open>What the ledger promises its clients\<close>

text \<open>C9. The operations of a stream are ordered. In any history of calls of the ledger (streams
  created, operations submitted, completed, discarded, generations changed), every accepted
  operation has a higher sequence number than all operations of its generation accepted before it;
  it waits only for operations with a lower sequence number, so that waiting never forms a cycle; and
  when its stream has an earlier operation in this generation, the last of them is among what it
  waits for, whether the client named it or not. It waits for no operation twice, and for at most
  eight.\<close>

theorem stream_operations_are_chained:
  assumes "history capacity generation calls = before @ q # later"
  shows "(\<forall>p \<in> set before. plan_generation p = plan_generation q \<longrightarrow>
      plan_sequence p < plan_sequence q) \<and>
    (\<forall>d \<in> set (plan_dependencies q). 0 < dep_value d \<and> dep_value d < plan_sequence q) \<and>
    (let earlier = on_stream (plan_generation q) (plan_stream q) before in earlier \<noteq> [] \<longrightarrow>
      \<lparr>dep_stream = plan_stream q, dep_value = plan_sequence (last earlier)\<rparr>
        \<in> set (plan_dependencies q)) \<and>
    distinct (plan_dependencies q) \<and> length (plan_dependencies q) \<le> 8"
proof -
  have inv: "history_inv (run_ops history_step calls (new_ledger capacity generation, []))"
    by (rule vk_history.run_inv [OF new_history_inv])
  have all: "\<forall>n < length (before @ q # later).
      follows (take n (before @ q # later)) ((before @ q # later) ! n)"
    using inv unfolding history_inv_def assms [unfolded history_def] by blast
  have "follows before q"
    using all [rule_format, of "length before"] by simp
  then show ?thesis
    by (simp add: follows_def Let_def kMaxDependencies_def)
qed

theorem stream_operations_are_chained_witness:
  "history 2 1 sample_calls = [sample_plan 1 []] @
      sample_plan 2 [\<lparr>dep_stream = 7, dep_value = 1\<rparr>] # [] \<and>
    distinct (plan_dependencies (sample_plan 2 [\<lparr>dep_stream = 7, dep_value = 1\<rparr>]))"
  using stream_operations_are_chained [of 2 1 sample_calls "[sample_plan 1 []]"
      "sample_plan 2 [\<lparr>dep_stream = 7, dep_value = 1\<rparr>]" "[]"]
  by (simp add: sample_history)

text \<open>C36. A refused submission has no effect that a client or the device can see: in every state the
  ledger can reach, when \<open>submit\<close> returns anything but success, the output is the empty submission,
  and the graph, the generation, the next completion value, the slots and both ends of the completion
  timeline are what they were. The resource acquired first is given back, and the failure after
  planning, which would leave a planned operation that is never submitted, does not happen.\<close>

theorem refused_submission_has_no_effect:
  assumes "ledger_submit g s kind vis ds (reachable_ledger capacity generation calls) =
      ((status, q), l)"
    and "status \<noteq> QueueSuccess"
  shows "q = empty_submission \<and>
    l_graph l = l_graph (reachable_ledger capacity generation calls) \<and>
    l_generation l = l_generation (reachable_ledger capacity generation calls) \<and>
    l_next_completion l = l_next_completion (reachable_ledger capacity generation calls) \<and>
    same_pool (l_resources (reachable_ledger capacity generation calls)) (l_resources l)"
  using reachable_ledger_inv [of calls capacity generation]
proof (cases rule: ledger_submit_cases [of _ g s kind vis ds])
  case (refused status' p)
  then show ?thesis
    using assms(1) by auto
next
  case (accepted i plan g1)
  then show ?thesis
    using assms by simp
qed

theorem refused_submission_has_no_effect_witness:
  "fst (fst (ledger_submit 1 9 1 transfer_write [] (reachable_ledger 3 1 sample_calls))) =
      QueueUnknownStream \<and>
    l_graph (snd (ledger_submit 1 9 1 transfer_write [] (reachable_ledger 3 1 sample_calls))) =
      l_graph (reachable_ledger 3 1 sample_calls)"
proof -
  obtain status q l where sub: "ledger_submit 1 9 1 transfer_write []
      (reachable_ledger 3 1 sample_calls) = ((status, q), l)"
    by (metis prod.collapse)
  have "fst (fst (ledger_submit 1 9 1 transfer_write [] (reachable_ledger 3 1 sample_calls))) =
      QueueUnknownStream"
    by code_simp
  then show ?thesis
    using refused_submission_has_no_effect [OF sub] by (simp add: sub)
qed

text \<open>C37. A busy ledger can always be drained and moved on: in every reachable state with work in
  flight, \<open>reconfigure\<close> to a later generation is refused as busy, completing the last completion
  value handed out succeeds and makes every slot available, and after it \<open>reconfigure\<close> succeeds and
  gives a ledger that is like a new one of the same capacity but for its resource numbers.\<close>

theorem drained_ledger_reconfigures:
  assumes "l = reachable_ledger capacity generation calls"
    and "pool_in_flight_count (l_resources l) \<noteq> 0" and "l_generation l < g"
    and "ledger_complete (l_generation l) (l_next_completion l - 1) l = (completed, drained)"
    and "ledger_reconfigure g drained = (status, fresh)"
  shows "fst (ledger_reconfigure g l) = QueueBusy \<and> completed = QueueSuccess \<and>
    pool_in_flight_count (l_resources drained) = 0 \<and> status = QueueSuccess \<and>
    l_graph fresh = new_graph g \<and> l_generation fresh = g \<and> l_next_completion fresh = 1 \<and>
    same_pool (new_pool (length (p_slots (l_resources l))) g) (l_resources fresh)"
proof -
  have inv: "ledger_inv l"
    unfolding assms(1) by (rule reachable_ledger_inv)
  note here = ledger_invD [OF inv]
  obtain s where s: "s \<in> set (p_slots (l_resources l))" "sl_state s \<noteq> SlotAvailable"
    using assms(2) by (auto simp: pool_in_flight_count_alt filter_empty_conv)
  have "slot_ok (l_resources l) s"
    using here(2) s(1) by (simp add: pool_inv_def)
  then have gen: "l_generation l \<noteq> 0"
    using s(2) here(4) by (auto simp: slot_ok_def split: slot_state.splits)
  have g: "g \<noteq> 0" "\<not> g \<le> l_generation l"
    using assms(3) by auto
  have last_value: "l_next_completion l - 1 = p_last_submission (l_resources l)"
    by (simp add: here(6))
  have le: "\<not> p_last_submission (l_resources l) < p_last_completed (l_resources l)"
    using here(2) by (simp add: pool_inv_def not_less)
  have d: "completed = QueueSuccess" "drained = l\<lparr>l_resources := (l_resources l)\<lparr>
      p_last_completed := p_last_submission (l_resources l),
      p_slots := replicate (length (p_slots (l_resources l))) empty_slot\<rparr>\<rparr>"
    using assms(4) gen le in_flight_last_submission [OF here(2) assms(2)]
    by (simp_all add: last_value ledger_complete_def pool_recycle_def here(4)
        recycle_all_slots [OF here(2)])
  have idle: "pool_in_flight_count (l_resources drained) = 0"
    by (simp add: d pool_in_flight_count_alt)
  show ?thesis
    using g assms(2,5) idle
    by (auto simp: ledger_reconfigure_def pool_reconfigure_def d here same_pool_def new_pool_def
        map_replicate_const)
qed

theorem drained_ledger_reconfigures_witness:
  "pool_in_flight_count (l_resources (reachable_ledger 2 1 sample_calls)) = 2 \<and>
    fst (ledger_reconfigure 2 (snd (ledger_complete (l_generation (reachable_ledger 2 1 sample_calls))
      (l_next_completion (reachable_ledger 2 1 sample_calls) - 1)
      (reachable_ledger 2 1 sample_calls)))) = QueueSuccess"
proof -
  have here: "pool_in_flight_count (l_resources (reachable_ledger 2 1 sample_calls)) = 2"
    "l_generation (reachable_ledger 2 1 sample_calls) < 2"
    by code_simp+
  have "pool_in_flight_count (l_resources (reachable_ledger 2 1 sample_calls)) \<noteq> 0"
    unfolding here(1) by simp
  from drained_ledger_reconfigures [OF refl this here(2) prod.collapse [symmetric]
      prod.collapse [symmetric]] here(1)
  show ?thesis
    by simp
qed

end
