(* ===== verification/VulkanMemory.thy ===== *)
theory VulkanMemory
  imports Prelude
begin

unbundle bit_operations_syntax

text \<open>
  The staging memory of the Vulkan backend (\<open>plugins/backend/vulkan/runtime/.../vulkan_memory.hpp\<close>
  and \<open>memory.cpp\<close>): the ledger that hands out aligned ranges of one heap by first fit, and the gate
  that orders submissions on a timeline. A null output pointer is not modelled. Of the capability
  profile only the fields these functions read are kept.
\<close>

section \<open>The staging ledger\<close>

datatype memory_status =
    MemSuccess | MemInvalidArgument | MemUnsupported | MemOutOfMemory | MemStaleGeneration
  | MemNotFound | MemBusy

record staging_allocation =
  sa_id :: u64
  sa_generation :: u64
  sa_offset :: u64
  sa_size :: u64
  sa_alignment :: u64

record capability_profile =
  cap_status :: u32
  cap_memory_tier_flags :: u32
  cap_device_local_heap_bytes :: u64
  cap_host_visible_heap_bytes :: u64

definition MF_VULKAN_PROBE_SUCCESS :: u32 where "MF_VULKAN_PROBE_SUCCESS = 0"
definition MF_VULKAN_MEMORY_TIER_STAGING :: u32 where "MF_VULKAN_MEMORY_TIER_STAGING = push_bit 0 1"

record staging_ledger =
  sg_capacity :: u64
  sg_generation :: u64
  sg_next_id :: u64
  sg_active_bytes :: u64
  sg_allocations :: "staging_allocation list"

definition empty_staging :: staging_ledger where
  "empty_staging = \<lparr>sg_capacity = 0, sg_generation = 0, sg_next_id = 1, sg_active_bytes = 0,
    sg_allocations = []\<rparr>"

definition staging_configure ::
  "capability_profile \<Rightarrow> u64 \<Rightarrow> staging_ledger \<Rightarrow> memory_status \<times> staging_ledger" where
  "staging_configure profile generation l =
    (if cap_status profile \<noteq> MF_VULKAN_PROBE_SUCCESS \<or> generation = 0 \<or>
        cap_memory_tier_flags profile AND MF_VULKAN_MEMORY_TIER_STAGING = 0 \<or>
        cap_device_local_heap_bytes profile = 0 \<or> cap_host_visible_heap_bytes profile = 0
     then (MemUnsupported, l)
     else let capacity = min (cap_device_local_heap_bytes profile) (cap_host_visible_heap_bytes profile) in
       if capacity = 0 then (MemUnsupported, l)
       else if sg_allocations l \<noteq> [] then (MemBusy, l)
       else (MemSuccess, l\<lparr>sg_capacity := capacity, sg_generation := generation, sg_next_id := 1,
         sg_active_bytes := 0\<rparr>))"

definition is_power_of_two :: "u64 \<Rightarrow> bool" where
  "is_power_of_two v \<longleftrightarrow> v \<noteq> 0 \<and> v AND (v - 1) = 0"

definition round_up :: "u64 \<Rightarrow> u64 \<Rightarrow> u64 option" where
  "round_up v alignment =
    (if \<not> is_power_of_two alignment then None
     else let remainder = v AND (alignment - 1);
         increment = (if remainder = 0 then 0 else alignment - remainder) in
       if -1 - increment < v then None else Some (v + increment))"

text \<open>The candidate rounded up, if the size fits between it and the capacity.\<close>

definition staging_place :: "u64 \<Rightarrow> u64 \<Rightarrow> u64 \<Rightarrow> u64 \<Rightarrow> u64 option" where
  "staging_place capacity bytes alignment candidate =
    (case round_up candidate alignment of None \<Rightarrow> None
     | Some c \<Rightarrow> if capacity < c \<or> capacity - c < bytes then None else Some c)"

text \<open>The loop over the allocations, and the placement after it.\<close>

fun staging_scan :: "u64 \<Rightarrow> u64 \<Rightarrow> u64 \<Rightarrow> staging_allocation list \<Rightarrow> u64 \<Rightarrow> u64 option" where
  "staging_scan capacity bytes alignment [] candidate = staging_place capacity bytes alignment candidate"
| "staging_scan capacity bytes alignment (a # as) candidate =
    (case staging_place capacity bytes alignment candidate of None \<Rightarrow> None
     | Some c \<Rightarrow>
       if c + bytes \<le> sa_offset a then staging_place capacity bytes alignment c
       else if -1 - sa_size a < sa_offset a then None
       else staging_scan capacity bytes alignment as (sa_offset a + sa_size a))"

text \<open>Insertion at the lower bound of the offset in the sorted vector.\<close>

definition insert_allocation ::
  "staging_allocation \<Rightarrow> staging_allocation list \<Rightarrow> staging_allocation list" where
  "insert_allocation a as = takeWhile (\<lambda>x. sa_offset x < sa_offset a) as @ [a] @
    dropWhile (\<lambda>x. sa_offset x < sa_offset a) as"

definition staging_allocate :: "u64 \<Rightarrow> u64 \<Rightarrow> u64 \<Rightarrow> staging_ledger \<Rightarrow>
    (memory_status \<times> staging_allocation option) \<times> staging_ledger" where
  "staging_allocate bytes alignment generation l =
    (if bytes = 0 \<or> generation = 0 \<or> generation \<noteq> sg_generation l \<or> sg_capacity l = 0 \<or>
        \<not> is_power_of_two alignment
     then ((if generation \<noteq> sg_generation l \<and> generation \<noteq> 0 then MemStaleGeneration
       else MemInvalidArgument, None), l)
     else (case staging_scan (sg_capacity l) bytes alignment (sg_allocations l) 0 of
       None \<Rightarrow> ((MemOutOfMemory, None), l)
     | Some candidate \<Rightarrow>
       if sg_next_id l = 0 \<or> sg_next_id l = -1 then ((MemOutOfMemory, None), l)
       else let a = \<lparr>sa_id = sg_next_id l, sa_generation = sg_generation l, sa_offset = candidate,
           sa_size = bytes, sa_alignment = alignment\<rparr> in
         ((MemSuccess, Some a), l\<lparr>sg_next_id := sg_next_id l + 1,
           sg_allocations := insert_allocation a (sg_allocations l),
           sg_active_bytes := sg_active_bytes l + bytes\<rparr>)))"

definition same_allocation :: "staging_allocation \<Rightarrow> staging_allocation \<Rightarrow> bool" where
  "same_allocation a current \<longleftrightarrow> sa_id current = sa_id a \<and>
    sa_generation current = sa_generation a \<and> sa_offset current = sa_offset a \<and>
    sa_size current = sa_size a \<and> sa_alignment current = sa_alignment a"

definition erase_at :: "nat \<Rightarrow> 'a list \<Rightarrow> 'a list" where
  "erase_at i xs = take i xs @ drop (Suc i) xs"

definition staging_release :: "staging_allocation \<Rightarrow> staging_ledger \<Rightarrow> memory_status \<times> staging_ledger"
where
  "staging_release a l =
    (if sa_generation a = 0 \<or> sa_generation a \<noteq> sg_generation l then (MemStaleGeneration, l)
     else (case find_index (same_allocation a) (sg_allocations l) of None \<Rightarrow> (MemNotFound, l)
     | Some i \<Rightarrow> (MemSuccess, l\<lparr>
         sg_active_bytes := sg_active_bytes l - sa_size (sg_allocations l ! i),
         sg_allocations := erase_at i (sg_allocations l)\<rparr>)))"

definition staging_validate :: "staging_allocation \<Rightarrow> staging_ledger \<Rightarrow> memory_status" where
  "staging_validate a l =
    (if sa_generation a = 0 \<or> sa_generation a \<noteq> sg_generation l then MemStaleGeneration
     else (case find_index (same_allocation a) (sg_allocations l) of None \<Rightarrow> MemNotFound
     | Some i \<Rightarrow> MemSuccess))"

datatype staging_call =
    ConfigureStaging capability_profile u64
  | Allocate u64 u64 u64
  | Release staging_allocation

primrec staging_step :: "staging_call \<Rightarrow> staging_ledger \<Rightarrow> staging_ledger" where
  "staging_step (ConfigureStaging profile generation) l = snd (staging_configure profile generation l)"
| "staging_step (Allocate bytes alignment generation) l = snd (staging_allocate bytes alignment generation l)"
| "staging_step (Release a) l = snd (staging_release a l)"

section \<open>The timeline gate\<close>

record timeline_submission =
  ts_value :: u64
  ts_generation :: u64

record timeline_gate =
  tg_generation :: u64
  tg_next_value :: u64
  tg_completed_value :: u64

definition new_gate :: "u64 \<Rightarrow> timeline_gate" where
  "new_gate generation = \<lparr>tg_generation = generation, tg_next_value = 1, tg_completed_value = 0\<rparr>"

definition gate_submit :: "u64 \<Rightarrow> timeline_gate \<Rightarrow>
    (memory_status \<times> timeline_submission option) \<times> timeline_gate" where
  "gate_submit generation t =
    (if generation = 0 \<or> generation \<noteq> tg_generation t then
      ((if generation \<noteq> tg_generation t \<and> generation \<noteq> 0 then MemStaleGeneration
        else MemInvalidArgument, None), t)
     else if tg_next_value t = -1 then ((MemBusy, None), t)
     else ((MemSuccess, Some \<lparr>ts_value = tg_next_value t, ts_generation = tg_generation t\<rparr>),
       t\<lparr>tg_next_value := tg_next_value t + 1\<rparr>))"

definition gate_complete :: "u64 \<Rightarrow> u64 \<Rightarrow> timeline_gate \<Rightarrow> memory_status \<times> timeline_gate" where
  "gate_complete generation v t =
    (if generation = 0 then (MemInvalidArgument, t)
     else if generation \<noteq> tg_generation t then (MemStaleGeneration, t)
     else if v = 0 \<or> tg_next_value t \<le> v then (MemInvalidArgument, t)
     else if v < tg_completed_value t then (MemInvalidArgument, t)
     else (MemSuccess, t\<lparr>tg_completed_value := v\<rparr>))"

definition gate_wait :: "u64 \<Rightarrow> u64 \<Rightarrow> timeline_gate \<Rightarrow> memory_status" where
  "gate_wait generation v t =
    (if generation = 0 then MemInvalidArgument
     else if generation \<noteq> tg_generation t then MemStaleGeneration
     else if v = 0 \<or> tg_next_value t \<le> v then MemInvalidArgument
     else if v \<le> tg_completed_value t then MemSuccess else MemBusy)"

datatype gate_call = GateSubmit u64 | GateComplete u64 u64

primrec gate_step :: "gate_call \<Rightarrow> timeline_gate \<Rightarrow> timeline_gate" where
  "gate_step (GateSubmit g) t = snd (gate_submit g t)"
| "gate_step (GateComplete g v) t = snd (gate_complete g v t)"

text \<open>Every status has a name of its own; the default name is for values outside the enumeration.\<close>

primrec memory_status_string :: "memory_status \<Rightarrow> string" where
  "memory_status_string MemSuccess = ''success''"
| "memory_status_string MemInvalidArgument = ''invalid-argument''"
| "memory_status_string MemUnsupported = ''unsupported''"
| "memory_status_string MemOutOfMemory = ''out-of-memory''"
| "memory_status_string MemStaleGeneration = ''stale-generation''"
| "memory_status_string MemNotFound = ''not-found''"
| "memory_status_string MemBusy = ''busy''"

lemma memory_status_string_inject:
  "memory_status_string x = memory_status_string y \<longleftrightarrow> x = y"
  by (cases x; cases y; simp)

section \<open>Rounding\<close>

lemma nat_power_of_two:
  "0 < k \<Longrightarrow> k AND (k - 1) = 0 \<Longrightarrow> \<exists>n. k = 2 ^ n" for k :: nat
proof (induction k rule: less_induct)
  case (less k)
  show ?case
  proof (cases "even k")
    case True
    then obtain m where m: "k = 2 * m" "0 < m"
      using less.prems(1) by (auto elim!: evenE)
    have "k - 1 = 1 + 2 * (m - 1)"
      using m by simp
    then have "(2 * m) AND (1 + 2 * (m - 1)) = 0"
      using less.prems(2) m(1) by simp
    then have "m AND (m - 1) = 0"
      by (subst (asm) and_nat_rec) simp
    then obtain n where "m = 2 ^ n"
      using less.IH [of m] m by auto
    then show ?thesis
      using m(1) by (intro exI [of _ "Suc n"]) simp
  next
    case False
    then obtain m where m: "k = 2 * m + 1"
      by (auto elim!: oddE)
    have "(1 + 2 * m) AND (2 * m) = 0"
      using less.prems(2) m by simp
    then have "m = 0"
      by (subst (asm) and_nat_rec) simp
    then show ?thesis
      using m by (intro exI [of _ 0]) simp
  qed
qed

lemma power_of_two_exp:
  assumes "is_power_of_two a"
  obtains n where "n < 64" "a = 2 ^ n" "unat a = 2 ^ n"
proof -
  have pos: "0 < unat a" "unat (a - 1) = unat a - 1"
    using assms by (simp_all add: is_power_of_two_def unat_gt_0 unat_minus_one)
  have "unat (a AND (a - 1)) = 0"
    using assms by (simp add: is_power_of_two_def)
  then have "unat a AND (unat a - 1) = 0"
    by (simp add: unsigned_and_eq pos(2))
  then obtain n where n: "unat a = 2 ^ n"
    using nat_power_of_two pos(1) by blast
  have "(2::nat) ^ n < 2 ^ 64"
    using unsigned_less [of a, where ?'a = nat] by (simp add: n)
  then have less: "n < 64"
    by (simp only: power_strict_increasing_iff)
  have "a = word_of_nat (unat a)"
    by simp
  then have "a = 2 ^ n"
    by (simp add: n)
  then show thesis
    using less n that by blast
qed

definition ceil_to :: "nat \<Rightarrow> nat \<Rightarrow> nat" where
  "ceil_to a v = v + (if v mod a = 0 then 0 else a - v mod a)"

lemma ceil_to_dvd: "0 < a \<Longrightarrow> a dvd ceil_to a v"
proof -
  assume "0 < a"
  then have "v mod a < a"
    by simp
  have "v mod a \<noteq> 0 \<Longrightarrow> v + (a - v mod a) = v div a * a + a"
    using \<open>v mod a < a\<close> div_mult_mod_eq [of v a] by linarith
  then show ?thesis
    by (auto simp: ceil_to_def)
qed

lemma ceil_to_ge: "v \<le> ceil_to a v"
  by (simp add: ceil_to_def)

lemma ceil_to_least:
  assumes "0 < a" "a dvd m" "v \<le> m"
  shows "ceil_to a v \<le> m"
proof (cases "v mod a = 0")
  case True
  then show ?thesis
    using assms by (simp add: ceil_to_def)
next
  case False
  obtain k where k: "m = a * k"
    using assms(2) by (auto elim: dvdE)
  have v: "v = a * (v div a) + v mod a"
    by simp
  have "\<not> k \<le> v div a"
  proof
    assume "k \<le> v div a"
    then have "a * k \<le> a * (v div a)"
      by simp
    then show False
      using v k assms(3) False by linarith
  qed
  then have "a * (v div a + 1) \<le> m"
    unfolding k by (intro mult_le_mono) simp_all
  then have "a * (v div a) + a \<le> m"
    by simp
  then have "v + a \<le> m + v mod a"
    using v by linarith
  moreover have "v mod a < a"
    using assms(1) by simp
  ultimately have "v + (a - v mod a) \<le> m"
    by linarith
  then show ?thesis
    using False by (simp add: ceil_to_def)
qed

lemma unat_max_minus: "unat (-1 - x) = 2 ^ 64 - 1 - unat x" for x :: u64
proof -
  have "x \<le> -1"
    by simp
  then show ?thesis
    by (simp add: unat_sub unsigned_minus_1_eq_mask mask_eq_exp_minus_1)
qed

lemma round_up_eq:
  assumes a: "is_power_of_two a"
  shows "round_up v a = (if ceil_to (unat a) (unat v) < 2 ^ 64
    then Some (word_of_nat (ceil_to (unat a) (unat v))) else None)"
proof -
  obtain n where n: "n < 64" "a = 2 ^ n" and A: "unat a = 2 ^ n"
    using a by (rule power_of_two_exp)
  have "v AND (a - 1) = v mod a"
    by (simp add: n(2) mask_eq_exp_minus_1 [symmetric] take_bit_eq_mask [symmetric] take_bit_eq_mod)
  then have R: "unat (v AND (a - 1)) = unat v mod unat a"
    by (simp add: unat_mod)
  define r where "r = v AND (a - 1)"
  have r: "unat r = unat v mod unat a" "unat r < unat a"
    using R A by (simp_all add: r_def)
  define i where "i = (if r = 0 then 0 else a - r)"
  have "r \<le> a"
    using r(2) by (simp add: word_le_nat_alt)
  then have i: "unat i = (if unat v mod unat a = 0 then 0 else unat a - unat v mod unat a)"
    using r(1) by (auto simp: i_def unat_sub unat_eq_0)
  then have sum_eq: "unat v + unat i = ceil_to (unat a) (unat v)"
    by (simp add: ceil_to_def)
  have cond: "-1 - i < v \<longleftrightarrow> \<not> unat v + unat i < 2 ^ 64"
    using unsigned_less [of i, where ?'a = nat] by (auto simp: word_less_nat_alt unat_max_minus)
  have "v + i = word_of_nat (unat v + unat i)"
    by simp
  then have res: "v + i = word_of_nat (ceil_to (unat a) (unat v))"
    by (simp only: sum_eq)
  show ?thesis
    unfolding round_up_def Let_def r_def [symmetric] i_def [symmetric] cond sum_eq res
    using a by simp
qed

section \<open>First fit\<close>

abbreviation sa_first :: "staging_allocation \<Rightarrow> nat" where
  "sa_first a \<equiv> unat (sa_offset a)"

abbreviation sa_end :: "staging_allocation \<Rightarrow> nat" where
  "sa_end a \<equiv> unat (sa_offset a) + unat (sa_size a)"

text \<open>A range that lies below the capacity and meets no allocation.\<close>

definition free_range :: "u64 \<Rightarrow> staging_allocation list \<Rightarrow> nat \<Rightarrow> nat \<Rightarrow> bool" where
  "free_range capacity as first len \<longleftrightarrow> first + len \<le> unat capacity \<and>
    (\<forall>a \<in> set as. first + len \<le> sa_first a \<or> sa_end a \<le> first)"

lemma staging_place_eq:
  assumes "is_power_of_two alignment"
  shows "staging_place capacity bytes alignment candidate =
    (let c = ceil_to (unat alignment) (unat candidate) in
     if c + unat bytes \<le> unat capacity then Some (word_of_nat c) else None)"
proof (cases "ceil_to (unat alignment) (unat candidate) < 2 ^ 64")
  case True
  then have c: "unat (word_of_nat (ceil_to (unat alignment) (unat candidate)) :: u64) =
      ceil_to (unat alignment) (unat candidate)"
    by (simp add: unsigned_of_nat take_bit_nat_eq_self)
  show ?thesis
    using True unat_sub [of "word_of_nat (ceil_to (unat alignment) (unat candidate))" capacity]
    by (auto simp: staging_place_def round_up_eq [OF assms] Let_def word_less_nat_alt c
        word_le_nat_alt not_less)
next
  case False
  then show ?thesis
    using unsigned_less [of capacity, where ?'a = nat]
    by (simp add: staging_place_def round_up_eq [OF assms])
qed

lemma staging_place_Some:
  assumes "is_power_of_two alignment" "staging_place capacity bytes alignment candidate = Some c"
  shows "unat c = ceil_to (unat alignment) (unat candidate)" "unat c + unat bytes \<le> unat capacity"
    "unat (c + bytes) = unat c + unat bytes"
proof -
  have e: "c = word_of_nat (ceil_to (unat alignment) (unat candidate))"
      "ceil_to (unat alignment) (unat candidate) + unat bytes \<le> unat capacity"
    using assms(2) by (auto simp: staging_place_eq [OF assms(1)] Let_def split: if_splits)
  then show u: "unat c = ceil_to (unat alignment) (unat candidate)"
    using unsigned_less [of capacity, where ?'a = nat]
    by (simp add: unsigned_of_nat take_bit_nat_eq_self)
  show le: "unat c + unat bytes \<le> unat capacity"
    using e(2) u by simp
  show "unat (c + bytes) = unat c + unat bytes"
    using le unsigned_less [of capacity, where ?'a = nat] by (simp add: unat_word_ariths)
qed

lemma power_of_two_pos: "is_power_of_two a \<Longrightarrow> 0 < unat a"
  by (simp add: is_power_of_two_def unat_gt_0)

lemma staging_place_again:
  assumes "is_power_of_two alignment" "staging_place capacity bytes alignment candidate = Some c"
  shows "staging_place capacity bytes alignment c = Some c"
proof -
  note c = staging_place_Some [OF assms]
  have "ceil_to (unat alignment) (unat c) = unat c"
    using ceil_to_dvd [OF power_of_two_pos [OF assms(1)], of "unat candidate"]
    by (simp add: c(1) ceil_to_def [of _ "ceil_to _ _"])
  then show ?thesis
    using c(2) by (simp add: staging_place_eq [OF assms(1)])
qed

text \<open>The least aligned free place from \<open>start\<close> on, or none when there is none.\<close>

definition first_fit :: "u64 \<Rightarrow> staging_allocation list \<Rightarrow> nat \<Rightarrow> nat \<Rightarrow> nat \<Rightarrow> nat option \<Rightarrow> bool" where
  "first_fit capacity as alignment len start r \<longleftrightarrow> (case r of
      None \<Rightarrow> \<forall>m. alignment dvd m \<longrightarrow> start \<le> m \<longrightarrow> \<not> free_range capacity as m len
    | Some c \<Rightarrow> alignment dvd c \<and> start \<le> c \<and> free_range capacity as c len \<and>
        (\<forall>m. alignment dvd m \<longrightarrow> start \<le> m \<longrightarrow> free_range capacity as m len \<longrightarrow> c \<le> m))"

lemma first_fit_none:
  assumes al: "is_power_of_two alignment"
    and "staging_place capacity bytes alignment candidate = None"
  shows "first_fit capacity as (unat alignment) (unat bytes) (unat candidate) None"
proof -
  have over: "unat capacity < ceil_to (unat alignment) (unat candidate) + unat bytes"
    using assms(2) by (simp add: staging_place_eq [OF al] Let_def split: if_splits)
  have "\<not> free_range capacity as m (unat bytes)" if "unat alignment dvd m" "unat candidate \<le> m" for m
    using ceil_to_least [OF power_of_two_pos [OF al] that] over by (simp add: free_range_def)
  then show ?thesis
    by (simp add: first_fit_def)
qed

lemma first_fit_place:
  assumes al: "is_power_of_two alignment"
    and some: "staging_place capacity bytes alignment candidate = Some c"
    and before: "\<forall>a \<in> set as. unat c + unat bytes \<le> sa_first a"
  shows "first_fit capacity as (unat alignment) (unat bytes) (unat candidate) (Some (unat c))"
proof -
  note c = staging_place_Some [OF al some]
  have "unat alignment dvd unat c" "unat candidate \<le> unat c"
    unfolding c(1) by (rule ceil_to_dvd [OF power_of_two_pos [OF al]], rule ceil_to_ge)
  moreover have "unat c \<le> m" if "unat alignment dvd m" "unat candidate \<le> m" for m
    unfolding c(1) by (rule ceil_to_least [OF power_of_two_pos [OF al] that])
  moreover have "free_range capacity as (unat c) (unat bytes)"
    using c(2) before by (simp add: free_range_def)
  ultimately show ?thesis
    by (simp add: first_fit_def)
qed

lemma first_fit_skip:
  assumes al: "is_power_of_two alignment"
    and some: "staging_place capacity bytes alignment candidate = Some c"
    and later: "sa_first a < unat c + unat bytes" and start: "unat candidate \<le> sa_first a"
    and fit: "first_fit capacity as (unat alignment) (unat bytes) (sa_end a) r"
  shows "first_fit capacity (a # as) (unat alignment) (unat bytes) (unat candidate) r"
proof -
  have skip: "sa_end a \<le> m \<and> free_range capacity as m (unat bytes)"
    if "unat alignment dvd m" "unat candidate \<le> m" "free_range capacity (a # as) m (unat bytes)" for m
    using ceil_to_least [OF power_of_two_pos [OF al] that(1,2)] that(3) later
      staging_place_Some(1) [OF al some] by (auto simp: free_range_def)
  have rest: "free_range capacity (a # as) m (unat bytes)"
    if "sa_end a \<le> m" "free_range capacity as m (unat bytes)" for m
    using that by (simp add: free_range_def)
  show ?thesis
  proof (cases r)
    case None
    then show ?thesis
      using fit skip by (auto simp: first_fit_def)
  next
    case (Some d)
    then have d: "unat alignment dvd d" "sa_end a \<le> d" "free_range capacity as d (unat bytes)"
        "\<And>m. unat alignment dvd m \<Longrightarrow> sa_end a \<le> m \<Longrightarrow> free_range capacity as m (unat bytes) \<Longrightarrow> d \<le> m"
      using fit by (simp_all add: first_fit_def)
    then show ?thesis
      using Some start skip rest [OF d(2,3)] by (simp add: first_fit_def)
  qed
qed

lemma staging_scan_first_fit:
  assumes al: "is_power_of_two alignment"
    and "sorted_wrt (\<lambda>a b. sa_end a \<le> sa_first b) as"
    and "\<forall>a \<in> set as. sa_end a \<le> unat capacity \<and> unat candidate \<le> sa_first a"
  shows "first_fit capacity as (unat alignment) (unat bytes) (unat candidate)
    (map_option unat (staging_scan capacity bytes alignment as candidate))"
  using assms(2,3)
proof (induction as arbitrary: candidate)
  case Nil
  then show ?case
    using first_fit_none [OF al] first_fit_place [OF al]
    by (cases "staging_place capacity bytes alignment candidate") simp_all
next
  case (Cons a as)
  have a: "sa_end a \<le> unat capacity" "unat candidate \<le> sa_first a"
    using Cons.prems(2) by simp_all
  have sum_end: "unat (sa_offset a + sa_size a) = sa_end a"
    using a(1) unsigned_less [of capacity, where ?'a = nat] by (simp add: unat_word_ariths)
  have ok: "\<not> -1 - sa_size a < sa_offset a"
    using a(1) unsigned_less [of capacity, where ?'a = nat]
    by (simp add: word_less_nat_alt unat_max_minus)
  have IH: "first_fit capacity as (unat alignment) (unat bytes) (sa_end a)
      (map_option unat (staging_scan capacity bytes alignment as (sa_offset a + sa_size a)))"
    using Cons.IH [of "sa_offset a + sa_size a"] Cons.prems by (simp add: sum_end)
  show ?case
  proof (cases "staging_place capacity bytes alignment candidate")
    case None
    then show ?thesis
      using first_fit_none [OF al None] by simp
  next
    case (Some c)
    have le: "c + bytes \<le> sa_offset a \<longleftrightarrow> unat c + unat bytes \<le> sa_first a"
      using staging_place_Some(3) [OF al Some] by (simp add: word_le_nat_alt)
    show ?thesis
    proof (cases "c + bytes \<le> sa_offset a")
      case True
      then have "\<forall>b \<in> set (a # as). unat c + unat bytes \<le> sa_first b"
        using Cons.prems(1) le by (auto intro: order_trans)
      then show ?thesis
        using True Some staging_place_again [OF al Some] first_fit_place [OF al Some] by simp
    next
      case False
      then show ?thesis
        using Some ok le first_fit_skip [OF al Some _ a(2) IH] by simp
    qed
  qed
qed

section \<open>The invariant\<close>

definition allocation_ok :: "staging_ledger \<Rightarrow> staging_allocation \<Rightarrow> bool" where
  "allocation_ok l a \<longleftrightarrow> 0 < unat (sa_size a) \<and> sa_end a \<le> unat (sg_capacity l) \<and>
    is_power_of_two (sa_alignment a) \<and> unat (sa_alignment a) dvd sa_first a \<and>
    sa_generation a = sg_generation l \<and> sg_generation l \<noteq> 0 \<and> sa_id a < sg_next_id l"

definition staging_inv :: "staging_ledger \<Rightarrow> bool" where
  "staging_inv l \<longleftrightarrow> 0 < sg_next_id l \<and> (sg_generation l \<noteq> 0 \<longrightarrow> sg_capacity l \<noteq> 0) \<and>
    sorted_wrt (\<lambda>a b. sa_end a \<le> sa_first b) (sg_allocations l) \<and>
    (\<forall>a \<in> set (sg_allocations l). allocation_ok l a) \<and> distinct (map sa_id (sg_allocations l)) \<and>
    unat (sg_active_bytes l) = (\<Sum>a\<leftarrow>sg_allocations l. unat (sa_size a))"

lemma insert_allocation_split:
  obtains before later where "as = before @ later" "insert_allocation a as = before @ a # later"
    "\<forall>x \<in> set before. sa_offset x < sa_offset a"
    "later = dropWhile (\<lambda>x. sa_offset x < sa_offset a) as"
proof
  show "as = takeWhile (\<lambda>x. sa_offset x < sa_offset a) as @
      dropWhile (\<lambda>x. sa_offset x < sa_offset a) as"
    by simp
qed (auto simp: insert_allocation_def dest: set_takeWhileD)

lemma dropWhile_later:
  assumes "sorted_wrt (\<lambda>a b. sa_end a \<le> sa_first b) as"
    and "y \<in> set (dropWhile (\<lambda>x. sa_offset x < first) as)"
  shows "first \<le> sa_offset y"
  using assms
proof (induction as)
  case (Cons x as)
  show ?case
  proof (cases "sa_offset x < first")
    case True
    then show ?thesis
      using Cons by simp
  next
    case False
    then have "y = x \<or> y \<in> set as"
      using Cons.prems(2) by simp
    then show ?thesis
      using Cons.prems(1) False by (auto simp: word_le_nat_alt word_less_nat_alt)
  qed
qed simp

lemma insert_allocation_sorted:
  assumes sorted: "sorted_wrt (\<lambda>a b. sa_end a \<le> sa_first b) as"
    and free: "free_range capacity as (sa_first a) (unat (sa_size a))"
    and pos: "\<forall>x \<in> set as. 0 < unat (sa_size x)" "0 < unat (sa_size a)"
  shows "sorted_wrt (\<lambda>a b. sa_end a \<le> sa_first b) (insert_allocation a as)"
proof -
  obtain before later where s: "as = before @ later" "insert_allocation a as = before @ a # later"
    "\<forall>x \<in> set before. sa_offset x < sa_offset a"
    "later = dropWhile (\<lambda>x. sa_offset x < sa_offset a) as"
    by (rule insert_allocation_split [of as a])
  have "sa_end x \<le> sa_first a" if x: "x \<in> set before" for x
  proof -
    have "sa_first x < sa_first a" "sa_end a \<le> sa_first x \<or> sa_end x \<le> sa_first a"
      using x free s(1,3) by (auto simp: free_range_def word_less_nat_alt)
    then show ?thesis
      by linarith
  qed
  moreover have "sa_end a \<le> sa_first x" if x: "x \<in> set later" for x
  proof -
    have "sa_first a \<le> sa_first x"
      using dropWhile_later [OF sorted] x s(4) by (simp add: word_le_nat_alt)
    moreover have "0 < unat (sa_size x)" "sa_end a \<le> sa_first x \<or> sa_end x \<le> sa_first a"
      using x free pos(1) s(1) by (auto simp: free_range_def)
    ultimately show ?thesis
      by linarith
  qed
  ultimately show ?thesis
    using sorted s(1,2) by (simp add: sorted_wrt_append)
qed

lemma insert_allocation_content:
  "set (insert_allocation a as) = insert a (set as)"
  "distinct (map sa_id (insert_allocation a as)) \<longleftrightarrow>
    sa_id a \<notin> sa_id ` set as \<and> distinct (map sa_id as)"
  "(\<Sum>x\<leftarrow>insert_allocation a as. f x) = f a + (\<Sum>x\<leftarrow>as. f x)" for f :: "staging_allocation \<Rightarrow> nat"
proof -
  obtain before later where "as = before @ later" "insert_allocation a as = before @ a # later"
    by (rule insert_allocation_split [of as a])
  then show "set (insert_allocation a as) = insert a (set as)"
    "distinct (map sa_id (insert_allocation a as)) \<longleftrightarrow>
      sa_id a \<notin> sa_id ` set as \<and> distinct (map sa_id as)"
    "(\<Sum>x\<leftarrow>insert_allocation a as. f x) = f a + (\<Sum>x\<leftarrow>as. f x)"
    by auto
qed

lemma sorted_allocations_fit:
  assumes "sorted_wrt (\<lambda>a b. sa_end a \<le> sa_first b) as" "start \<le> capacity"
    and "\<forall>a \<in> set as. start \<le> sa_first a \<and> sa_end a \<le> capacity"
  shows "start + (\<Sum>a\<leftarrow>as. unat (sa_size a)) \<le> capacity"
  using assms
proof (induction as arbitrary: start)
  case (Cons a as)
  have "sa_end a + (\<Sum>a\<leftarrow>as. unat (sa_size a)) \<le> capacity"
    using Cons.prems by (intro Cons.IH) auto
  then show ?case
    using Cons.prems(3) by auto
qed simp

lemma staging_inv_active:
  assumes "staging_inv l"
  shows "unat (sg_active_bytes l) \<le> unat (sg_capacity l)"
  using assms sorted_allocations_fit [of "sg_allocations l" 0 "unat (sg_capacity l)"]
  by (auto simp: staging_inv_def allocation_ok_def)

lemma staging_allocate_cases:
  obtains (refused) status where "staging_allocate bytes alignment generation l = ((status, None), l)"
    "status \<noteq> MemSuccess"
  | (allocated) c a where "bytes \<noteq> 0" "generation \<noteq> 0" "generation = sg_generation l"
    "is_power_of_two alignment"
    "staging_scan (sg_capacity l) bytes alignment (sg_allocations l) 0 = Some c"
    "sg_next_id l \<noteq> -1"
    "a = \<lparr>sa_id = sg_next_id l, sa_generation = sg_generation l, sa_offset = c, sa_size = bytes,
       sa_alignment = alignment\<rparr>"
    "staging_allocate bytes alignment generation l = ((MemSuccess, Some a),
      l\<lparr>sg_next_id := sg_next_id l + 1, sg_allocations := insert_allocation a (sg_allocations l),
        sg_active_bytes := sg_active_bytes l + bytes\<rparr>)"
proof (cases "fst (fst (staging_allocate bytes alignment generation l)) = MemSuccess")
  case False
  then have "\<exists>status. staging_allocate bytes alignment generation l = ((status, None), l) \<and>
      status \<noteq> MemSuccess"
    by (auto simp: staging_allocate_def Let_def split: if_splits option.splits)
  then show ?thesis
    using refused by blast
next
  case True
  then obtain c where c: "staging_scan (sg_capacity l) bytes alignment (sg_allocations l) 0 = Some c"
    by (auto simp: staging_allocate_def split: if_splits option.splits)
  show ?thesis
    using True c
    by (intro allocated [OF _ _ _ _ c _ refl]) (auto simp: staging_allocate_def Let_def split: if_splits)
qed

lemma staging_invD:
  assumes "staging_inv l"
  shows "sorted_wrt (\<lambda>a b. sa_end a \<le> sa_first b) (sg_allocations l)"
    "\<forall>a \<in> set (sg_allocations l). sa_end a \<le> unat (sg_capacity l) \<and> unat (0 :: u64) \<le> sa_first a"
    "\<forall>a \<in> set (sg_allocations l). 0 < unat (sa_size a)"
    "\<forall>a \<in> set (sg_allocations l). sa_id a < sg_next_id l" "0 < sg_next_id l"
    "distinct (map sa_id (sg_allocations l))"
  using assms by (auto simp: staging_inv_def allocation_ok_def)

lemma staging_scan_inv:
  assumes "staging_inv l" "is_power_of_two alignment"
  shows "first_fit (sg_capacity l) (sg_allocations l) (unat alignment) (unat bytes) 0
    (map_option unat (staging_scan (sg_capacity l) bytes alignment (sg_allocations l) 0))"
  using staging_scan_first_fit [OF assms(2) staging_invD(1,2) [OF assms(1)]] by simp

lemma staging_allocate_inv:
  assumes inv: "staging_inv l"
  shows "staging_inv (snd (staging_allocate bytes alignment generation l))"
proof (cases rule: staging_allocate_cases [of bytes alignment generation l])
  case (refused status)
  then show ?thesis
    using inv by simp
next
  case (allocated c a)
  have a: "sa_first a = unat c" "unat (sa_size a) = unat bytes" "sa_id a = sg_next_id l"
    by (simp_all add: allocated(7))
  have fit: "unat alignment dvd unat c" "free_range (sg_capacity l) (sg_allocations l) (unat c) (unat bytes)"
    using staging_scan_inv [OF inv allocated(4), of bytes] allocated(5) by (simp_all add: first_fit_def)
  have pos: "0 < unat bytes"
    using allocated(1) by (simp add: unat_gt_0)
  have sorted: "sorted_wrt (\<lambda>a b. sa_end a \<le> sa_first b) (insert_allocation a (sg_allocations l))"
    using insert_allocation_sorted [OF staging_invD(1) [OF inv], of _ a] fit(2) pos
      staging_invD(3) [OF inv] a by simp
  have less: "sg_next_id l < sg_next_id l + 1"
    by (rule u64_Suc [OF allocated(6)])
  define l' where "l' = snd (staging_allocate bytes alignment generation l)"
  have l': "sg_capacity l' = sg_capacity l" "sg_generation l' = sg_generation l"
    "sg_next_id l' = sg_next_id l + 1" "sg_active_bytes l' = sg_active_bytes l + bytes"
    "sg_allocations l' = insert_allocation a (sg_allocations l)"
    by (simp_all add: l'_def allocated(8))
  have "allocation_ok l' a"
    using fit pos less allocated(2,3,4) by (simp add: allocation_ok_def l' allocated(7) free_range_def)
  moreover have "allocation_ok l' x" if "x \<in> set (sg_allocations l)" for x
    using that inv less order_less_trans [OF _ less] by (simp add: allocation_ok_def l' staging_inv_def)
  ultimately have ok: "\<forall>x \<in> set (sg_allocations l'). allocation_ok l' x"
    by (simp add: l' insert_allocation_content)
  have "(\<Sum>x\<leftarrow>sg_allocations l'. unat (sa_size x)) \<le> unat (sg_capacity l)"
    using sorted_allocations_fit [OF sorted, of 0 "unat (sg_capacity l)"] ok
    by (simp add: allocation_ok_def l')
  then have "unat (sg_active_bytes l) + unat bytes < 2 ^ 64"
    using inv unsigned_less [of "sg_capacity l", where ?'a = nat]
    by (simp add: l' insert_allocation_content a staging_inv_def)
  then have active: "unat (sg_active_bytes l') = unat (sg_active_bytes l) + unat bytes"
    by (simp add: l' unat_word_ariths)
  have "sa_id a \<notin> sa_id ` set (sg_allocations l)"
    using staging_invD(4) [OF inv] a(3) by auto
  then have "staging_inv l'"
    using inv sorted ok less active order_less_trans [OF staging_invD(5) [OF inv] less]
    by (simp add: staging_inv_def l' insert_allocation_content a)
  then show ?thesis
    by (simp add: l'_def)
qed

lemma erase_at_split:
  assumes "i < length xs"
  shows "xs = take i xs @ xs ! i # drop (Suc i) xs" "erase_at i xs = take i xs @ drop (Suc i) xs"
  using assms by (simp_all add: id_take_nth_drop [symmetric] erase_at_def)

lemma staging_release_inv:
  assumes inv: "staging_inv l"
  shows "staging_inv (snd (staging_release a l))"
proof (cases "fst (staging_release a l) = MemSuccess")
  case False
  then have "snd (staging_release a l) = l"
    by (auto simp: staging_release_def split: if_splits option.splits)
  then show ?thesis
    using inv by simp
next
  case True
  then obtain i where i: "find_index (same_allocation a) (sg_allocations l) = Some i"
      and l': "snd (staging_release a l) =
        l\<lparr>sg_active_bytes := sg_active_bytes l - sa_size (sg_allocations l ! i),
          sg_allocations := erase_at i (sg_allocations l)\<rparr>"
    by (auto simp: staging_release_def split: if_splits option.splits)
  have len: "i < length (sg_allocations l)"
    using find_index_Some [OF i] by simp
  define before later where "before = take i (sg_allocations l)"
    and "later = drop (Suc i) (sg_allocations l)"
  note s = erase_at_split [OF len, folded before_def later_def]
  have sorted: "sorted_wrt (\<lambda>a b. sa_end a \<le> sa_first b) (before @ later)"
    using staging_invD(1) [OF inv] by (subst (asm) s(1)) (auto simp: sorted_wrt_append)
  have ids: "distinct (map sa_id (before @ later))"
    using staging_invD(6) [OF inv] by (subst (asm) s(1)) auto
  have sub: "set (before @ later) \<subseteq> set (sg_allocations l)"
    by (subst s(1)) auto
  have sums: "unat (sg_active_bytes l) = unat (sa_size (sg_allocations l ! i)) +
      (\<Sum>x\<leftarrow>before @ later. unat (sa_size x))"
    using inv by (subst (asm) staging_inv_def, subst (asm) (4) s(1)) simp
  then have "unat (sg_active_bytes l - sa_size (sg_allocations l ! i)) =
      (\<Sum>x\<leftarrow>before @ later. unat (sa_size x))"
    by (simp add: unat_sub word_le_nat_alt)
  then show ?thesis
    using inv sorted ids sub by (auto simp: staging_inv_def l' s(2) allocation_ok_def)
qed

lemma staging_configure_inv:
  assumes "staging_inv l"
  shows "staging_inv (snd (staging_configure profile generation l))"
  using assms by (auto simp: staging_configure_def staging_inv_def Let_def)

lemma empty_staging_inv [simp]: "staging_inv empty_staging"
  by (simp add: staging_inv_def empty_staging_def)

lemma staging_step_inv: "staging_inv l \<Longrightarrow> staging_inv (staging_step c l)"
  by (cases c) (simp_all add: staging_configure_inv staging_allocate_inv staging_release_inv)

interpretation staging: invariant_component staging_step staging_inv
  by unfold_locales (rule staging_step_inv)

abbreviation reachable_staging :: "staging_call list \<Rightarrow> staging_ledger" where
  "reachable_staging calls \<equiv> run_ops staging_step calls empty_staging"

lemma reachable_staging_inv: "staging_inv (reachable_staging calls)"
  by (rule staging.run_inv) simp

subsection \<open>Releasing what was allocated\<close>

lemma fresh_allocation_found:
  assumes inv: "staging_inv l" and a: "sa_id a = sg_next_id l"
  obtains i where "find_index (same_allocation a) (insert_allocation a (sg_allocations l)) = Some i"
    "insert_allocation a (sg_allocations l) ! i = a"
    "erase_at i (insert_allocation a (sg_allocations l)) = sg_allocations l"
proof -
  obtain before later where s: "sg_allocations l = before @ later"
      "insert_allocation a (sg_allocations l) = before @ a # later"
    by (rule insert_allocation_split [of "sg_allocations l" a])
  have other: "sa_id x \<noteq> sa_id a" if "x \<in> set before \<union> set later" for x
  proof -
    have "sa_id x < sg_next_id l"
      using that staging_invD(4) [OF inv] s(1) by auto
    then show ?thesis
      using a by simp
  qed
  have "find_index (same_allocation a) (before @ a # later) = Some (length before)"
  proof (rule find_index_unique)
    fix j
    assume j: "j < length (before @ a # later)" "same_allocation a ((before @ a # later) ! j)"
    show "j = length before"
    proof (rule ccontr)
      assume "j \<noteq> length before"
      then have "(before @ a # later) ! j \<in> set before \<union> set later"
        using j(1) by (auto simp: nth_append nth_Cons split: nat.splits intro!: nth_mem)
      then show False
        using other j(2) by (auto simp: same_allocation_def)
    qed
  qed (simp_all add: same_allocation_def)
  then show thesis
    using that [of "length before"] s by (simp add: erase_at_def)
qed

lemma release_allocated:
  assumes inv: "staging_inv l"
    and alloc: "staging_allocate bytes alignment generation l = ((MemSuccess, Some a), l')"
  shows "staging_release a l' = (MemSuccess, l\<lparr>sg_next_id := sg_next_id l + 1\<rparr>)"
    and "staging_validate a l' = MemSuccess"
proof -
  have "staging_release a l' = (MemSuccess, l\<lparr>sg_next_id := sg_next_id l + 1\<rparr>) \<and>
      staging_validate a l' = MemSuccess"
  proof (cases rule: staging_allocate_cases [of bytes alignment generation l])
    case (refused status)
    then show ?thesis
      using alloc by simp
  next
    case (allocated c b)
    have eq: "a = b" "l' = l\<lparr>sg_next_id := sg_next_id l + 1,
        sg_allocations := insert_allocation a (sg_allocations l),
        sg_active_bytes := sg_active_bytes l + bytes\<rparr>"
      using alloc unfolding allocated(8) by auto
    have a: "sa_id a = sg_next_id l" "sa_generation a = sg_generation l" "sa_size a = bytes"
      by (simp_all add: eq(1) allocated(7))
    obtain i where "find_index (same_allocation a) (insert_allocation a (sg_allocations l)) = Some i"
      "insert_allocation a (sg_allocations l) ! i = a"
      "erase_at i (insert_allocation a (sg_allocations l)) = sg_allocations l"
      using fresh_allocation_found [OF inv a(1)] .
    then show ?thesis
      using allocated(2,3) by (simp add: staging_release_def staging_validate_def eq(2) a)
  qed
  then show "staging_release a l' = (MemSuccess, l\<lparr>sg_next_id := sg_next_id l + 1\<rparr>)"
    "staging_validate a l' = MemSuccess"
    by simp_all
qed

section \<open>The gate\<close>

definition gate_inv :: "timeline_gate \<Rightarrow> bool" where
  "gate_inv t \<longleftrightarrow> tg_completed_value t < tg_next_value t"

definition gate_le :: "timeline_gate \<Rightarrow> timeline_gate \<Rightarrow> bool" where
  "gate_le s t \<longleftrightarrow> tg_generation t = tg_generation s \<and> tg_next_value s \<le> tg_next_value t \<and>
    tg_completed_value s \<le> tg_completed_value t"

lemma new_gate_inv [simp]: "gate_inv (new_gate generation)"
  by (simp add: gate_inv_def new_gate_def)

lemma gate_step_inv:
  assumes "gate_inv t"
  shows "gate_inv (gate_step c t)" "gate_le t (gate_step c t)"
  using assms u64_Suc [of "tg_next_value t"]
  by (cases c; auto simp: gate_submit_def gate_complete_def gate_inv_def gate_le_def)+

interpretation gate: progress_component gate_step gate_inv gate_le
  by unfold_locales (auto simp: gate_step_inv, auto simp: gate_le_def)

text \<open>A wait that has succeeded never becomes busy again.\<close>

lemma gate_wait_stable:
  assumes "gate_inv t" "gate_wait g v t = MemSuccess"
  shows "gate_wait g v (run_ops gate_step calls t) = MemSuccess"
  using assms(2) gate.run_le [OF assms(1), of calls]
  by (auto simp: gate_wait_def gate_le_def split: if_splits)

section \<open>What the ledger promises its clients\<close>

text \<open>C10. Staging memory is handed out by exact first fit. In every reachable ledger with identifiers
  left, a request for a positive size with a power of two alignment in the current generation
  succeeds exactly when some aligned offset below the capacity has room for it. The offset returned
  is then the least such offset, the new allocation validates, and releasing it gives back the ledger
  as it was but for the identifier used up. When it fails, it fails with out of memory, nothing
  changes, and no aligned offset at all has room.\<close>

theorem staging_allocate_is_first_fit:
  assumes "l = reachable_staging calls" and "bytes \<noteq> 0" and "is_power_of_two alignment"
    and "generation \<noteq> 0" and "generation = sg_generation l" and "sg_next_id l \<noteq> -1"
  shows "case staging_allocate bytes alignment generation l of ((status, out), l') \<Rightarrow> (case out of
      None \<Rightarrow> status = MemOutOfMemory \<and> l' = l \<and> (\<forall>first. unat alignment dvd first \<longrightarrow>
        \<not> free_range (sg_capacity l) (sg_allocations l) first (unat bytes))
    | Some a \<Rightarrow> status = MemSuccess \<and> sa_size a = bytes \<and> unat alignment dvd unat (sa_offset a) \<and>
        free_range (sg_capacity l) (sg_allocations l) (unat (sa_offset a)) (unat bytes) \<and>
        (\<forall>first < unat (sa_offset a). unat alignment dvd first \<longrightarrow>
          \<not> free_range (sg_capacity l) (sg_allocations l) first (unat bytes)) \<and>
        staging_validate a l' = MemSuccess \<and>
        staging_release a l' = (MemSuccess, l\<lparr>sg_next_id := sg_next_id l + 1\<rparr>))"
proof -
  have inv: "staging_inv l"
    unfolding assms(1) by (rule reachable_staging_inv)
  have cap: "sg_capacity l \<noteq> 0" "sg_next_id l \<noteq> 0"
    using inv assms(4,5) by (auto simp: staging_inv_def)
  note fit = staging_scan_inv [OF inv assms(3), of bytes]
  show ?thesis
  proof (cases "staging_scan (sg_capacity l) bytes alignment (sg_allocations l) 0")
    case None
    then show ?thesis
      using assms(2-5) cap fit by (simp add: staging_allocate_def first_fit_def)
  next
    case (Some c)
    have ok: "fst (fst (staging_allocate bytes alignment generation l)) = MemSuccess"
      using assms(2-6) cap Some by (simp add: staging_allocate_def Let_def)
    show ?thesis
    proof (cases rule: staging_allocate_cases [of bytes alignment generation l])
      case (refused status)
      then show ?thesis
        using ok by simp
    next
      case (allocated d a)
      have a: "sa_offset a = c" "sa_size a = bytes"
        using allocated(5) Some by (simp_all add: allocated(7))
      have c: "unat alignment dvd unat c"
          "free_range (sg_capacity l) (sg_allocations l) (unat c) (unat bytes)"
          "\<forall>m. unat alignment dvd m \<longrightarrow> free_range (sg_capacity l) (sg_allocations l) m (unat bytes) \<longrightarrow>
            unat c \<le> m"
        using fit Some by (simp_all add: first_fit_def)
      then have "\<forall>first < unat c. unat alignment dvd first \<longrightarrow>
          \<not> free_range (sg_capacity l) (sg_allocations l) first (unat bytes)"
        by (meson not_le)
      then show ?thesis
        unfolding allocated(8) prod.case option.case a
        using c(1,2) release_allocated [OF inv allocated(8)] by blast
    qed
  qed
qed

definition sample_profile :: capability_profile where
  "sample_profile = \<lparr>cap_status = 0, cap_memory_tier_flags = 1, cap_device_local_heap_bytes = 64,
    cap_host_visible_heap_bytes = 128\<rparr>"

definition sample_staging :: "staging_call list" where
  "sample_staging = [ConfigureStaging sample_profile 1, Allocate 10 8 1, Allocate 20 8 1]"

theorem staging_allocate_is_first_fit_witness:
  "case staging_allocate 4 4 1 (reachable_staging sample_staging) of ((status, out), l') \<Rightarrow>
    status = MemSuccess \<and> map_option sa_offset out = Some 12 \<and>
    free_range 64 (sg_allocations (reachable_staging sample_staging)) 12 4"
proof -
  have here: "is_power_of_two 4" "sg_generation (reachable_staging sample_staging) = 1"
    "sg_next_id (reachable_staging sample_staging) = 3"
    "sg_capacity (reachable_staging sample_staging) = 64"
    "fst (staging_allocate 4 4 1 (reachable_staging sample_staging)) =
      (MemSuccess, Some \<lparr>sa_id = 3, sa_generation = 1, sa_offset = 12, sa_size = 4, sa_alignment = 4\<rparr>)"
    by code_simp+
  show ?thesis
    using staging_allocate_is_first_fit [of _ sample_staging 4 4 1, OF refl] here
    by (cases "staging_allocate 4 4 1 (reachable_staging sample_staging)") simp
qed

text \<open>C38. Live staging allocations never share a byte. In every reachable ledger two different
  allocations cover disjoint ranges, each is aligned as asked, lies below the capacity and validates,
  and \<open>active_bytes\<close> is the exact sum of their sizes, which never exceeds the capacity.\<close>

theorem staging_allocations_are_disjoint:
  assumes "l = reachable_staging calls" and "a \<in> set (sg_allocations l)"
  shows "(\<forall>b \<in> set (sg_allocations l). b = a \<or> sa_end a \<le> unat (sa_offset b) \<or>
      sa_end b \<le> unat (sa_offset a)) \<and>
    sa_end a \<le> unat (sg_capacity l) \<and> unat (sa_alignment a) dvd unat (sa_offset a) \<and>
    staging_validate a l = MemSuccess \<and>
    unat (sg_active_bytes l) = (\<Sum>a\<leftarrow>sg_allocations l. unat (sa_size a)) \<and>
    sg_active_bytes l \<le> sg_capacity l"
proof -
  have inv: "staging_inv l"
    unfolding assms(1) by (rule reachable_staging_inv)
  have ok: "allocation_ok l a"
    using inv assms(2) by (simp add: staging_inv_def)
  have "b = a \<or> sa_end a \<le> unat (sa_offset b) \<or> sa_end b \<le> unat (sa_offset a)"
    if b: "b \<in> set (sg_allocations l)" for b
  proof -
    obtain i j where ij: "i < length (sg_allocations l)" "sg_allocations l ! i = a"
        "j < length (sg_allocations l)" "sg_allocations l ! j = b"
      using assms(2) b by (auto simp: in_set_conv_nth)
    then show ?thesis
      using staging_invD(1) [OF inv] by (cases i j rule: linorder_cases) (auto simp: sorted_wrt_iff_nth_less)
  qed
  moreover have "find_index (same_allocation a) (sg_allocations l) \<noteq> None"
    using assms(2) by (auto simp: find_index_None same_allocation_def)
  ultimately show ?thesis
    using ok inv staging_inv_active [OF inv]
    by (auto simp: allocation_ok_def staging_validate_def staging_inv_def word_le_nat_alt)
qed

theorem staging_allocations_are_disjoint_witness:
  "\<lparr>sa_id = 1, sa_generation = 1, sa_offset = 0, sa_size = 10, sa_alignment = 8\<rparr> \<in>
      set (sg_allocations (reachable_staging sample_staging)) \<and>
    sg_active_bytes (reachable_staging sample_staging) \<le> sg_capacity (reachable_staging sample_staging)"
proof -
  have "\<lparr>sa_id = 1, sa_generation = 1, sa_offset = 0, sa_size = 10, sa_alignment = 8\<rparr> \<in>
      set (sg_allocations (reachable_staging sample_staging))"
    by code_simp
  with staging_allocations_are_disjoint [OF refl this] show ?thesis
    by blast
qed

end
