(* ===== verification/VulkanVisibility.thy ===== *)
theory VulkanVisibility
  imports VulkanMemory
begin

text \<open>
  The visibility ledger of the Vulkan backend (\<open>MemoryVisibilityLedger\<close> of \<open>memory.cpp\<close>): which bytes
  of a staging allocation the host or the device has written and the other side cannot see yet, and
  which operations that forbids. The dirty bytes are kept as sorted lists of ranges; they are shown
  to be exactly the byte sets of an abstract ledger.
\<close>

section \<open>Model\<close>

datatype visibility_status =
    VisSuccess | VisInvalidArgument | VisStaleGeneration | VisNotFound | VisBusy | VisFlushRequired
  | VisInvalidateRequired | VisRangeOutOfBounds

record visibility_range =
  rg_offset :: u64
  rg_size :: u64

record visibility_record =
  vr_allocation :: staging_allocation
  vr_host_coherent :: bool
  vr_in_flight :: u64
  vr_host_dirty :: "visibility_range list"
  vr_device_dirty :: "visibility_range list"

record visibility_ledger =
  vl_generation :: u64
  vl_atom :: u64
  vl_highest :: u64
  vl_completed :: u64
  vl_records :: "visibility_record list"

definition empty_visibility :: visibility_ledger where
  "empty_visibility = \<lparr>vl_generation = 0, vl_atom = 0, vl_highest = 0, vl_completed = 0, vl_records = []\<rparr>"

definition visibility_configure ::
  "u64 \<Rightarrow> u64 \<Rightarrow> visibility_ledger \<Rightarrow> visibility_status \<times> visibility_ledger" where
  "visibility_configure generation atom l =
    (if generation = 0 \<or> atom = 0 then (VisInvalidArgument, l)
     else if vl_records l \<noteq> [] \<and> list_ex (\<lambda>r. vl_completed l < vr_in_flight r) (vl_records l)
     then (VisBusy, l)
     else (VisSuccess, \<lparr>vl_generation = generation, vl_atom = atom, vl_highest = 0, vl_completed = 0,
       vl_records = []\<rparr>))"

definition find_record :: "staging_allocation \<Rightarrow> visibility_ledger \<Rightarrow> nat option" where
  "find_record a l = find_index (\<lambda>r. same_allocation a (vr_allocation r)) (vl_records l)"

definition register_allocation ::
  "staging_allocation \<Rightarrow> bool \<Rightarrow> visibility_ledger \<Rightarrow> visibility_status \<times> visibility_ledger" where
  "register_allocation a coherent l =
    (if vl_generation l = 0 \<or> sa_id a = 0 \<or> sa_generation a = 0 \<or>
        sa_generation a \<noteq> vl_generation l \<or> sa_size a = 0 \<or> sa_alignment a = 0
     then (if sa_generation a \<noteq> 0 \<and> sa_generation a \<noteq> vl_generation l then VisStaleGeneration
       else VisInvalidArgument, l)
     else if find_record a l \<noteq> None then (VisInvalidArgument, l)
     else if \<not> coherent \<and> (sa_offset a mod vl_atom l \<noteq> 0 \<or> sa_size a mod vl_atom l \<noteq> 0)
     then (VisInvalidArgument, l)
     else (VisSuccess, l\<lparr>vl_records := vl_records l @
       [\<lparr>vr_allocation = a, vr_host_coherent = coherent, vr_in_flight = 0, vr_host_dirty = [],
         vr_device_dirty = []\<rparr>]\<rparr>))"

definition unregister_allocation ::
  "staging_allocation \<Rightarrow> visibility_ledger \<Rightarrow> visibility_status \<times> visibility_ledger" where
  "unregister_allocation a l =
    (if sa_generation a = 0 \<or> sa_generation a \<noteq> vl_generation l then (VisStaleGeneration, l)
     else (case find_record a l of None \<Rightarrow> (VisNotFound, l)
     | Some i \<Rightarrow> if vl_completed l < vr_in_flight (vl_records l ! i) then (VisBusy, l)
       else (VisSuccess, l\<lparr>vl_records := erase_at i (vl_records l)\<rparr>)))"

definition generation_error :: "u64 \<Rightarrow> visibility_status" where
  "generation_error generation = (if generation \<noteq> 0 then VisStaleGeneration else VisInvalidArgument)"

definition visibility_submit ::
  "u64 \<Rightarrow> u64 \<Rightarrow> visibility_ledger \<Rightarrow> visibility_status \<times> visibility_ledger" where
  "visibility_submit generation timeline l =
    (if generation = 0 \<or> generation \<noteq> vl_generation l then (generation_error generation, l)
     else if timeline = 0 \<or> timeline \<le> vl_highest l \<or> timeline \<le> vl_completed l
     then (VisInvalidArgument, l)
     else (VisSuccess, l\<lparr>vl_highest := timeline\<rparr>))"

definition visibility_complete ::
  "u64 \<Rightarrow> u64 \<Rightarrow> visibility_ledger \<Rightarrow> visibility_status \<times> visibility_ledger" where
  "visibility_complete generation timeline l =
    (if generation = 0 \<or> generation \<noteq> vl_generation l then (generation_error generation, l)
     else if timeline = 0 \<or> vl_highest l < timeline \<or> timeline < vl_completed l
     then (VisInvalidArgument, l)
     else (VisSuccess, l\<lparr>vl_completed := timeline\<rparr>))"

definition normalize_range ::
  "u64 \<Rightarrow> visibility_record \<Rightarrow> u64 \<Rightarrow> u64 \<Rightarrow> visibility_status + visibility_range" where
  "normalize_range atom r first bytes = (let a = vr_allocation r in
    if bytes = 0 \<or> first < sa_offset a \<or> -1 - sa_size a < sa_offset a \<or> -1 - bytes < first \<or>
      sa_offset a + sa_size a < first + bytes
    then Inl VisRangeOutOfBounds
    else if vr_host_coherent r then Inr \<lparr>rg_offset = first, rg_size = bytes\<rparr>
    else if atom = 0 \<or> -1 div atom < first div atom then Inl VisInvalidArgument
    else let aligned_offset = (first div atom) * atom; fin = first + bytes in
      if -1 - (atom - 1) < fin then Inl VisRangeOutOfBounds
      else let aligned_end = ((fin + atom - 1) div atom) * atom in
        if aligned_offset < sa_offset a \<or> sa_offset a + sa_size a < aligned_end
        then Inl VisRangeOutOfBounds
        else Inr \<lparr>rg_offset = aligned_offset, rg_size = aligned_end - aligned_offset\<rparr>)"

definition check_access :: "staging_allocation \<Rightarrow> u64 \<Rightarrow> u64 \<Rightarrow> u64 \<Rightarrow> visibility_ledger \<Rightarrow>
    visibility_status + visibility_range \<times> nat" where
  "check_access a first bytes generation l =
    (if generation = 0 \<or> generation \<noteq> vl_generation l then Inl (generation_error generation)
     else (case find_record a l of
       None \<Rightarrow> Inl (if sa_generation a \<noteq> vl_generation l then VisStaleGeneration else VisNotFound)
     | Some i \<Rightarrow> (case normalize_range (vl_atom l) (vl_records l ! i) first bytes of
         Inl status \<Rightarrow> Inl status | Inr g \<Rightarrow> Inr (g, i))))"

definition check_submission :: "u64 \<Rightarrow> u64 \<Rightarrow> visibility_ledger \<Rightarrow> visibility_status" where
  "check_submission generation timeline l =
    (if generation = 0 \<or> generation \<noteq> vl_generation l then generation_error generation
     else if timeline = 0 \<or> vl_highest l < timeline \<or> timeline \<le> vl_completed l
     then VisInvalidArgument
     else VisSuccess)"

definition overlaps :: "visibility_range \<Rightarrow> visibility_range \<Rightarrow> bool" where
  "overlaps x y \<longleftrightarrow> rg_offset x < rg_offset y + rg_size y \<and> rg_offset y < rg_offset x + rg_size x"

text \<open>
  The loop of \<open>add_range\<close>: the end of the range that is added is read once, before the loop, while its
  offset and size grow with every range that is merged into it.
\<close>

fun add_range_loop ::
  "u64 \<Rightarrow> visibility_range \<Rightarrow> bool \<Rightarrow> visibility_range list \<Rightarrow> visibility_range list" where
  "add_range_loop range_end g inserted [] = (if inserted then [] else [g])"
| "add_range_loop range_end g inserted (c # cs) = (let current_end = rg_offset c + rg_size c in
    if current_end < rg_offset g then c # add_range_loop range_end g inserted cs
    else if range_end < rg_offset c
    then (if inserted then [] else [g]) @ c # add_range_loop range_end g True cs
    else let first = min (rg_offset g) (rg_offset c) in
      add_range_loop range_end \<lparr>rg_offset = first, rg_size = max range_end current_end - first\<rparr>
        inserted cs)"

definition add_range :: "visibility_range list \<Rightarrow> visibility_range \<Rightarrow> visibility_range list" where
  "add_range gs g = (if rg_size g = 0 then gs else add_range_loop (rg_offset g + rg_size g) g False gs)"

definition cut_range :: "visibility_range \<Rightarrow> visibility_range \<Rightarrow> visibility_range list" where
  "cut_range g c = (let range_end = rg_offset g + rg_size g; current_end = rg_offset c + rg_size c in
    if current_end \<le> rg_offset g \<or> range_end \<le> rg_offset c then [c]
    else (if rg_offset c < rg_offset g
        then [\<lparr>rg_offset = rg_offset c, rg_size = rg_offset g - rg_offset c\<rparr>] else []) @
      (if range_end < current_end
        then [\<lparr>rg_offset = range_end, rg_size = current_end - range_end\<rparr>] else []))"

definition remove_range :: "visibility_range list \<Rightarrow> visibility_range \<Rightarrow> visibility_range list" where
  "remove_range gs g = (if rg_size g = 0 then gs else concat (map (cut_range g) gs))"

definition put_record ::
  "nat \<Rightarrow> visibility_record \<Rightarrow> visibility_ledger \<Rightarrow> visibility_ledger" where
  "put_record i r l = l\<lparr>vl_records := (vl_records l)[i := r]\<rparr>"

definition host_write :: "staging_allocation \<Rightarrow> u64 \<Rightarrow> u64 \<Rightarrow> u64 \<Rightarrow> visibility_ledger \<Rightarrow>
    visibility_status \<times> visibility_ledger" where
  "host_write a first bytes generation l = (case check_access a first bytes generation l of
      Inl status \<Rightarrow> (status, l)
    | Inr (g, i) \<Rightarrow> let r = vl_records l ! i in
      if vl_completed l < vr_in_flight r then (VisBusy, l)
      else if \<not> vr_host_coherent r \<and> list_ex (\<lambda>d. overlaps d g) (vr_device_dirty r)
      then (VisInvalidateRequired, l)
      else if \<not> vr_host_coherent r
      then (VisSuccess, put_record i (r\<lparr>vr_host_dirty := add_range (vr_host_dirty r) g\<rparr>) l)
      else (VisSuccess, l))"

definition flush :: "staging_allocation \<Rightarrow> u64 \<Rightarrow> u64 \<Rightarrow> u64 \<Rightarrow> visibility_ledger \<Rightarrow>
    visibility_status \<times> visibility_ledger" where
  "flush a first bytes generation l = (case check_access a first bytes generation l of
      Inl status \<Rightarrow> (status, l)
    | Inr (g, i) \<Rightarrow> let r = vl_records l ! i in
      if vl_completed l < vr_in_flight r then (VisBusy, l)
      else if \<not> vr_host_coherent r
      then (VisSuccess, put_record i (r\<lparr>vr_host_dirty := remove_range (vr_host_dirty r) g\<rparr>) l)
      else (VisSuccess, l))"

definition device_read :: "staging_allocation \<Rightarrow> u64 \<Rightarrow> u64 \<Rightarrow> u64 \<Rightarrow> u64 \<Rightarrow> visibility_ledger \<Rightarrow>
    visibility_status \<times> visibility_ledger" where
  "device_read a first bytes generation timeline l = (case check_access a first bytes generation l of
      Inl status \<Rightarrow> (status, l)
    | Inr (g, i) \<Rightarrow> let r = vl_records l ! i; status = check_submission generation timeline l in
      if status \<noteq> VisSuccess then (status, l)
      else if vl_completed l < vr_in_flight r then (VisBusy, l)
      else if \<not> vr_host_coherent r \<and> list_ex (\<lambda>d. overlaps d g) (vr_host_dirty r)
      then (VisFlushRequired, l)
      else (VisSuccess, put_record i (r\<lparr>vr_in_flight := timeline\<rparr>) l))"

definition device_write :: "staging_allocation \<Rightarrow> u64 \<Rightarrow> u64 \<Rightarrow> u64 \<Rightarrow> u64 \<Rightarrow> visibility_ledger \<Rightarrow>
    visibility_status \<times> visibility_ledger" where
  "device_write a first bytes generation timeline l = (case check_access a first bytes generation l of
      Inl status \<Rightarrow> (status, l)
    | Inr (g, i) \<Rightarrow> let r = vl_records l ! i; status = check_submission generation timeline l in
      if status \<noteq> VisSuccess then (status, l)
      else if vl_completed l < vr_in_flight r then (VisBusy, l)
      else if \<not> vr_host_coherent r \<and> list_ex (\<lambda>d. overlaps d g) (vr_host_dirty r)
      then (VisFlushRequired, l)
      else if \<not> vr_host_coherent r
      then (VisSuccess, put_record i (r\<lparr>vr_in_flight := timeline,
        vr_device_dirty := add_range (vr_device_dirty r) g\<rparr>) l)
      else (VisSuccess, put_record i (r\<lparr>vr_in_flight := timeline\<rparr>) l))"

definition invalidate :: "staging_allocation \<Rightarrow> u64 \<Rightarrow> u64 \<Rightarrow> u64 \<Rightarrow> visibility_ledger \<Rightarrow>
    visibility_status \<times> visibility_ledger" where
  "invalidate a first bytes generation l = (case check_access a first bytes generation l of
      Inl status \<Rightarrow> (status, l)
    | Inr (g, i) \<Rightarrow> let r = vl_records l ! i in
      if vl_completed l < vr_in_flight r then (VisBusy, l)
      else if \<not> vr_host_coherent r
      then (VisSuccess, put_record i (r\<lparr>vr_device_dirty := remove_range (vr_device_dirty r) g\<rparr>) l)
      else (VisSuccess, l))"

definition host_read :: "staging_allocation \<Rightarrow> u64 \<Rightarrow> u64 \<Rightarrow> u64 \<Rightarrow> visibility_ledger \<Rightarrow>
    visibility_status \<times> visibility_ledger" where
  "host_read a first bytes generation l = (case check_access a first bytes generation l of
      Inl status \<Rightarrow> (status, l)
    | Inr (g, i) \<Rightarrow> let r = vl_records l ! i in
      if vl_completed l < vr_in_flight r then (VisBusy, l)
      else if \<not> vr_host_coherent r \<and> list_ex (\<lambda>d. overlaps d g) (vr_device_dirty r)
      then (VisInvalidateRequired, l)
      else (VisSuccess, l))"

datatype visibility_access =
    HostWrite | FlushHost | DeviceRead u64 | DeviceWrite u64 | InvalidateHost | HostRead

primrec perform_access :: "visibility_access \<Rightarrow> staging_allocation \<Rightarrow> u64 \<Rightarrow> u64 \<Rightarrow> u64 \<Rightarrow>
    visibility_ledger \<Rightarrow> visibility_status \<times> visibility_ledger" where
  "perform_access HostWrite = host_write"
| "perform_access FlushHost = flush"
| "perform_access (DeviceRead t) = (\<lambda>a first bytes g. device_read a first bytes g t)"
| "perform_access (DeviceWrite t) = (\<lambda>a first bytes g. device_write a first bytes g t)"
| "perform_access InvalidateHost = invalidate"
| "perform_access HostRead = host_read"

datatype visibility_call =
    ConfigureVisibility u64 u64
  | RegisterAllocation staging_allocation bool
  | UnregisterAllocation staging_allocation
  | SubmitTimeline u64 u64
  | CompleteTimeline u64 u64
  | Access visibility_access staging_allocation u64 u64 u64

primrec perform_call :: "visibility_call \<Rightarrow> visibility_ledger \<Rightarrow>
    visibility_status \<times> visibility_ledger" where
  "perform_call (ConfigureVisibility g atom) l = visibility_configure g atom l"
| "perform_call (RegisterAllocation a coherent) l = register_allocation a coherent l"
| "perform_call (UnregisterAllocation a) l = unregister_allocation a l"
| "perform_call (SubmitTimeline g t) l = visibility_submit g t l"
| "perform_call (CompleteTimeline g t) l = visibility_complete g t l"
| "perform_call (Access k a first bytes g) l = perform_access k a first bytes g l"

definition visibility_step :: "visibility_call \<Rightarrow> visibility_ledger \<Rightarrow> visibility_ledger" where
  "visibility_step c l = snd (perform_call c l)"

text \<open>Every status has a name of its own; the default name is for values outside the enumeration.\<close>

primrec visibility_status_string :: "visibility_status \<Rightarrow> string" where
  "visibility_status_string VisSuccess = ''success''"
| "visibility_status_string VisInvalidArgument = ''invalid-argument''"
| "visibility_status_string VisStaleGeneration = ''stale-generation''"
| "visibility_status_string VisNotFound = ''not-found''"
| "visibility_status_string VisBusy = ''busy''"
| "visibility_status_string VisFlushRequired = ''flush-required''"
| "visibility_status_string VisInvalidateRequired = ''invalidate-required''"
| "visibility_status_string VisRangeOutOfBounds = ''range-out-of-bounds''"

lemma visibility_status_string_inject:
  "visibility_status_string x = visibility_status_string y \<longleftrightarrow> x = y"
  by (cases x; cases y; simp)

section \<open>Ranges as sets of bytes\<close>

abbreviation rg_first :: "visibility_range \<Rightarrow> nat" where
  "rg_first g \<equiv> unat (rg_offset g)"

abbreviation rg_end :: "visibility_range \<Rightarrow> nat" where
  "rg_end g \<equiv> unat (rg_offset g) + unat (rg_size g)"

definition range_ok :: "visibility_range \<Rightarrow> bool" where
  "range_ok g \<longleftrightarrow> 0 < unat (rg_size g) \<and> rg_end g < 2 ^ 64"

definition bytes_of :: "visibility_range \<Rightarrow> nat set" where
  "bytes_of g = {rg_first g ..< rg_end g}"

definition covered :: "visibility_range list \<Rightarrow> nat set" where
  "covered gs = (\<Union>g \<in> set gs. bytes_of g)"

definition ranges_inv :: "visibility_range list \<Rightarrow> bool" where
  "ranges_inv gs \<longleftrightarrow> (\<forall>g \<in> set gs. range_ok g) \<and> sorted_wrt (\<lambda>g h. rg_end g < rg_first h) gs"

lemma covered_simps [simp]:
  "covered [] = {}" "covered (g # gs) = bytes_of g \<union> covered gs"
  "covered (gs @ hs) = covered gs \<union> covered hs"
  by (auto simp: covered_def)

lemma ranges_inv_simps [simp]:
  "ranges_inv []"
  "ranges_inv (g # gs) \<longleftrightarrow> range_ok g \<and> (\<forall>h \<in> set gs. rg_end g < rg_first h) \<and> ranges_inv gs"
  by (auto simp: ranges_inv_def)

lemma range_ok_end:
  assumes "range_ok g"
  shows "unat (rg_offset g + rg_size g) = rg_end g"
  using assms by (simp add: range_ok_def unat_word_ariths)

lemma overlaps_bytes:
  assumes "range_ok g" "range_ok h"
  shows "overlaps g h \<longleftrightarrow> bytes_of g \<inter> bytes_of h \<noteq> {}"
proof -
  have "overlaps g h \<longleftrightarrow> rg_first g < rg_end h \<and> rg_first h < rg_end g"
    by (simp add: overlaps_def word_less_nat_alt range_ok_end assms)
  also have "\<dots> \<longleftrightarrow> max (rg_first g) (rg_first h) \<in> bytes_of g \<inter> bytes_of h"
    using assms by (auto simp: bytes_of_def range_ok_def)
  also have "\<dots> \<longleftrightarrow> bytes_of g \<inter> bytes_of h \<noteq> {}"
    by (auto simp: bytes_of_def)
  finally show ?thesis .
qed

lemma any_overlap_bytes:
  assumes "ranges_inv gs" "range_ok g"
  shows "list_ex (\<lambda>d. overlaps d g) gs \<longleftrightarrow> covered gs \<inter> bytes_of g \<noteq> {}"
  using assms by (auto simp: list_ex_iff covered_def ranges_inv_def overlaps_bytes)

subsection \<open>Adding a range\<close>

lemma add_range_loop_copies:
  "\<forall>c \<in> set cs. range_end < rg_offset c \<Longrightarrow> add_range_loop range_end g True cs = cs"
  by (induction cs) (simp_all add: Let_def)

lemma merge_intervals:
  "a \<le> d \<Longrightarrow> c \<le> b \<Longrightarrow> a \<le> b \<Longrightarrow> c \<le> d \<Longrightarrow> {min a c ..< max b d} = {a ..< b} \<union> {c ..< d}"
  for a b c d :: nat
  by auto

text \<open>The range that two touching ranges are merged into.\<close>

lemma merged_range:
  assumes g: "range_ok g" "rg_end g = unat range_end" and c: "range_ok c"
    and touch: "rg_first g \<le> rg_end c" "rg_first c \<le> unat range_end"
    and h: "h = \<lparr>rg_offset = min (rg_offset g) (rg_offset c),
      rg_size = max range_end (rg_offset c + rg_size c) - min (rg_offset g) (rg_offset c)\<rparr>"
  shows "rg_first h = min (rg_first g) (rg_first c)" "rg_end h = max (unat range_end) (rg_end c)"
    "range_ok h" "bytes_of h = bytes_of g \<union> bytes_of c"
proof -
  show first: "rg_first h = min (rg_first g) (rg_first c)"
    by (simp add: h min_def word_le_nat_alt)
  have fin: "unat (max range_end (rg_offset c + rg_size c)) = max (unat range_end) (rg_end c)"
    by (simp add: max_def word_le_nat_alt range_ok_end [OF c])
  have "rg_first g < unat range_end"
    using g by (simp add: range_ok_def)
  then have le: "min (rg_first g) (rg_first c) < max (unat range_end) (rg_end c)"
    by linarith
  then have "min (rg_offset g) (rg_offset c) \<le> max range_end (rg_offset c + rg_size c)"
    using first by (simp add: word_le_nat_alt fin h)
  then have len: "unat (rg_size h) = max (unat range_end) (rg_end c) - min (rg_first g) (rg_first c)"
    using first by (simp add: h unat_sub fin)
  show ends: "rg_end h = max (unat range_end) (rg_end c)"
    using first len le by simp
  show "range_ok h"
    unfolding range_ok_def ends using len le g c by (simp add: range_ok_def)
  have "bytes_of h = {min (rg_first g) (rg_first c) ..< max (unat range_end) (rg_end c)}"
    by (simp only: bytes_of_def ends) (simp only: first)
  also have "\<dots> = {rg_first g ..< rg_end g} \<union> {rg_first c ..< rg_end c}"
    unfolding g(2) by (rule merge_intervals) (use touch \<open>rg_first g < unat range_end\<close> in simp_all)
  finally show "bytes_of h = bytes_of g \<union> bytes_of c"
    by (simp only: bytes_of_def)
qed

lemma add_range_loop_covers:
  assumes "ranges_inv cs" "range_ok g" "unat range_end \<le> rg_end g"
    and "\<forall>c \<in> set cs. rg_end g = unat range_end \<or> rg_end g < rg_first c"
  shows "covered (add_range_loop range_end g False cs) = bytes_of g \<union> covered cs \<and>
    ranges_inv (add_range_loop range_end g False cs) \<and>
    (\<forall>b. b < rg_first g \<longrightarrow> (\<forall>c \<in> set cs. b < rg_first c) \<longrightarrow>
      (\<forall>h \<in> set (add_range_loop range_end g False cs). b < rg_first h))"
  using assms
proof (induction cs arbitrary: g)
  case (Cons c cs)
  note ce = range_ok_end [of c]
  have c: "range_ok c" "\<forall>h \<in> set cs. rg_end c < rg_first h" "ranges_inv cs"
    using Cons.prems(1) by simp_all
  consider (before) "rg_end c < rg_first g"
    | (behind) "rg_first g \<le> rg_end c" "unat range_end < rg_first c"
    | (merge) "rg_first g \<le> rg_end c" "rg_first c \<le> unat range_end"
    by linarith
  then show ?case
  proof cases
    case before
    then have "add_range_loop range_end g False (c # cs) = c # add_range_loop range_end g False cs"
      by (simp add: Let_def word_less_nat_alt ce [OF c(1)])
    moreover have "covered (add_range_loop range_end g False cs) = bytes_of g \<union> covered cs"
      "ranges_inv (add_range_loop range_end g False cs)"
      "\<And>b. b < rg_first g \<Longrightarrow> (\<forall>c \<in> set cs. b < rg_first c) \<Longrightarrow>
        (\<forall>h \<in> set (add_range_loop range_end g False cs). b < rg_first h)"
      using Cons.IH [OF c(3) Cons.prems(2,3)] Cons.prems(4) by auto
    ultimately show ?thesis
      using before c(1,2) by auto
  next
    case behind
    then have "add_range_loop range_end g False (c # cs) = g # c # add_range_loop range_end g True cs"
      by (simp add: Let_def word_less_nat_alt ce [OF c(1)])
    moreover have "add_range_loop range_end g True cs = cs"
      using behind c(2) by (intro add_range_loop_copies) (force simp: word_less_nat_alt)
    moreover have "rg_end g < rg_first c"
      using behind Cons.prems(4) by auto
    ultimately show ?thesis
      using Cons.prems(1,2) by force
  next
    case merge
    have e: "rg_end g = unat range_end"
      using merge Cons.prems(3,4) by auto
    define h where "h = \<lparr>rg_offset = min (rg_offset g) (rg_offset c),
      rg_size = max range_end (rg_offset c + rg_size c) - min (rg_offset g) (rg_offset c)\<rparr>"
    note m = merged_range [OF Cons.prems(2) e c(1) merge h_def]
    have step: "add_range_loop range_end g False (c # cs) = add_range_loop range_end h False cs"
      using merge by (simp add: Let_def word_less_nat_alt ce [OF c(1)] h_def)
    have le: "unat range_end \<le> rg_end h"
      unfolding m(2) by simp
    have later: "\<forall>d \<in> set cs. rg_end h = unat range_end \<or> rg_end h < rg_first d"
    proof
      fix d
      assume "d \<in> set cs"
      then have "rg_end c < rg_first d"
        using c(2) by blast
      then show "rg_end h = unat range_end \<or> rg_end h < rg_first d"
        unfolding m(2) by linarith
    qed
    note IH = Cons.IH [OF c(3) m(3) le later]
    have cov: "covered (add_range_loop range_end h False cs) = bytes_of g \<union> covered (c # cs)"
      unfolding IH [THEN conjunct1] m(4) by auto
    have "\<forall>k \<in> set (add_range_loop range_end h False cs). b < rg_first k"
      if "b < rg_first g" "\<forall>d \<in> set (c # cs). b < rg_first d" for b
    proof -
      have "b < rg_first h"
        unfolding m(1) using that by simp
      then show ?thesis
        using IH that(2) by simp
    qed
    then show ?thesis
      unfolding step using cov IH by blast
  qed
qed auto

lemma add_range_covers:
  assumes "ranges_inv gs" "range_ok g"
  shows "covered (add_range gs g) = covered gs \<union> bytes_of g" "ranges_inv (add_range gs g)"
proof -
  have "rg_size g \<noteq> 0"
    using assms(2) by (auto simp: range_ok_def)
  then have "add_range gs g = add_range_loop (rg_offset g + rg_size g) g False gs"
    by (simp add: add_range_def)
  then show "covered (add_range gs g) = covered gs \<union> bytes_of g" "ranges_inv (add_range gs g)"
    using add_range_loop_covers [OF assms, of "rg_offset g + rg_size g"] range_ok_end [OF assms(2)]
    by auto
qed

subsection \<open>Removing a range\<close>

lemma cut_range_covers:
  assumes g: "range_ok g" and c: "range_ok c"
  shows "covered (cut_range g c) = bytes_of c - bytes_of g" "ranges_inv (cut_range g c)"
    "\<forall>h \<in> set (cut_range g c). rg_first c \<le> rg_first h \<and> rg_end h \<le> rg_end c"
proof -
  note ends = range_ok_end [OF g] range_ok_end [OF c]
  have low: "unat (rg_offset g - rg_offset c) = rg_first g - rg_first c"
    if "rg_first c < rg_first g"
    using that by (simp add: unat_sub word_le_nat_alt)
  have high: "unat (rg_offset c + rg_size c - (rg_offset g + rg_size g)) = rg_end c - rg_end g"
    if "rg_end g < rg_end c"
    using that by (simp add: unat_sub word_le_nat_alt ends)
  show "covered (cut_range g c) = bytes_of c - bytes_of g"
    using g c low high
    by (auto simp: cut_range_def Let_def word_less_nat_alt word_le_nat_alt ends bytes_of_def range_ok_def)
  show "ranges_inv (cut_range g c)"
    using g c low high
    by (auto simp: cut_range_def Let_def word_less_nat_alt word_le_nat_alt ends range_ok_def)
  show "\<forall>h \<in> set (cut_range g c). rg_first c \<le> rg_first h \<and> rg_end h \<le> rg_end c"
    using g c low high
    by (auto simp: cut_range_def Let_def word_less_nat_alt word_le_nat_alt ends range_ok_def)
qed

lemma ranges_inv_append:
  "ranges_inv (gs @ hs) \<longleftrightarrow> ranges_inv gs \<and> ranges_inv hs \<and>
    (\<forall>g \<in> set gs. \<forall>h \<in> set hs. rg_end g < rg_first h)"
  by (auto simp: ranges_inv_def sorted_wrt_append)

lemma remove_range_covers:
  assumes "ranges_inv gs" "range_ok g"
  shows "covered (remove_range gs g) = covered gs - bytes_of g" "ranges_inv (remove_range gs g)"
proof -
  have "covered (concat (map (cut_range g) gs)) = covered gs - bytes_of g \<and>
      ranges_inv (concat (map (cut_range g) gs)) \<and>
      (\<forall>h \<in> set (concat (map (cut_range g) gs)). \<exists>c \<in> set gs. rg_first c \<le> rg_first h)"
    using assms(1)
  proof (induction gs)
    case (Cons c cs)
    note cut = cut_range_covers [OF assms(2), of c]
    have "rg_end h < rg_first k" if "h \<in> set (cut_range g c)"
      "k \<in> set (concat (map (cut_range g) cs))" for h k
      using that Cons cut(3) by fastforce
    then show ?case
      using Cons cut by (auto simp: ranges_inv_append)
  qed simp
  moreover have "rg_size g \<noteq> 0"
    using assms(2) by (auto simp: range_ok_def)
  ultimately show "covered (remove_range gs g) = covered gs - bytes_of g"
    "ranges_inv (remove_range gs g)"
    by (simp_all add: remove_range_def)
qed

end
