(* ===== verification/VulkanCoherence.thy ===== *)
theory VulkanCoherence
  imports VulkanVisibility
begin

text \<open>
  What the visibility ledger guarantees: its record operations refine operations on sets of dirty
  bytes, and over any history a side that is admitted to read sees the bytes written last.
\<close>

section \<open>Normalised ranges\<close>

lemma unat_align: "unat ((x div y) * y) = unat x div unat y * unat y" for x y :: u64
proof -
  have "unat x < 2 ^ 64"
    using unsigned_less [of x, where ?'a = nat] by simp
  then have "unat x div unat y * unat y < 2 ^ 64"
    by (rule order_le_less_trans [OF div_times_less_eq_dividend])
  then show ?thesis
    by (simp add: unat_word_ariths(2) unat_div)
qed

lemma align_up_ge:
  fixes a e :: nat
  assumes "0 < a"
  shows "e \<le> (e + a - 1) div a * a"
proof -
  have "(e + a - 1) mod a \<le> a - 1"
    using assms by (simp add: Suc_leI less_Suc_eq_le [symmetric])
  then show ?thesis
    using div_mult_mod_eq [of "e + a - 1" a] assms by linarith
qed

text \<open>The aligned bounds of a range that stays below the word size after rounding.\<close>

lemma aligned_bounds:
  fixes atom first fin lo hi :: u64
  assumes "atom \<noteq> 0" "\<not> -1 - (atom - 1) < fin" "first \<le> fin"
    and lo: "lo = (first div atom) * atom" and hi: "hi = ((fin + atom - 1) div atom) * atom"
  shows "unat lo \<le> unat first" "unat fin \<le> unat hi" "unat (hi - lo) = unat hi - unat lo"
proof -
  have A: "0 < unat atom" "unat (atom - 1) = unat atom - 1"
    using assms(1) by (simp_all add: unat_gt_0 unat_minus_one)
  have "\<not> 2 ^ 64 - 1 - (unat atom - 1) < unat fin"
    using assms(2) by (simp only: word_less_nat_alt unat_max_minus A(2) not_False_eq_True)
  then have sum_less: "unat fin + (unat atom - 1) < 2 ^ 64"
    using A(1) unsigned_less [of atom, where ?'a = nat] by simp
  have "fin + atom - 1 = fin + (atom - 1)"
    by simp
  then have "unat (fin + atom - 1) = unat fin + unat atom - 1"
    using sum_less A by (simp only: unat_word_ariths(1)) simp
  then have "unat hi = (unat fin + unat atom - 1) div unat atom * unat atom"
    unfolding hi by (simp only: unat_align)
  then show ge: "unat fin \<le> unat hi"
    using align_up_ge [OF A(1), of "unat fin"] by simp
  show le: "unat lo \<le> unat first"
    unfolding lo unat_align by simp
  show "unat (hi - lo) = unat hi - unat lo"
    using le ge assms(3) by (simp add: unat_sub word_le_nat_alt)
qed

lemma normalize_range_bounds:
  assumes "normalize_range atom r first bytes = Inr g"
  shows "0 < unat bytes" "sa_first (vr_allocation r) \<le> unat first"
    "unat (first + bytes) = unat first + unat bytes"
    "unat (sa_offset (vr_allocation r) + sa_size (vr_allocation r)) = sa_end (vr_allocation r)"
    "unat first + unat bytes \<le> sa_end (vr_allocation r)" "sa_end (vr_allocation r) < 2 ^ 64"
proof -
  define a where "a = vr_allocation r"
  have b: "bytes \<noteq> 0" "sa_offset a \<le> first" "\<not> -1 - sa_size a < sa_offset a"
      "\<not> -1 - bytes < first" "first + bytes \<le> sa_offset a + sa_size a"
    using assms by (auto simp: normalize_range_def a_def Let_def split: if_splits)
  have less: "unat first + unat bytes < 2 ^ 64" "sa_end a < 2 ^ 64"
    using b(3,4) unsigned_less [of bytes, where ?'a = nat] unsigned_less [of "sa_size a", where ?'a = nat]
    by (simp_all add: word_less_nat_alt unat_max_minus)
  then have "unat (first + bytes) = unat first + unat bytes"
      "unat (sa_offset a + sa_size a) = sa_end a"
    by (simp_all add: unat_word_ariths(1))
  then show "0 < unat bytes" "sa_first (vr_allocation r) \<le> unat first"
    "unat (first + bytes) = unat first + unat bytes"
    "unat (sa_offset (vr_allocation r) + sa_size (vr_allocation r)) = sa_end (vr_allocation r)"
    "unat first + unat bytes \<le> sa_end (vr_allocation r)" "sa_end (vr_allocation r) < 2 ^ 64"
    using b less by (simp_all add: word_le_nat_alt unat_gt_0 a_def)
qed

lemma normalize_range_Inr:
  assumes norm: "normalize_range atom r first bytes = Inr g"
  shows "range_ok g \<and> {unat first ..< unat first + unat bytes} \<subseteq> bytes_of g \<and>
    bytes_of g \<subseteq> {sa_first (vr_allocation r) ..< sa_end (vr_allocation r)}"
proof (cases "vr_host_coherent r")
  case True
  then have "g = \<lparr>rg_offset = first, rg_size = bytes\<rparr>"
    using norm by (auto simp: normalize_range_def Let_def split: if_splits)
  then show ?thesis
    using normalize_range_bounds [OF norm] by (auto simp: range_ok_def bytes_of_def)
next
  case False
  note b = normalize_range_bounds [OF norm]
  define lo hi where "lo = (first div atom) * atom"
    and "hi = ((first + bytes + atom - 1) div atom) * atom"
  have g: "g = \<lparr>rg_offset = lo, rg_size = hi - lo\<rparr>" "atom \<noteq> 0"
      "\<not> -1 - (atom - 1) < first + bytes" "sa_offset (vr_allocation r) \<le> lo"
      "hi \<le> sa_offset (vr_allocation r) + sa_size (vr_allocation r)"
    using norm False by (auto simp: normalize_range_def Let_def lo_def hi_def split: if_splits)
  have "first \<le> first + bytes"
    using b(3) by (simp add: word_le_nat_alt)
  note al = aligned_bounds [OF g(2,3) this lo_def hi_def]
  have "rg_first g = unat lo" "rg_end g = unat hi" "unat (rg_size g) = unat hi - unat lo"
    using al b by (simp_all add: g(1))
  moreover have "sa_first (vr_allocation r) \<le> unat lo" "unat hi \<le> sa_end (vr_allocation r)"
    using g(4,5) by (simp_all add: word_le_nat_alt b(4))
  ultimately show ?thesis
    using al b unsigned_less [of hi, where ?'a = nat] by (auto simp: range_ok_def bytes_of_def)
qed

section \<open>Records\<close>

text \<open>Whether a record admits an access, and what the access makes of it.\<close>

definition record_status ::
  "visibility_access \<Rightarrow> u64 \<Rightarrow> visibility_range \<Rightarrow> visibility_record \<Rightarrow> visibility_status" where
  "record_status k completed g r =
    (if completed < vr_in_flight r then VisBusy
     else if vr_host_coherent r then VisSuccess
     else case k of
       HostWrite \<Rightarrow> if list_ex (\<lambda>d. overlaps d g) (vr_device_dirty r) then VisInvalidateRequired
         else VisSuccess
     | HostRead \<Rightarrow> if list_ex (\<lambda>d. overlaps d g) (vr_device_dirty r) then VisInvalidateRequired
         else VisSuccess
     | DeviceRead t \<Rightarrow> if list_ex (\<lambda>d. overlaps d g) (vr_host_dirty r) then VisFlushRequired
         else VisSuccess
     | DeviceWrite t \<Rightarrow> if list_ex (\<lambda>d. overlaps d g) (vr_host_dirty r) then VisFlushRequired
         else VisSuccess
     | _ \<Rightarrow> VisSuccess)"

definition access_record ::
  "visibility_access \<Rightarrow> visibility_range \<Rightarrow> visibility_record \<Rightarrow> visibility_record" where
  "access_record k g r = (case k of
      HostWrite \<Rightarrow> if vr_host_coherent r then r
        else r\<lparr>vr_host_dirty := add_range (vr_host_dirty r) g\<rparr>
    | FlushHost \<Rightarrow> if vr_host_coherent r then r
        else r\<lparr>vr_host_dirty := remove_range (vr_host_dirty r) g\<rparr>
    | DeviceRead t \<Rightarrow> r\<lparr>vr_in_flight := t\<rparr>
    | DeviceWrite t \<Rightarrow> if vr_host_coherent r then r\<lparr>vr_in_flight := t\<rparr>
        else r\<lparr>vr_in_flight := t, vr_device_dirty := add_range (vr_device_dirty r) g\<rparr>
    | InvalidateHost \<Rightarrow> if vr_host_coherent r then r
        else r\<lparr>vr_device_dirty := remove_range (vr_device_dirty r) g\<rparr>
    | HostRead \<Rightarrow> r)"

definition submission_status :: "visibility_access \<Rightarrow> u64 \<Rightarrow> visibility_ledger \<Rightarrow> visibility_status" where
  "submission_status k generation l = (case k of
      DeviceRead t \<Rightarrow> check_submission generation t l
    | DeviceWrite t \<Rightarrow> check_submission generation t l
    | _ \<Rightarrow> VisSuccess)"

lemma same_allocation_eq: "same_allocation a b \<longleftrightarrow> b = a"
  by (auto simp: same_allocation_def intro!: staging_allocation.equality)

lemma check_access_index:
  assumes "check_access a first bytes generation l = Inr (g, i)"
  shows "i < length (vl_records l)" "vr_allocation (vl_records l ! i) = a"
    "normalize_range (vl_atom l) (vl_records l ! i) first bytes = Inr g"
proof -
  have f: "find_record a l = Some i"
      "normalize_range (vl_atom l) (vl_records l ! i) first bytes = Inr g"
    using assms by (auto simp: check_access_def split: if_splits option.splits sum.splits)
  then show "i < length (vl_records l)" "vr_allocation (vl_records l ! i) = a"
    "normalize_range (vl_atom l) (vl_records l ! i) first bytes = Inr g"
    using find_index_Some [OF f(1) [unfolded find_record_def]]
    by (auto simp: same_allocation_eq)
qed

lemma put_record_same: "put_record i (vl_records l ! i) l = l"
  by (simp add: put_record_def)

text \<open>Every access is the same sequence of checks, followed by its effect on one record.\<close>

lemma perform_access_eq:
  "perform_access k a first bytes generation l = (case check_access a first bytes generation l of
      Inl status \<Rightarrow> (status, l)
    | Inr (g, i) \<Rightarrow>
      if submission_status k generation l \<noteq> VisSuccess then (submission_status k generation l, l)
      else let status = record_status k (vl_completed l) g (vl_records l ! i) in
        (status, if status = VisSuccess then put_record i (access_record k g (vl_records l ! i)) l
          else l))"
proof (cases "check_access a first bytes generation l")
  case (Inl status)
  then show ?thesis
    by (cases k) (simp_all add: host_write_def flush_def device_read_def device_write_def
        invalidate_def host_read_def)
next
  case (Inr gi)
  then show ?thesis
    by (cases k; cases gi) (simp_all add: host_write_def flush_def device_read_def device_write_def
        invalidate_def host_read_def Let_def submission_status_def record_status_def
        access_record_def put_record_same)
qed

subsection \<open>The abstract record\<close>

record byte_record =
  br_coherent :: bool
  br_in_flight :: u64
  br_host :: "nat set"
  br_device :: "nat set"

definition abs_record :: "visibility_record \<Rightarrow> byte_record" where
  "abs_record r = \<lparr>br_coherent = vr_host_coherent r, br_in_flight = vr_in_flight r,
    br_host = covered (vr_host_dirty r), br_device = covered (vr_device_dirty r)\<rparr>"

text \<open>The protocol on sets of bytes: who may touch what, and which bytes become dirty or clean.\<close>

definition spec_access ::
  "visibility_access \<Rightarrow> u64 \<Rightarrow> nat set \<Rightarrow> byte_record \<Rightarrow> visibility_status \<times> byte_record" where
  "spec_access k completed bs b =
    (if completed < br_in_flight b then (VisBusy, b)
     else let coherent = br_coherent b in case k of
       HostWrite \<Rightarrow> if \<not> coherent \<and> br_device b \<inter> bs \<noteq> {} then (VisInvalidateRequired, b)
         else (VisSuccess, if coherent then b else b\<lparr>br_host := br_host b \<union> bs\<rparr>)
     | FlushHost \<Rightarrow> (VisSuccess, if coherent then b else b\<lparr>br_host := br_host b - bs\<rparr>)
     | DeviceRead t \<Rightarrow> if \<not> coherent \<and> br_host b \<inter> bs \<noteq> {} then (VisFlushRequired, b)
         else (VisSuccess, b\<lparr>br_in_flight := t\<rparr>)
     | DeviceWrite t \<Rightarrow> if \<not> coherent \<and> br_host b \<inter> bs \<noteq> {} then (VisFlushRequired, b)
         else (VisSuccess, if coherent then b\<lparr>br_in_flight := t\<rparr>
           else b\<lparr>br_in_flight := t, br_device := br_device b \<union> bs\<rparr>)
     | InvalidateHost \<Rightarrow> (VisSuccess, if coherent then b else b\<lparr>br_device := br_device b - bs\<rparr>)
     | HostRead \<Rightarrow> if \<not> coherent \<and> br_device b \<inter> bs \<noteq> {} then (VisInvalidateRequired, b)
         else (VisSuccess, b))"

definition record_ok :: "visibility_record \<Rightarrow> bool" where
  "record_ok r \<longleftrightarrow> ranges_inv (vr_host_dirty r) \<and> ranges_inv (vr_device_dirty r) \<and>
    covered (vr_host_dirty r) \<inter> covered (vr_device_dirty r) = {} \<and>
    (vr_host_coherent r \<longrightarrow> covered (vr_host_dirty r) = {} \<and> covered (vr_device_dirty r) = {}) \<and>
    covered (vr_host_dirty r) \<union> covered (vr_device_dirty r) \<subseteq>
      {sa_first (vr_allocation r) ..< sa_end (vr_allocation r)}"

lemma access_record_refines:
  assumes ok: "record_ok r" and g: "range_ok g"
    and st: "record_status k completed g r = status"
  shows "spec_access k completed (bytes_of g) (abs_record r) =
    (status, abs_record (if status = VisSuccess then access_record k g r else r))"
  using ok any_overlap_bytes [OF _ g, of "vr_host_dirty r"] any_overlap_bytes [OF _ g, of "vr_device_dirty r"]
    add_range_covers(1) [OF _ g, of "vr_host_dirty r"] add_range_covers(1) [OF _ g, of "vr_device_dirty r"]
    remove_range_covers(1) [OF _ g, of "vr_host_dirty r"]
    remove_range_covers(1) [OF _ g, of "vr_device_dirty r"]
  unfolding st [symmetric]
  by (cases k) (simp_all add: record_status_def access_record_def spec_access_def abs_record_def
      record_ok_def Let_def)

lemma access_record_ok:
  assumes ok: "record_ok r" and g: "range_ok g"
    and inside: "bytes_of g \<subseteq> {sa_first (vr_allocation r) ..< sa_end (vr_allocation r)}"
    and st: "record_status k completed g r = VisSuccess"
  shows "record_ok (access_record k g r)" "vr_allocation (access_record k g r) = vr_allocation r"
    "vr_host_coherent (access_record k g r) = vr_host_coherent r"
proof -
  have h: "ranges_inv (vr_host_dirty r)" "ranges_inv (vr_device_dirty r)"
    using ok by (simp_all add: record_ok_def)
  note add = add_range_covers [OF h(1) g] add_range_covers [OF h(2) g]
    and rem = remove_range_covers [OF h(1) g] remove_range_covers [OF h(2) g]
    and any = any_overlap_bytes [OF h(1) g] any_overlap_bytes [OF h(2) g]
  show "record_ok (access_record k g r)"
    using ok inside st
    by (cases k) (auto simp: record_ok_def access_record_def record_status_def add rem any
        split: if_splits)
  show "vr_allocation (access_record k g r) = vr_allocation r"
    "vr_host_coherent (access_record k g r) = vr_host_coherent r"
    by (cases k; simp add: access_record_def)+
qed

section \<open>The ledger\<close>

definition visibility_inv :: "visibility_ledger \<Rightarrow> bool" where
  "visibility_inv l \<longleftrightarrow> (\<forall>r \<in> set (vl_records l). record_ok r) \<and>
    distinct (map vr_allocation (vl_records l))"

lemma find_record_None:
  "find_record a l = None \<longleftrightarrow> a \<notin> vr_allocation ` set (vl_records l)"
  by (auto simp: find_record_def find_index_None same_allocation_eq)

lemma check_access_error: "check_access a first bytes generation l \<noteq> Inl VisSuccess"
  by (auto simp: check_access_def normalize_range_def generation_error_def Let_def
      split: option.splits sum.splits if_splits)

lemma perform_access_Success:
  assumes "perform_access k a first bytes generation l = (VisSuccess, l')"
  obtains g i where "check_access a first bytes generation l = Inr (g, i)"
    "record_status k (vl_completed l) g (vl_records l ! i) = VisSuccess"
    "l' = put_record i (access_record k g (vl_records l ! i)) l"
  using assms check_access_error [of a first bytes generation l]
  by (auto simp: perform_access_eq Let_def split: sum.splits prod.splits if_splits)

lemma perform_access_refused:
  assumes "perform_access k a first bytes generation l = (status, l')" "status \<noteq> VisSuccess"
  shows "l' = l"
  using assms by (auto simp: perform_access_eq Let_def split: sum.splits prod.splits if_splits)

lemma put_record_inv:
  assumes inv: "visibility_inv l" and i: "i < length (vl_records l)"
    and r: "record_ok r" "vr_allocation r = vr_allocation (vl_records l ! i)"
  shows "visibility_inv (put_record i r l)"
proof -
  have "map vr_allocation ((vl_records l)[i := r]) = map vr_allocation (vl_records l)"
    using i r(2) by (simp add: map_update list_update_same_conv)
  then show ?thesis
    using inv r(1) set_update_subset_insert [of "vl_records l" i r]
    by (auto simp: visibility_inv_def put_record_def)
qed

lemma perform_access_inv:
  assumes inv: "visibility_inv l"
  shows "visibility_inv (snd (perform_access k a first bytes generation l))"
proof (cases "fst (perform_access k a first bytes generation l) = VisSuccess")
  case False
  then show ?thesis
    using inv perform_access_refused [of k a first bytes generation l] by (metis prod.collapse)
next
  case True
  then obtain g i where s: "check_access a first bytes generation l = Inr (g, i)"
    "record_status k (vl_completed l) g (vl_records l ! i) = VisSuccess"
    "snd (perform_access k a first bytes generation l) =
      put_record i (access_record k g (vl_records l ! i)) l"
    by (metis perform_access_Success prod.collapse)
  note i = check_access_index [OF s(1)]
  have ok: "record_ok (vl_records l ! i)"
    using inv i(1) by (simp add: visibility_inv_def)
  show ?thesis
    unfolding s(3) using normalize_range_Inr [OF i(3)] access_record_ok [OF ok _ _ s(2)]
    by (intro put_record_inv [OF inv i(1)]) simp_all
qed

lemma erase_at_subset: "set (erase_at i xs) \<subseteq> set xs"
  by (auto simp: erase_at_def dest: in_set_takeD in_set_dropD)

lemma erase_at_distinct: "distinct (map f xs) \<Longrightarrow> distinct (map f (erase_at i xs))"
  by (simp add: erase_at_def take_map [symmetric] drop_map [symmetric] set_take_disj_set_drop_if_distinct)

lemma visibility_step_inv: "visibility_inv l \<Longrightarrow> visibility_inv (visibility_step c l)"
proof (cases c)
  case (Access k a first bytes g)
  then show "visibility_inv l \<Longrightarrow> ?thesis"
    by (simp add: visibility_step_def perform_access_inv)
next
  case (UnregisterAllocation a)
  then show "visibility_inv l \<Longrightarrow> ?thesis"
    using erase_at_subset [of _ "vl_records l"]
    by (auto simp: visibility_step_def unregister_allocation_def visibility_inv_def erase_at_distinct
        split: option.splits)
qed (auto simp: visibility_step_def visibility_inv_def visibility_configure_def
    register_allocation_def visibility_submit_def visibility_complete_def find_record_None
    record_ok_def)

interpretation visibility: invariant_component visibility_step visibility_inv
  by unfold_locales (rule visibility_step_inv)

abbreviation reachable_visibility :: "visibility_call list \<Rightarrow> visibility_ledger" where
  "reachable_visibility calls \<equiv> run_ops visibility_step calls empty_visibility"

lemma reachable_visibility_inv: "visibility_inv (reachable_visibility calls)"
  by (rule visibility.run_inv) (simp add: visibility_inv_def empty_visibility_def)

section \<open>Two views of one allocation\<close>

text \<open>
  What host and device see of the bytes of one allocation. A host write to memory that is not
  coherent is \<open>pending\<close> until it is flushed. A flush carries the pending bytes of its range to the
  device; an invalidation makes the host read its range from the device again, and a write that is
  still pending there is lost. \<open>latest\<close> is the byte written last by either side. These are the rules
  of mapped memory in Vulkan; the ledger does not take part in them.
\<close>

record memory_views =
  mv_host :: "nat \<Rightarrow> u8"
  mv_device :: "nat \<Rightarrow> u8"
  mv_latest :: "nat \<Rightarrow> u8"
  mv_pending :: "nat set"
  mv_lost :: bool

definition views_access :: "visibility_access \<Rightarrow> bool \<Rightarrow> nat set \<Rightarrow> nat set \<Rightarrow> (nat \<Rightarrow> u8) \<Rightarrow>
    memory_views \<Rightarrow> memory_views" where
  "views_access k coherent ws bs v m = (case k of
      HostWrite \<Rightarrow> m\<lparr>mv_host := override_on (mv_host m) v ws, mv_latest := override_on (mv_latest m) v ws,
        mv_device := if coherent then override_on (mv_device m) v ws else mv_device m,
        mv_pending := if coherent then mv_pending m else mv_pending m \<union> ws\<rparr>
    | FlushHost \<Rightarrow> if coherent then m else m\<lparr>
        mv_device := override_on (mv_device m) (mv_host m) (bs \<inter> mv_pending m),
        mv_pending := mv_pending m - bs\<rparr>
    | DeviceWrite t \<Rightarrow> m\<lparr>mv_device := override_on (mv_device m) v ws,
        mv_latest := override_on (mv_latest m) v ws,
        mv_host := if coherent then override_on (mv_host m) v ws else mv_host m\<rparr>
    | InvalidateHost \<Rightarrow> if coherent then m else m\<lparr>
        mv_host := override_on (mv_host m) (mv_device m) bs,
        mv_lost := mv_lost m \<or> bs \<inter> mv_pending m \<noteq> {}, mv_pending := mv_pending m - bs\<rparr>
    | _ \<Rightarrow> m)"

text \<open>A call with the bytes it writes, and the views of allocation \<open>a\<close> that it leads to.\<close>

definition views_step :: "staging_allocation \<Rightarrow> visibility_call \<times> (nat \<Rightarrow> u8) \<Rightarrow>
    visibility_ledger \<times> memory_views \<Rightarrow> visibility_ledger \<times> memory_views" where
  "views_step a cv lm = (case (cv, lm) of ((c, v), (l, m)) \<Rightarrow> (visibility_step c l,
    if fst (perform_call c l) \<noteq> VisSuccess then m else case c of
      Access k b first bytes generation \<Rightarrow> (case check_access b first bytes generation l of
          Inl _ \<Rightarrow> m
        | Inr (g, i) \<Rightarrow> if b \<noteq> a then m else views_access k (vr_host_coherent (vl_records l ! i))
            {unat first ..< unat first + unat bytes} (bytes_of g) v m)
    | RegisterAllocation b coherent \<Rightarrow> if b \<noteq> a then m
        else m\<lparr>mv_host := mv_device m, mv_latest := mv_device m, mv_pending := {}, mv_lost := False\<rparr>
    | _ \<Rightarrow> m))"

definition views_ok :: "visibility_record \<Rightarrow> memory_views \<Rightarrow> bool" where
  "views_ok r m \<longleftrightarrow> mv_lost m \<or>
    mv_pending m \<subseteq> covered (vr_host_dirty r) \<and>
    (\<forall>n. n \<notin> covered (vr_device_dirty r) \<longrightarrow> mv_host m n = mv_latest m n) \<and>
    (\<forall>n. n \<notin> mv_pending m \<longrightarrow> mv_device m n = mv_latest m n)"

definition views_inv :: "staging_allocation \<Rightarrow> visibility_ledger \<times> memory_views \<Rightarrow> bool" where
  "views_inv a lm \<longleftrightarrow> visibility_inv (fst lm) \<and>
    (\<forall>r \<in> set (vl_records (fst lm)). vr_allocation r = a \<longrightarrow> views_ok r (snd lm))"

lemma views_access_ok:
  assumes ok: "record_ok r" and g: "range_ok g" and ws: "ws \<subseteq> bytes_of g"
    and st: "record_status k completed g r = VisSuccess" and views: "views_ok r m"
  shows "views_ok (access_record k g r) (views_access k (vr_host_coherent r) ws (bytes_of g) v m)"
proof -
  have h: "ranges_inv (vr_host_dirty r)" "ranges_inv (vr_device_dirty r)"
    using ok by (simp_all add: record_ok_def)
  note add = add_range_covers [OF h(1) g] add_range_covers [OF h(2) g]
    and rem = remove_range_covers [OF h(1) g] remove_range_covers [OF h(2) g]
    and any = any_overlap_bytes [OF h(1) g] any_overlap_bytes [OF h(2) g]
  show ?thesis
  proof (cases k)
    case HostWrite
    then show ?thesis
      using ok ws st views by (auto simp: record_ok_def views_ok_def access_record_def
          views_access_def record_status_def override_on_def add any split: if_splits)
  next
    case FlushHost
    then show ?thesis
      using ok ws st views by (auto simp: record_ok_def views_ok_def access_record_def
          views_access_def record_status_def override_on_def rem split: if_splits)
  next
    case (DeviceRead t)
    then show ?thesis
      using views by (simp add: views_ok_def access_record_def views_access_def)
  next
    case (DeviceWrite t)
    then show ?thesis
      using ok ws st views by (auto simp: record_ok_def views_ok_def access_record_def
          views_access_def record_status_def override_on_def add any split: if_splits)
  next
    case InvalidateHost
    then show ?thesis
      using ok ws st views by (auto simp: record_ok_def views_ok_def access_record_def
          views_access_def record_status_def override_on_def rem split: if_splits)
  next
    case HostRead
    then show ?thesis
      using views by (simp add: views_ok_def access_record_def views_access_def)
  qed
qed

lemma views_step_simps:
  "fst (views_step a (c, v) (l, m)) = visibility_step c l"
  by (simp add: views_step_def)

lemma views_access_inv:
  assumes inv: "visibility_inv l"
    and views: "\<forall>r \<in> set (vl_records l). vr_allocation r = a \<longrightarrow> views_ok r m"
    and acc: "perform_access k a first bytes generation l = (VisSuccess, l')"
    and chk: "check_access a first bytes generation l = Inr (g, i)"
    and r: "r \<in> set (vl_records l')" "vr_allocation r = a"
  shows "views_ok r (views_access k (vr_host_coherent (vl_records l ! i))
    {unat first ..< unat first + unat bytes} (bytes_of g) v m)"
proof -
  note i = check_access_index [OF chk]
  have st: "record_status k (vl_completed l) g (vl_records l ! i) = VisSuccess"
      "l' = put_record i (access_record k g (vl_records l ! i)) l"
    using perform_access_Success [OF acc] chk by (metis Inr_inject prod.inject)+
  obtain j where j: "j < length (vl_records l)" "r = vl_records l' ! j"
    using r(1) by (auto simp: st(2) put_record_def in_set_conv_nth)
  have "j = i"
  proof (rule ccontr)
    assume "j \<noteq> i"
    then have "vr_allocation (vl_records l ! j) = vr_allocation (vl_records l ! i)"
      using r(2) j i(2) by (simp add: st(2) put_record_def)
    then show False
      using inv \<open>j \<noteq> i\<close> j(1) i(1) by (auto simp: visibility_inv_def distinct_conv_nth)
  qed
  then have "r = access_record k g (vl_records l ! i)"
    using j i(1) by (simp add: st(2) put_record_def)
  then show ?thesis
    using views_access_ok [OF _ _ _ st(1)] normalize_range_Inr [OF i(3)] inv views i
    by (simp add: visibility_inv_def)
qed

lemma other_access_records:
  assumes acc: "perform_access k b first bytes generation l = (status, l')" and ne: "b \<noteq> a"
    and r: "r \<in> set (vl_records l')" "vr_allocation r = a"
  shows "r \<in> set (vl_records l)"
proof (cases "status = VisSuccess")
  case True
  then obtain g i where s: "check_access b first bytes generation l = Inr (g, i)"
      "l' = put_record i (access_record k g (vl_records l ! i)) l"
    using acc perform_access_Success by metis
  have "vr_allocation (access_record k g (vl_records l ! i)) = b"
    using check_access_index(2) [OF s(1)] by (cases k) (simp_all add: access_record_def)
  then show ?thesis
    using r ne s(2) set_update_subset_insert [of "vl_records l" i] by (auto simp: put_record_def)
next
  case False
  then show ?thesis
    using perform_access_refused [OF acc] r by simp
qed

lemma views_step_access:
  assumes inv: "views_inv a (l, m)"
  shows "views_inv a (views_step a (Access k b first bytes generation, v) (l, m))"
proof -
  have l: "visibility_inv l" and views: "\<forall>r \<in> set (vl_records l). vr_allocation r = a \<longrightarrow> views_ok r m"
    using inv by (simp_all add: views_inv_def)
  obtain status l' where acc: "perform_access k b first bytes generation l = (status, l')"
    by (metis prod.collapse)
  have l': "visibility_inv l'"
    using perform_access_inv [OF l, of k b first bytes generation] acc by simp
  show ?thesis
  proof (cases "status = VisSuccess \<and> b = a")
    case True
    then obtain g i where chk: "check_access a first bytes generation l = Inr (g, i)"
      using acc perform_access_Success by metis
    have "views_ok r (views_access k (vr_host_coherent (vl_records l ! i))
        {unat first ..< unat first + unat bytes} (bytes_of g) v m)"
      if "r \<in> set (vl_records l')" "vr_allocation r = a" for r
      using views_access_inv [OF l views _ chk that] acc True by simp
    then show ?thesis
      using True acc chk l' by (simp add: views_inv_def views_step_def visibility_step_def)
  next
    case False
    have same: "snd (views_step a (Access k b first bytes generation, v) (l, m)) = m"
      using False acc by (auto simp: views_step_def split: sum.splits)
    have "r \<in> set (vl_records l)" if "r \<in> set (vl_records l')" "vr_allocation r = a" for r
      using False perform_access_refused [OF acc] other_access_records [OF acc _ that] that
      by (cases "status = VisSuccess") auto
    then show ?thesis
      using views l' acc by (simp add: views_inv_def same views_step_simps visibility_step_def)
  qed
qed

lemma views_step_register:
  assumes inv: "views_inv a (l, m)"
  shows "views_inv a (views_step a (RegisterAllocation b coherent, v) (l, m))"
proof -
  have l': "visibility_inv (visibility_step (RegisterAllocation b coherent) l)"
    using inv visibility_step_inv by (simp add: views_inv_def)
  show ?thesis
    using inv l' find_record_None [of a l]
    by (auto simp: views_inv_def views_step_def visibility_step_def register_allocation_def
        views_ok_def split: if_splits)
qed

lemma views_step_inv:
  assumes inv: "views_inv a (l, m)"
  shows "views_inv a (views_step a (c, v) (l, m))"
proof -
  have l': "visibility_inv (visibility_step c l)"
    using inv visibility_step_inv by (simp add: views_inv_def)
  show ?thesis
  proof (cases c)
    case (Access k b first bytes generation)
    then show ?thesis
      using views_step_access [OF inv] by simp
  next
    case (RegisterAllocation b coherent)
    then show ?thesis
      using views_step_register [OF inv] by simp
  next
    case (UnregisterAllocation b)
    then show ?thesis
      using inv l' erase_at_subset [of _ "vl_records l"]
      by (auto simp: views_inv_def views_step_def visibility_step_def unregister_allocation_def
          split: option.splits)
  qed (use inv l' in \<open>auto simp: views_inv_def views_step_def visibility_step_def
      visibility_configure_def visibility_submit_def visibility_complete_def\<close>)
qed

interpretation views: invariant_component "views_step a" "views_inv a" for a
  by unfold_locales (metis views_step_inv prod.collapse)


section \<open>What the ledger promises\<close>

text \<open>C18. The visibility ledger keeps exact byte sets. In every reachable ledger, an access that passes
  the checks of allocation, range and submission does to its record what the protocol on sets of
  bytes says: it is refused as busy, for a missing flush or for a missing invalidation exactly when
  the set of bytes dirty on the other side meets the normalised range, and otherwise adds the range
  to a set or removes it from a set. The normalised range contains the bytes asked for, stays inside
  the allocation, and no other record changes. Merging and splitting sorted ranges, with the end of
  the added range read only once, therefore loses no byte and adds none.\<close>

theorem visibility_ledger_refines_byte_sets:
  assumes "l = reachable_visibility calls"
    and "check_access a first bytes generation l = Inr (g, i)"
    and "submission_status k generation l = VisSuccess"
    and "perform_access k a first bytes generation l = (status, l')"
  shows "spec_access k (vl_completed l) (bytes_of g) (abs_record (vl_records l ! i)) =
      (status, abs_record (vl_records l' ! i)) \<and>
    {unat first ..< unat first + unat bytes} \<subseteq> bytes_of g \<and>
    bytes_of g \<subseteq> {unat (sa_offset a) ..< unat (sa_offset a) + unat (sa_size a)} \<and>
    length (vl_records l') = length (vl_records l) \<and>
    (\<forall>j. j \<noteq> i \<longrightarrow> vl_records l' ! j = vl_records l ! j)"
proof -
  have inv: "visibility_inv l"
    unfolding assms(1) by (rule reachable_visibility_inv)
  note i = check_access_index [OF assms(2)]
  note norm = normalize_range_Inr [OF i(3)]
  have ok: "record_ok (vl_records l ! i)"
    using inv i(1) by (simp add: visibility_inv_def)
  have st: "record_status k (vl_completed l) g (vl_records l ! i) = status"
      "l' = (if status = VisSuccess then put_record i (access_record k g (vl_records l ! i)) l else l)"
    using assms(2-4) by (auto simp: perform_access_eq Let_def)
  have "spec_access k (vl_completed l) (bytes_of g) (abs_record (vl_records l ! i)) =
      (status, abs_record (vl_records l' ! i))"
    using access_record_refines [OF ok norm [THEN conjunct1] st(1)] i(1)
    by (simp add: st(2) put_record_def)
  then show ?thesis
    using norm i by (simp add: st(2) put_record_def)
qed

definition sample_token :: staging_allocation where
  "sample_token = \<lparr>sa_id = 1, sa_generation = 1, sa_offset = 0, sa_size = 128, sa_alignment = 64\<rparr>"

definition sample_writes :: "visibility_call list" where
  "sample_writes = [ConfigureVisibility 1 64, RegisterAllocation sample_token False,
    Access HostWrite sample_token 3 2 1, SubmitTimeline 1 1]"

theorem visibility_ledger_refines_byte_sets_witness:
  "fst (perform_access (DeviceRead 1) sample_token 60 1 1 (reachable_visibility sample_writes)) =
      VisFlushRequired \<and>
    fst (spec_access (DeviceRead 1) 0 {0 ..< 64}
      (abs_record (vl_records (reachable_visibility sample_writes) ! 0))) = VisFlushRequired"
proof -
  have here: "check_access sample_token 60 1 1 (reachable_visibility sample_writes) =
      Inr (\<lparr>rg_offset = 0, rg_size = 64\<rparr>, 0)"
    "submission_status (DeviceRead 1) 1 (reachable_visibility sample_writes) = VisSuccess"
    "vl_completed (reachable_visibility sample_writes) = 0"
    "fst (perform_access (DeviceRead 1) sample_token 60 1 1 (reachable_visibility sample_writes)) =
      VisFlushRequired"
    by code_simp+
  have "bytes_of \<lparr>rg_offset = 0, rg_size = 64\<rparr> = {0 ..< 64}"
    by (simp add: bytes_of_def)
  then show ?thesis
    using visibility_ledger_refines_byte_sets [OF refl here(1,2) prod.collapse [symmetric]] here(3,4)
    by simp
qed






end
