(* ===== verification/VulkanExternal.thy ===== *)
theory VulkanExternal
  imports VulkanMemory
begin

unbundle bit_operations_syntax

text \<open>
  Import of external memory (\<open>ExternalMemoryLedger\<close> and \<open>ExternalMemoryHandleLedger\<close> of \<open>memory.cpp\<close>,
  and the profile of \<open>contracts/.../vulkan_memory.h\<close>): which imports are admitted, how they are counted
  and revoked, and who owns the duplicated file descriptors. The system calls are visible as a log of
  descriptors opened and closed; the descriptor a duplication returns is a parameter. Whether a vector
  can grow is an argument of the operations that append to one. A null output is not modelled.
\<close>

section \<open>The profile\<close>

record external_profile =
  ep_struct_size :: u32
  ep_abi_version :: u32
  ep_tier :: u32
  ep_handle_type :: u32
  ep_sync_type :: u32
  ep_flags :: u32
  ep_memory_type_bits :: u32
  ep_size :: u64
  ep_alignment :: u64
  ep_generation :: u64
  ep_permissions :: u64

definition MF_VULKAN_EXTERNAL_MEMORY_ABI_VERSION_0 :: u32 where
  "MF_VULKAN_EXTERNAL_MEMORY_ABI_VERSION_0 = 0"
definition MF_VULKAN_MEMORY_TIER_OPAQUE_FD_V0 :: u32 where "MF_VULKAN_MEMORY_TIER_OPAQUE_FD_V0 = 1"
definition MF_VULKAN_MEMORY_TIER_DMA_BUF_V0 :: u32 where "MF_VULKAN_MEMORY_TIER_DMA_BUF_V0 = 2"
definition MF_VULKAN_MEMORY_TIER_STAGING_V0 :: u32 where "MF_VULKAN_MEMORY_TIER_STAGING_V0 = 3"
definition MF_VULKAN_MEMORY_HANDLE_NONE_V0 :: u32 where "MF_VULKAN_MEMORY_HANDLE_NONE_V0 = 0"
definition MF_VULKAN_MEMORY_HANDLE_OPAQUE_FD_V0 :: u32 where
  "MF_VULKAN_MEMORY_HANDLE_OPAQUE_FD_V0 = 1"
definition MF_VULKAN_MEMORY_HANDLE_DMA_BUF_V0 :: u32 where "MF_VULKAN_MEMORY_HANDLE_DMA_BUF_V0 = 2"
definition MF_VULKAN_MEMORY_SYNC_NONE_V0 :: u32 where "MF_VULKAN_MEMORY_SYNC_NONE_V0 = 0"
definition MF_VULKAN_MEMORY_FLAG_DIRECT_IMPORT_V0 :: u32 where
  "MF_VULKAN_MEMORY_FLAG_DIRECT_IMPORT_V0 = 8"
definition MF_VULKAN_MEMORY_FLAG_DEDICATED_ONLY_V0 :: u32 where
  "MF_VULKAN_MEMORY_FLAG_DEDICATED_ONLY_V0 = 16"

definition external_profile_valid :: "external_profile \<Rightarrow> bool" where
  "external_profile_valid p =
    (if ep_struct_size p \<noteq> 96 \<or> ep_abi_version p \<noteq> MF_VULKAN_EXTERNAL_MEMORY_ABI_VERSION_0 \<or>
        ep_size p = 0 \<or> ep_alignment p = 0 \<or> ep_generation p = 0 \<or> ep_memory_type_bits p = 0
     then False
     else if ep_tier p = MF_VULKAN_MEMORY_TIER_STAGING_V0
     then ep_handle_type p = MF_VULKAN_MEMORY_HANDLE_NONE_V0 \<and>
       ep_sync_type p = MF_VULKAN_MEMORY_SYNC_NONE_V0 \<and>
       ep_flags p AND MF_VULKAN_MEMORY_FLAG_DIRECT_IMPORT_V0 = 0
     else if ep_tier p = MF_VULKAN_MEMORY_TIER_OPAQUE_FD_V0
     then ep_handle_type p = MF_VULKAN_MEMORY_HANDLE_OPAQUE_FD_V0 \<and>
       ep_sync_type p \<noteq> MF_VULKAN_MEMORY_SYNC_NONE_V0 \<and>
       ep_flags p AND MF_VULKAN_MEMORY_FLAG_DIRECT_IMPORT_V0 \<noteq> 0
     else if ep_tier p = MF_VULKAN_MEMORY_TIER_DMA_BUF_V0
     then ep_handle_type p = MF_VULKAN_MEMORY_HANDLE_DMA_BUF_V0 \<and>
       ep_sync_type p \<noteq> MF_VULKAN_MEMORY_SYNC_NONE_V0 \<and>
       ep_flags p AND MF_VULKAN_MEMORY_FLAG_DIRECT_IMPORT_V0 \<noteq> 0
     else False)"

section \<open>The ledger of imports\<close>

datatype external_status =
    ExtSuccess | ExtInvalidArgument | ExtUnsupported | ExtStaleGeneration | ExtNotFound | ExtBusy
  | ExtOverlap | ExtIncompatibleMemoryType | ExtIncompatibleHandle | ExtIncompatibleSync
  | ExtOwnershipConflict | ExtExhausted

record external_import =
  ei_id :: u64
  ei_generation :: u64
  ei_offset :: u64
  ei_size :: u64
  ei_alignment :: u64
  ei_references :: u64
  ei_memory_type_index :: u32
  ei_handle_type :: u32
  ei_sync_type :: u32
  ei_flags :: u32
  ei_permissions :: u64
  ei_revoked :: bool

record external_ledger =
  el_generation :: u64
  el_memory_type_bits :: u32
  el_handle_type_bits :: u32
  el_sync_type_bits :: u32
  el_capacity :: u64
  el_next_id :: u64
  el_imports :: "external_import list"

definition empty_external :: external_ledger where
  "empty_external = \<lparr>el_generation = 0, el_memory_type_bits = 0, el_handle_type_bits = 0,
    el_sync_type_bits = 0, el_capacity = 0, el_next_id = 1, el_imports = []\<rparr>"

definition external_configure :: "u64 \<Rightarrow> u32 \<Rightarrow> u32 \<Rightarrow> u32 \<Rightarrow> u64 \<Rightarrow> external_ledger \<Rightarrow>
    external_status \<times> external_ledger" where
  "external_configure generation memory_bits handle_bits sync_bits capacity l =
    (if generation = 0 \<or> memory_bits = 0 \<or> handle_bits = 0 \<or> sync_bits = 0
     then (ExtInvalidArgument, l)
     else if list_ex (\<lambda>i. ei_references i \<noteq> 0) (el_imports l) then (ExtBusy, l)
     else (ExtSuccess, \<lparr>el_generation = generation, el_memory_type_bits = memory_bits,
       el_handle_type_bits = handle_bits, el_sync_type_bits = sync_bits, el_capacity = capacity,
       el_next_id = 1, el_imports = []\<rparr>))"

definition range_overflows :: "u64 \<Rightarrow> u64 \<Rightarrow> bool" where
  "range_overflows first bytes \<longleftrightarrow> bytes = 0 \<or> -1 - bytes < first"

definition handle_bit :: "u32 \<Rightarrow> u32" where
  "handle_bit t = (if t = 0 \<or> 31 < t then 0 else push_bit (unat (t - 1)) 1)"

definition sync_bit :: "u32 \<Rightarrow> u32" where
  "sync_bit t = (if t = 0 \<or> 31 < t then 0 else push_bit (unat (t - 1)) 1)"

definition same_import :: "external_import \<Rightarrow> external_import \<Rightarrow> bool" where
  "same_import x y \<longleftrightarrow> ei_id x = ei_id y \<and> ei_generation x = ei_generation y \<and>
    ei_offset x = ei_offset y \<and> ei_size x = ei_size y \<and> ei_alignment x = ei_alignment y \<and>
    ei_memory_type_index x = ei_memory_type_index y \<and> ei_handle_type x = ei_handle_type y \<and>
    ei_sync_type x = ei_sync_type y \<and> ei_flags x = ei_flags y \<and> ei_permissions x = ei_permissions y"

definition find_import :: "external_import \<Rightarrow> external_ledger \<Rightarrow> nat option" where
  "find_import x l = find_index (\<lambda>current. same_import current x) (el_imports l)"

definition import_error ::
  "external_profile \<Rightarrow> u64 \<Rightarrow> u32 \<Rightarrow> external_ledger \<Rightarrow> external_status" where
  "import_error p first index l =
    (if el_generation l = 0 \<or> \<not> external_profile_valid p \<or>
        ep_flags p AND MF_VULKAN_MEMORY_FLAG_DIRECT_IMPORT_V0 = 0 then ExtInvalidArgument
     else if ep_generation p \<noteq> el_generation l then ExtStaleGeneration
     else if 32 \<le> index \<or> el_memory_type_bits l AND push_bit (unat index) 1 = 0 \<or>
        ep_memory_type_bits p AND push_bit (unat index) 1 = 0 then ExtIncompatibleMemoryType
     else if handle_bit (ep_handle_type p) = 0 \<or>
        el_handle_type_bits l AND handle_bit (ep_handle_type p) = 0 then ExtIncompatibleHandle
     else if sync_bit (ep_sync_type p) = 0 \<or>
        el_sync_type_bits l AND sync_bit (ep_sync_type p) = 0 then ExtIncompatibleSync
     else if first mod ep_alignment p \<noteq> 0 \<or> range_overflows first (ep_size p) \<or>
        ep_flags p AND MF_VULKAN_MEMORY_FLAG_DEDICATED_ONLY_V0 \<noteq> 0 \<and> first \<noteq> 0
     then ExtInvalidArgument
     else if el_capacity l \<noteq> 0 \<and> unat (el_capacity l) \<le> length (el_imports l) then ExtExhausted
     else if list_ex (\<lambda>c. \<not> (ei_revoked c \<or> ei_generation c \<noteq> el_generation l) \<and>
        first < ei_offset c + ei_size c \<and> ei_offset c < first + ep_size p) (el_imports l)
     then ExtOverlap
     else if el_next_id l = 0 \<or> el_next_id l = -1 then ExtExhausted
     else ExtSuccess)"

definition external_import_step :: "external_profile \<Rightarrow> u64 \<Rightarrow> u32 \<Rightarrow> bool \<Rightarrow> external_ledger \<Rightarrow>
    (external_status \<times> external_import option) \<times> external_ledger" where
  "external_import_step p first index grows l =
    (if import_error p first index l \<noteq> ExtSuccess then ((import_error p first index l, None), l)
     else let candidate = \<lparr>ei_id = el_next_id l, ei_generation = el_generation l, ei_offset = first,
         ei_size = ep_size p, ei_alignment = ep_alignment p, ei_references = 1,
         ei_memory_type_index = index, ei_handle_type = ep_handle_type p,
         ei_sync_type = ep_sync_type p, ei_flags = ep_flags p, ei_permissions = ep_permissions p,
         ei_revoked = False\<rparr>;
         l1 = l\<lparr>el_next_id := el_next_id l + 1\<rparr> in
       if \<not> grows then ((ExtExhausted, None), l1)
       else ((ExtSuccess, Some candidate), l1\<lparr>el_imports := el_imports l1 @ [candidate]\<rparr>))"

definition external_validate :: "external_import \<Rightarrow> external_ledger \<Rightarrow> external_status" where
  "external_validate x l =
    (if ei_generation x = 0 \<or> ei_generation x \<noteq> el_generation l then ExtStaleGeneration
     else (case find_import x l of None \<Rightarrow> ExtNotFound
     | Some i \<Rightarrow> if ei_revoked (el_imports l ! i) then ExtOwnershipConflict else ExtSuccess))"

definition missing_import :: "external_import \<Rightarrow> external_ledger \<Rightarrow> external_status" where
  "missing_import x l = (if ei_generation x \<noteq> el_generation l then ExtStaleGeneration else ExtNotFound)"

definition external_retain :: "external_import \<Rightarrow> external_ledger \<Rightarrow> external_status \<times> external_ledger"
where
  "external_retain x l = (case find_import x l of None \<Rightarrow> (missing_import x l, l)
    | Some i \<Rightarrow> let c = el_imports l ! i in
      if ei_revoked c \<or> ei_references c = -1 then (ExtOwnershipConflict, l)
      else (ExtSuccess, l\<lparr>el_imports := (el_imports l)[i := c\<lparr>ei_references := ei_references c + 1\<rparr>]\<rparr>))"

definition external_release :: "external_import \<Rightarrow> external_ledger \<Rightarrow> external_status \<times> external_ledger"
where
  "external_release x l = (case find_import x l of None \<Rightarrow> (missing_import x l, l)
    | Some i \<Rightarrow> let c = el_imports l ! i in
      if ei_references c = 0 then (ExtOwnershipConflict, l)
      else if ei_references c - 1 = 0 then (ExtSuccess, l\<lparr>el_imports := erase_at i (el_imports l)\<rparr>)
      else (ExtSuccess, l\<lparr>el_imports := (el_imports l)[i := c\<lparr>ei_references := ei_references c - 1\<rparr>]\<rparr>))"

definition external_revoke :: "external_import \<Rightarrow> external_ledger \<Rightarrow> external_status \<times> external_ledger"
where
  "external_revoke x l = (case find_import x l of None \<Rightarrow> (missing_import x l, l)
    | Some i \<Rightarrow> let c = el_imports l ! i in
      (if 1 < ei_references c then ExtBusy else ExtSuccess,
       l\<lparr>el_imports := (el_imports l)[i := c\<lparr>ei_revoked := True\<rparr>]\<rparr>))"

datatype external_call =
    ConfigureExternal u64 u32 u32 u32 u64
  | ImportExternal external_profile u64 u32 bool
  | RetainExternal external_import
  | ReleaseExternal external_import
  | RevokeExternal external_import

primrec external_step :: "external_call \<Rightarrow> external_ledger \<Rightarrow> external_ledger" where
  "external_step (ConfigureExternal g mb hb sb cap) l = snd (external_configure g mb hb sb cap l)"
| "external_step (ImportExternal p first index grows) l = snd (external_import_step p first index grows l)"
| "external_step (RetainExternal x) l = snd (external_retain x l)"
| "external_step (ReleaseExternal x) l = snd (external_release x l)"
| "external_step (RevokeExternal x) l = snd (external_revoke x l)"

section \<open>The ledger of handles\<close>

record handle_import =
  hi_allocation :: external_import
  hi_owned_fd :: int

datatype fd_event = FdDuplicated int | FdClosed int

record handle_ledger =
  hl_ledger :: external_ledger
  hl_handles :: "handle_import list"
  hl_log :: "fd_event list"

definition empty_handles :: handle_ledger where
  "empty_handles = \<lparr>hl_ledger = empty_external, hl_handles = [], hl_log = []\<rparr>"

definition open_fds :: "fd_event list \<Rightarrow> int set" where
  "open_fds log = fold (\<lambda>e fds. case e of FdDuplicated fd \<Rightarrow> insert fd fds | FdClosed fd \<Rightarrow> fds - {fd})
    log {}"

definition log_event :: "fd_event \<Rightarrow> handle_ledger \<Rightarrow> handle_ledger" where
  "log_event e h = h\<lparr>hl_log := hl_log h @ [e]\<rparr>"

definition close_fd :: "int \<Rightarrow> handle_ledger \<Rightarrow> handle_ledger" where
  "close_fd fd h = (if fd < 0 then h else log_event (FdClosed fd) h)"

definition handle_configure :: "u64 \<Rightarrow> u32 \<Rightarrow> u32 \<Rightarrow> u32 \<Rightarrow> u64 \<Rightarrow> handle_ledger \<Rightarrow>
    external_status \<times> handle_ledger" where
  "handle_configure generation memory_bits handle_bits sync_bits capacity h =
    (let (status, l) = external_configure generation memory_bits handle_bits sync_bits capacity
       (hl_ledger h) in
     if status \<noteq> ExtSuccess then (status, h\<lparr>hl_ledger := l\<rparr>)
     else (ExtSuccess, h\<lparr>hl_ledger := l, hl_handles := []\<rparr>))"

definition find_handle :: "handle_import \<Rightarrow> handle_ledger \<Rightarrow> nat option" where
  "find_handle x h = find_index (\<lambda>current. same_import (hi_allocation current) (hi_allocation x) \<and>
    hi_owned_fd current = hi_owned_fd x) (hl_handles h)"

text \<open>\<open>owned\<close> is what \<open>duplicate_fd\<close> returns for the source descriptor: negative on failure.\<close>

definition handle_import_fd :: "external_profile \<Rightarrow> int \<Rightarrow> int \<Rightarrow> u64 \<Rightarrow> u32 \<Rightarrow> bool \<Rightarrow> bool \<Rightarrow>
    handle_ledger \<Rightarrow> (external_status \<times> handle_import option) \<times> handle_ledger" where
  "handle_import_fd p source owned first index grows handles_grow h =
    (if source < 0 then ((ExtInvalidArgument, None), h)
     else if owned < 0 then ((ExtInvalidArgument, None), h)
     else let h1 = log_event (FdDuplicated owned) h;
         ((status, out), l) = external_import_step p first index grows (hl_ledger h1) in
       (case out of
         None \<Rightarrow> ((status, None), close_fd owned (h1\<lparr>hl_ledger := l\<rparr>))
       | Some a \<Rightarrow>
         if \<not> handles_grow
         then ((ExtExhausted, None), close_fd owned (h1\<lparr>hl_ledger := snd (external_release a l)\<rparr>))
         else let x = \<lparr>hi_allocation = a, hi_owned_fd = owned\<rparr> in
           ((ExtSuccess, Some x), h1\<lparr>hl_ledger := l, hl_handles := hl_handles h1 @ [x]\<rparr>)))"

definition missing_handle :: "handle_import \<Rightarrow> handle_ledger \<Rightarrow> external_status" where
  "missing_handle x h = (if ei_generation (hi_allocation x) \<noteq> el_generation (hl_ledger h)
    then ExtStaleGeneration else ExtNotFound)"

definition handle_retain :: "handle_import \<Rightarrow> handle_ledger \<Rightarrow> external_status \<times> handle_ledger" where
  "handle_retain x h = (case find_handle x h of None \<Rightarrow> (missing_handle x h, h)
    | Some i \<Rightarrow> let (status, l) = external_retain (hi_allocation x) (hl_ledger h) in
      (status, h\<lparr>hl_ledger := l\<rparr>))"

definition handle_release :: "handle_import \<Rightarrow> handle_ledger \<Rightarrow> external_status \<times> handle_ledger" where
  "handle_release x h = (case find_handle x h of None \<Rightarrow> (missing_handle x h, h)
    | Some i \<Rightarrow> let (status, l) = external_release (hi_allocation x) (hl_ledger h) in
      if status \<noteq> ExtSuccess then (status, h\<lparr>hl_ledger := l\<rparr>)
      else if length (el_imports l) < length (el_imports (hl_ledger h))
      then (ExtSuccess, close_fd (hi_owned_fd (hl_handles h ! i))
        (h\<lparr>hl_ledger := l, hl_handles := erase_at i (hl_handles h)\<rparr>))
      else (ExtSuccess, h\<lparr>hl_ledger := l\<rparr>))"

definition handle_revoke :: "handle_import \<Rightarrow> handle_ledger \<Rightarrow> external_status \<times> handle_ledger" where
  "handle_revoke x h = (case find_handle x h of None \<Rightarrow> (missing_handle x h, h)
    | Some i \<Rightarrow> let (status, l) = external_revoke (hi_allocation x) (hl_ledger h) in
      (status, h\<lparr>hl_ledger := l\<rparr>))"

definition handle_validate :: "handle_import \<Rightarrow> handle_ledger \<Rightarrow> external_status" where
  "handle_validate x h = (case find_handle x h of None \<Rightarrow> missing_handle x h
    | Some i \<Rightarrow> external_validate (hi_allocation x) (hl_ledger h))"

definition handle_destroy :: "handle_ledger \<Rightarrow> handle_ledger" where
  "handle_destroy h = fold (\<lambda>x. close_fd (hi_owned_fd x)) (hl_handles h) h"

datatype handle_call =
    ConfigureHandles u64 u32 u32 u32 u64
  | ImportFd external_profile int u64 u32 bool bool
  | RetainHandle handle_import
  | ReleaseHandle handle_import
  | RevokeHandle handle_import

text \<open>
  The system's duplication of descriptors: given the descriptors that are open and the source, a new
  descriptor that is not open, or a failure.
\<close>

definition dup_contract :: "(int set \<Rightarrow> int \<Rightarrow> int) \<Rightarrow> bool" where
  "dup_contract dup \<longleftrightarrow> (\<forall>fds source. 0 \<le> dup fds source \<longrightarrow> dup fds source \<notin> fds)"

primrec handle_step :: "(int set \<Rightarrow> int \<Rightarrow> int) \<Rightarrow> handle_call \<Rightarrow> handle_ledger \<Rightarrow> handle_ledger" where
  "handle_step dup (ConfigureHandles g mb hb sb cap) h = snd (handle_configure g mb hb sb cap h)"
| "handle_step dup (ImportFd p source first index grows handles_grow) h =
    snd (handle_import_fd p source (dup (open_fds (hl_log h)) source) first index grows handles_grow h)"
| "handle_step dup (RetainHandle x) h = snd (handle_retain x h)"
| "handle_step dup (ReleaseHandle x) h = snd (handle_release x h)"
| "handle_step dup (RevokeHandle x) h = snd (handle_revoke x h)"

text \<open>Every status has a name of its own; the default name is for values outside the enumeration.\<close>

primrec external_memory_status_string :: "external_status \<Rightarrow> string" where
  "external_memory_status_string ExtSuccess = ''success''"
| "external_memory_status_string ExtInvalidArgument = ''invalid-argument''"
| "external_memory_status_string ExtUnsupported = ''unsupported''"
| "external_memory_status_string ExtStaleGeneration = ''stale-generation''"
| "external_memory_status_string ExtNotFound = ''not-found''"
| "external_memory_status_string ExtBusy = ''busy''"
| "external_memory_status_string ExtOverlap = ''overlap''"
| "external_memory_status_string ExtIncompatibleMemoryType = ''incompatible-memory-type''"
| "external_memory_status_string ExtIncompatibleHandle = ''incompatible-handle''"
| "external_memory_status_string ExtIncompatibleSync = ''incompatible-sync''"
| "external_memory_status_string ExtOwnershipConflict = ''ownership-conflict''"
| "external_memory_status_string ExtExhausted = ''exhausted''"

lemma external_memory_status_string_inject:
  "external_memory_status_string x = external_memory_status_string y \<longleftrightarrow> x = y"
  by (cases x; cases y; simp)

section \<open>The imports\<close>

abbreviation ei_first :: "external_import \<Rightarrow> nat" where
  "ei_first x \<equiv> unat (ei_offset x)"

abbreviation ei_end :: "external_import \<Rightarrow> nat" where
  "ei_end x \<equiv> unat (ei_offset x) + unat (ei_size x)"

definition import_ok :: "external_ledger \<Rightarrow> external_import \<Rightarrow> bool" where
  "import_ok l x \<longleftrightarrow> ei_references x \<noteq> 0 \<and> ei_generation x = el_generation l \<and> ei_id x < el_next_id l \<and>
    0 < unat (ei_size x) \<and> ei_end x < 2 ^ 64 \<and> ei_offset x mod ei_alignment x = 0 \<and>
    ei_memory_type_index x < 32 \<and>
    el_memory_type_bits l AND push_bit (unat (ei_memory_type_index x)) 1 \<noteq> 0 \<and>
    el_handle_type_bits l AND handle_bit (ei_handle_type x) \<noteq> 0 \<and>
    el_sync_type_bits l AND sync_bit (ei_sync_type x) \<noteq> 0"

definition apart :: "external_import \<Rightarrow> external_import \<Rightarrow> bool" where
  "apart x y \<longleftrightarrow> ei_revoked x \<or> ei_revoked y \<or> ei_end x \<le> ei_first y \<or> ei_end y \<le> ei_first x"

definition external_inv :: "external_ledger \<Rightarrow> bool" where
  "external_inv l \<longleftrightarrow> (\<forall>x \<in> set (el_imports l). import_ok l x) \<and> distinct (map ei_id (el_imports l)) \<and>
    (\<forall>x \<in> set (el_imports l). \<forall>y \<in> set (el_imports l). ei_id x \<noteq> ei_id y \<longrightarrow> apart x y)"

lemma external_inv_update:
  assumes inv: "external_inv l" and i: "i < length (el_imports l)"
    and c: "ei_id c = ei_id (el_imports l ! i)" "ei_offset c = ei_offset (el_imports l ! i)"
      "ei_size c = ei_size (el_imports l ! i)" "ei_revoked (el_imports l ! i) \<Longrightarrow> ei_revoked c"
      "import_ok l c"
  shows "external_inv (l\<lparr>el_imports := (el_imports l)[i := c]\<rparr>)"
proof -
  have ids: "map ei_id ((el_imports l)[i := c]) = map ei_id (el_imports l)"
    using i c(1) by (simp add: map_update list_update_same_conv)
  have old: "el_imports l ! i \<in> set (el_imports l)"
    using i by simp
  have cy: "apart c y \<and> apart y c" if "y \<in> set (el_imports l)" "ei_id y \<noteq> ei_id c" for y
  proof -
    have "apart (el_imports l ! i) y"
      using inv old that c(1) by (simp add: external_inv_def)
    then show ?thesis
      using c(2-4) by (auto simp: apart_def)
  qed
  have "apart x y" if "x \<in> set ((el_imports l)[i := c])" "y \<in> set ((el_imports l)[i := c])"
    "ei_id x \<noteq> ei_id y" for x y
  proof -
    have "x = c \<or> x \<in> set (el_imports l)" "y = c \<or> y \<in> set (el_imports l)"
      using that(1,2) set_update_subset_insert [of "el_imports l" i c] by blast+
    then show ?thesis
      using cy that(3) inv by (auto simp: external_inv_def)
  qed
  moreover have "import_ok (l\<lparr>el_imports := (el_imports l)[i := c]\<rparr>) x"
    if "x \<in> set ((el_imports l)[i := c])" for x
  proof -
    have "x = c \<or> x \<in> set (el_imports l)"
      using that set_update_subset_insert [of "el_imports l" i c] by blast
    then have "import_ok l x"
      using c(5) inv by (auto simp: external_inv_def)
    then show ?thesis
      by (simp add: import_ok_def)
  qed
  moreover have "distinct (map ei_id (el_imports l))"
    using inv by (simp add: external_inv_def)
  ultimately show ?thesis
    by (simp add: external_inv_def ids)
qed

lemma find_import_Some:
  assumes "find_import x l = Some i"
  shows "i < length (el_imports l)" "same_import (el_imports l ! i) x"
  using find_index_Some [OF assms [unfolded find_import_def]] by simp_all

lemma import_ok_references:
  "import_ok l x \<Longrightarrow> n \<noteq> 0 \<Longrightarrow> import_ok l (x\<lparr>ei_references := n\<rparr>)"
  "import_ok l x \<Longrightarrow> import_ok l (x\<lparr>ei_revoked := b\<rparr>)"
  by (simp_all add: import_ok_def)

lemma external_invD:
  "external_inv l \<Longrightarrow> i < length (el_imports l) \<Longrightarrow> import_ok l (el_imports l ! i)"
  by (simp add: external_inv_def)

lemma external_retain_inv:
  assumes inv: "external_inv l"
  shows "external_inv (snd (external_retain x l))"
proof (cases "find_import x l")
  case (Some i)
  note i = find_import_Some [OF Some]
  show ?thesis
    using external_invD [OF inv i(1)] inv
    by (auto simp: external_retain_def Some Let_def import_ok_references eq_neg_iff_add_eq_0
        intro!: external_inv_update [OF inv i(1)])
qed (simp add: external_retain_def inv)

lemma external_revoke_inv:
  assumes inv: "external_inv l"
  shows "external_inv (snd (external_revoke x l))"
proof (cases "find_import x l")
  case (Some i)
  note i = find_import_Some [OF Some]
  show ?thesis
    using external_invD [OF inv i(1)]
    by (auto simp: external_revoke_def Some Let_def import_ok_references
        intro!: external_inv_update [OF inv i(1)])
qed (simp add: external_revoke_def inv)

lemma external_inv_erase:
  assumes inv: "external_inv l"
  shows "external_inv (l\<lparr>el_imports := erase_at i (el_imports l)\<rparr>)"
proof -
  have sub: "set (erase_at i (el_imports l)) \<subseteq> set (el_imports l)"
    by (auto simp: erase_at_def dest: in_set_takeD in_set_dropD)
  have "distinct (map ei_id (erase_at i (el_imports l)))"
    using inv by (simp add: external_inv_def erase_at_def take_map [symmetric] drop_map [symmetric]
        set_take_disj_set_drop_if_distinct)
  then show ?thesis
    using inv sub by (auto simp: external_inv_def import_ok_def)
qed

lemma external_release_inv:
  assumes inv: "external_inv l"
  shows "external_inv (snd (external_release x l))"
proof (cases "find_import x l")
  case (Some i)
  note i = find_import_Some [OF Some]
  show ?thesis
    using external_invD [OF inv i(1)] inv
    by (auto simp: external_release_def Some Let_def import_ok_references external_inv_erase
        intro!: external_inv_update [OF inv i(1)])
qed (simp add: external_release_def inv)

text \<open>The candidate of an import, and what its admission says of it.\<close>

lemma external_import_cases:
  obtains (refused) status l' where "external_import_step p first index grows l = ((status, None), l')"
    "status \<noteq> ExtSuccess" "l' = l \<or> el_next_id l \<noteq> -1 \<and> l' = l\<lparr>el_next_id := el_next_id l + 1\<rparr>"
  | (admitted) x where "import_error p first index l = ExtSuccess"
    "ei_id x = el_next_id l" "ei_generation x = el_generation l" "ei_offset x = first"
    "ei_size x = ep_size p" "ei_alignment x = ep_alignment p" "ei_references x = 1"
    "ei_memory_type_index x = index" "ei_handle_type x = ep_handle_type p"
    "ei_sync_type x = ep_sync_type p" "\<not> ei_revoked x"
    "external_import_step p first index grows l = ((ExtSuccess, Some x),
      l\<lparr>el_next_id := el_next_id l + 1, el_imports := el_imports l @ [x]\<rparr>)"
proof (cases "import_error p first index l = ExtSuccess \<and> grows")
  case True
  then show ?thesis
    by (intro admitted [of "\<lparr>ei_id = el_next_id l, ei_generation = el_generation l, ei_offset = first,
         ei_size = ep_size p, ei_alignment = ep_alignment p, ei_references = 1,
         ei_memory_type_index = index, ei_handle_type = ep_handle_type p,
         ei_sync_type = ep_sync_type p, ei_flags = ep_flags p, ei_permissions = ep_permissions p,
         ei_revoked = False\<rparr>"]) (simp_all add: external_import_step_def Let_def)
next
  case False
  have "import_error p first index l = ExtSuccess \<Longrightarrow> el_next_id l \<noteq> -1"
    by (auto simp: import_error_def split: if_splits)
  then show ?thesis
    using False refused by (cases "import_error p first index l = ExtSuccess")
      (auto simp: external_import_step_def Let_def)
qed

lemma import_error_Success:
  assumes "import_error p first index l = ExtSuccess"
  shows "index < 32" "el_memory_type_bits l AND push_bit (unat index) 1 \<noteq> 0"
    "el_handle_type_bits l AND handle_bit (ep_handle_type p) \<noteq> 0"
    "el_sync_type_bits l AND sync_bit (ep_sync_type p) \<noteq> 0"
    "first mod ep_alignment p = 0" "\<not> range_overflows first (ep_size p)" "el_next_id l \<noteq> -1"
    "\<forall>c \<in> set (el_imports l). ei_revoked c \<or> ei_generation c \<noteq> el_generation l \<or>
      \<not> (first < ei_offset c + ei_size c \<and> ei_offset c < first + ep_size p)"
  using assms by (auto simp: import_error_def list_ex_iff not_le split: if_splits)

lemma import_ok_next:
  assumes "import_ok l x" "el_next_id l \<noteq> -1"
  shows "import_ok (l\<lparr>el_next_id := el_next_id l + 1, el_imports := xs\<rparr>) x"
    "import_ok (l\<lparr>el_next_id := el_next_id l + 1\<rparr>) x"
  using assms order_less_trans [OF _ u64_Suc [OF assms(2)]] by (simp_all add: import_ok_def)

lemma external_import_inv:
  assumes inv: "external_inv l"
  shows "external_inv (snd (external_import_step p first index grows l))"
proof (cases rule: external_import_cases [of p first index grows l])
  case (refused status l')
  then show ?thesis
    using inv import_ok_next(2) [of l] by (auto simp: external_inv_def)
next
  case (admitted x)
  note e = import_error_Success [OF admitted(1)]
  have fit: "0 < unat (ep_size p)" "unat first + unat (ep_size p) < 2 ^ 64"
    using e(6) unsigned_less [of "ep_size p", where ?'a = nat]
    by (auto simp: range_overflows_def unat_gt_0 word_less_nat_alt unat_max_minus)
  define l' where "l' = snd (external_import_step p first index grows l)"
  have l': "l' = l\<lparr>el_next_id := el_next_id l + 1, el_imports := el_imports l @ [x]\<rparr>"
    by (simp add: l'_def admitted(12))
  have less: "el_next_id l < el_next_id l + 1"
    by (rule u64_Suc [OF e(7)])
  have new: "import_ok l' x"
    using e fit less by (simp add: import_ok_def l' admitted(2-11))
  have old: "import_ok l' y" if "y \<in> set (el_imports l)" for y
    unfolding l' using inv that e(7) by (intro import_ok_next) (simp_all add: external_inv_def)
  have fresh: "ei_id x \<notin> ei_id ` set (el_imports l)"
    using inv by (auto simp: external_inv_def import_ok_def admitted(2))
  have "apart x y \<and> apart y x" if y: "y \<in> set (el_imports l)" for y
  proof -
    have ok: "ei_end y < 2 ^ 64" "ei_generation y = el_generation l"
      using inv y by (simp_all add: external_inv_def import_ok_def)
    have "unat (ei_offset y + ei_size y) = ei_end y"
        "unat (first + ep_size p) = unat first + unat (ep_size p)"
      using ok(1) fit(2) by (simp_all add: unat_word_ariths(1))
    then show ?thesis
      using e(8) y ok(2) by (auto simp: apart_def admitted(4,5) word_less_nat_alt not_less)
  qed
  then have "external_inv l'"
    using inv new old fresh by (auto simp: external_inv_def l')
  then show ?thesis
    by (simp add: l'_def)
qed

lemma external_configure_inv:
  "external_inv l \<Longrightarrow> external_inv (snd (external_configure g mb hb sb cap l))"
  by (auto simp: external_configure_def) (simp add: external_inv_def)

lemma empty_external_inv [simp]: "external_inv empty_external"
  by (simp add: external_inv_def empty_external_def)

lemma external_step_inv: "external_inv l \<Longrightarrow> external_inv (external_step c l)"
  by (cases c) (simp_all add: external_configure_inv external_import_inv external_retain_inv
      external_release_inv external_revoke_inv)

interpretation external: invariant_component external_step external_inv
  by unfold_locales (rule external_step_inv)

abbreviation reachable_external :: "external_call list \<Rightarrow> external_ledger" where
  "reachable_external calls \<equiv> run_ops external_step calls empty_external"

lemma reachable_external_inv: "external_inv (reachable_external calls)"
  by (rule external.run_inv) simp

section \<open>The descriptors\<close>

text \<open>A log in which nothing is opened twice without a close, and nothing closed that is not open.\<close>

definition event_ok :: "fd_event \<Rightarrow> int set \<Rightarrow> bool" where
  "event_ok e fds = (case e of FdDuplicated fd \<Rightarrow> fd \<notin> fds | FdClosed fd \<Rightarrow> fd \<in> fds)"

definition log_balanced :: "fd_event list \<Rightarrow> bool" where
  "log_balanced log \<longleftrightarrow> (\<forall>n < length log. event_ok (log ! n) (open_fds (take n log)))"

lemma open_fds_simps [simp]:
  "open_fds [] = {}"
  "open_fds (log @ [FdDuplicated fd]) = insert fd (open_fds log)"
  "open_fds (log @ [FdClosed fd]) = open_fds log - {fd}"
  by (simp_all add: open_fds_def)

lemma log_balanced_simps [simp]:
  "log_balanced []"
  "log_balanced (log @ [e]) \<longleftrightarrow> log_balanced log \<and> event_ok e (open_fds log)"
  by (auto simp: log_balanced_def less_Suc_eq nth_append)

abbreviation handles_match :: "handle_import list \<Rightarrow> external_import list \<Rightarrow> bool" where
  "handles_match \<equiv> list_all2 (\<lambda>x i. same_import (hi_allocation x) i)"

definition handle_inv :: "handle_ledger \<Rightarrow> bool" where
  "handle_inv h \<longleftrightarrow> external_inv (hl_ledger h) \<and> handles_match (hl_handles h) (el_imports (hl_ledger h)) \<and>
    distinct (map hi_owned_fd (hl_handles h)) \<and> (\<forall>x \<in> set (hl_handles h). 0 \<le> hi_owned_fd x) \<and>
    open_fds (hl_log h) = hi_owned_fd ` set (hl_handles h) \<and> log_balanced (hl_log h)"

lemma same_import_simps:
  "same_import x x" "same_import x y \<Longrightarrow> same_import y x"
  "same_import x y \<Longrightarrow> same_import y z \<Longrightarrow> same_import x z"
  "same_import x (y\<lparr>ei_references := n\<rparr>) \<longleftrightarrow> same_import x y"
  "same_import x (y\<lparr>ei_revoked := b\<rparr>) \<longleftrightarrow> same_import x y"
  by (simp_all add: same_import_def)

lemma find_import_unique:
  assumes inv: "external_inv l" and i: "i < length (el_imports l)" "same_import (el_imports l ! i) x"
  shows "find_import x l = Some i"
  unfolding find_import_def
proof (rule find_index_unique [OF i(1)])
  fix j
  assume j: "j < length (el_imports l)" "same_import (el_imports l ! j) x"
  then have "ei_id (el_imports l ! j) = ei_id (el_imports l ! i)"
    using i(2) by (simp add: same_import_def)
  then show "j = i"
    using inv i(1) j(1) by (auto simp: external_inv_def distinct_conv_nth)
qed (rule i(2))

lemma find_handle_import:
  assumes inv: "handle_inv h" and f: "find_handle x h = Some i"
  shows "i < length (hl_handles h)" "length (hl_handles h) = length (el_imports (hl_ledger h))"
    "find_import (hi_allocation x) (hl_ledger h) = Some i"
    "import_ok (hl_ledger h) (el_imports (hl_ledger h) ! i)"
proof -
  have i: "i < length (hl_handles h)" "same_import (hi_allocation (hl_handles h ! i)) (hi_allocation x)"
    using find_index_Some [OF f [unfolded find_handle_def]] by simp_all
  then show "i < length (hl_handles h)"
    by simp
  have m: "handles_match (hl_handles h) (el_imports (hl_ledger h))" and l: "external_inv (hl_ledger h)"
    using inv by (simp_all add: handle_inv_def)
  then show len: "length (hl_handles h) = length (el_imports (hl_ledger h))"
    by (simp add: list_all2_lengthD)
  have "same_import (el_imports (hl_ledger h) ! i) (hi_allocation x)"
    using list_all2_nthD [OF m i(1)] i(2) same_import_simps(2,3) by blast
  then show "find_import (hi_allocation x) (hl_ledger h) = Some i"
    using find_import_unique [OF l] i(1) len by simp
  show "import_ok (hl_ledger h) (el_imports (hl_ledger h) ! i)"
    using external_invD [OF l] i(1) len by simp
qed

lemma handles_match_update:
  assumes "handles_match hs xs" "i < length xs" "\<And>x. same_import x c \<longleftrightarrow> same_import x (xs ! i)"
  shows "handles_match hs (xs[i := c])"
  using assms by (auto simp: list_all2_conv_all_nth nth_list_update)

lemma handles_match_erase:
  assumes "handles_match hs xs"
  shows "handles_match (erase_at i hs) (erase_at i xs)"
  using assms by (simp add: erase_at_def list_all2_appendI)

lemma counted_imports_match:
  assumes m: "handles_match hs (el_imports l)"
  shows "handles_match hs (el_imports (snd (external_retain x l)))"
    "handles_match hs (el_imports (snd (external_revoke x l)))"
proof -
  have "handles_match hs (el_imports (snd (external_retain x l))) \<and>
      handles_match hs (el_imports (snd (external_revoke x l)))"
  proof (cases "find_import x l")
    case (Some i)
    note up = handles_match_update [OF m find_import_Some(1) [OF Some]]
    show ?thesis
      using m up [of "(el_imports l ! i)\<lparr>ei_references := ei_references (el_imports l ! i) + 1\<rparr>"]
        up [of "(el_imports l ! i)\<lparr>ei_revoked := True\<rparr>"]
      by (simp add: external_retain_def external_revoke_def Some Let_def same_import_simps(4,5))
  qed (simp add: external_retain_def external_revoke_def m)
  then show "handles_match hs (el_imports (snd (external_retain x l)))"
    "handles_match hs (el_imports (snd (external_revoke x l)))"
    by simp_all
qed

lemma handle_counts_inv:
  assumes inv: "handle_inv h"
  shows "handle_inv (snd (handle_retain x h))" "handle_inv (snd (handle_revoke x h))"
  using inv counted_imports_match [of "hl_handles h" "hl_ledger h" "hi_allocation x"]
  by (simp_all add: handle_retain_def handle_revoke_def case_prod_beta handle_inv_def
      external_retain_inv external_revoke_inv split: option.splits)

text \<open>The last reference removes the import, every other one keeps its place.\<close>

lemma external_release_cases:
  assumes inv: "external_inv l" and f: "find_import x l = Some i"
  obtains (dropped) "external_release x l = (ExtSuccess, l\<lparr>el_imports := erase_at i (el_imports l)\<rparr>)"
  | (kept) c where "same_import c (el_imports l ! i)" "same_import (el_imports l ! i) c"
    "external_release x l = (ExtSuccess, l\<lparr>el_imports := (el_imports l)[i := c]\<rparr>)"
proof (cases "ei_references (el_imports l ! i) - 1 = 0")
  case True
  have "ei_references (el_imports l ! i) \<noteq> 0"
    using external_invD [OF inv find_import_Some(1) [OF f]] by (simp add: import_ok_def)
  then show ?thesis
    using True dropped by (simp add: external_release_def f Let_def)
next
  case False
  have "ei_references (el_imports l ! i) \<noteq> 0"
    using external_invD [OF inv find_import_Some(1) [OF f]] by (simp add: import_ok_def)
  then show ?thesis
    using False kept [of "(el_imports l ! i)\<lparr>ei_references := ei_references (el_imports l ! i) - 1\<rparr>"]
    by (simp add: external_release_def f Let_def same_import_def)
qed

lemma erase_at_length: "i < length xs \<Longrightarrow> length (erase_at i xs) < length xs"
  by (simp add: erase_at_def)

lemma erase_at_map_set:
  assumes "distinct (map f xs)" "i < length xs"
  shows "distinct (map f (erase_at i xs))" "f ` set (erase_at i xs) = f ` set xs - {f (xs ! i)}"
proof -
  have s: "map f xs = map f (take i xs) @ f (xs ! i) # map f (drop (Suc i) xs)"
    using id_take_nth_drop [OF assms(2)] by (metis list.simps(9) map_append)
  then have d: "distinct (map f (take i xs) @ f (xs ! i) # map f (drop (Suc i) xs))"
    using assms(1) by simp
  then show "distinct (map f (erase_at i xs))"
    by (auto simp: erase_at_def)
  have "f ` set xs = insert (f (xs ! i)) (f ` set (take i xs) \<union> f ` set (drop (Suc i) xs))"
    using arg_cong [OF s, of set] by auto
  then show "f ` set (erase_at i xs) = f ` set xs - {f (xs ! i)}"
    using d by (auto simp: erase_at_def)
qed

lemma handle_release_inv:
  assumes inv: "handle_inv h"
  shows "handle_inv (snd (handle_release x h))"
proof (cases "find_handle x h")
  case (Some i)
  note f = find_handle_import [OF inv Some]
  have l: "external_inv (hl_ledger h)"
    and m: "handles_match (hl_handles h) (el_imports (hl_ledger h))"
    and fds: "distinct (map hi_owned_fd (hl_handles h))" "0 \<le> hi_owned_fd (hl_handles h ! i)"
      "open_fds (hl_log h) = hi_owned_fd ` set (hl_handles h)" "log_balanced (hl_log h)"
    using inv f(1) by (simp_all add: handle_inv_def)
  have l': "external_inv (snd (external_release (hi_allocation x) (hl_ledger h)))"
    by (rule external_release_inv [OF l])
  show ?thesis
    using l f(3)
  proof (cases rule: external_release_cases [of "hl_ledger h" "hi_allocation x" i])
    case dropped
    have "set (erase_at i (hl_handles h)) \<subseteq> set (hl_handles h)"
      by (auto simp: erase_at_def dest: in_set_takeD in_set_dropD)
    then show ?thesis
      using inv l' dropped f(1,2) fds erase_at_map_set [OF fds(1) f(1)] handles_match_erase [OF m, of i]
        erase_at_length [of i "el_imports (hl_ledger h)"]
      by (auto simp: handle_release_def Some handle_inv_def close_fd_def log_event_def event_ok_def)
  next
    case (kept c)
    have "handles_match (hl_handles h) ((el_imports (hl_ledger h))[i := c])"
      using f(1,2) kept(1,2) by (intro handles_match_update [OF m]) (auto intro: same_import_simps(3))
    then show ?thesis
      using inv l' kept by (simp add: handle_release_def Some handle_inv_def)
  qed
qed (simp add: handle_release_def inv)

lemma handle_configure_inv:
  assumes inv: "handle_inv h"
  shows "handle_inv (snd (handle_configure g mb hb sb cap h))"
proof (cases "fst (external_configure g mb hb sb cap (hl_ledger h)) = ExtSuccess")
  case True
  have "el_imports (hl_ledger h) = []"
  proof (rule ccontr)
    assume "el_imports (hl_ledger h) \<noteq> []"
    then have "import_ok (hl_ledger h) (el_imports (hl_ledger h) ! 0)"
      using inv by (intro external_invD) (auto simp: handle_inv_def)
    then have "list_ex (\<lambda>i. ei_references i \<noteq> 0) (el_imports (hl_ledger h))"
      using \<open>el_imports (hl_ledger h) \<noteq> []\<close> by (auto simp: list_ex_iff import_ok_def intro!: bexI)
    then show False
      using True by (auto simp: external_configure_def split: if_splits)
  qed
  then have "hl_handles h = []"
    using inv by (auto simp: handle_inv_def)
  then show ?thesis
    using inv True external_configure_inv [of "hl_ledger h" g mb hb sb cap]
    by (auto simp: handle_configure_def handle_inv_def external_configure_def case_prod_beta
        split: if_splits)
next
  case False
  then have "snd (external_configure g mb hb sb cap (hl_ledger h)) = hl_ledger h"
    by (auto simp: external_configure_def split: if_splits)
  then show ?thesis
    using inv False by (simp add: handle_configure_def case_prod_beta)
qed

lemma external_release_new:
  assumes inv: "external_inv l"
    and x: "el_imports l = xs @ [x]" "ei_references x = 1"
  shows "external_release x l = (ExtSuccess, l\<lparr>el_imports := xs\<rparr>)"
proof -
  have "find_import x l = Some (length xs)"
    using x by (intro find_import_unique [OF inv]) (simp_all add: same_import_simps(1))
  then show ?thesis
    using x by (simp add: external_release_def Let_def erase_at_def)
qed

lemma opened_and_closed:
  assumes inv: "handle_inv h" and o: "0 \<le> owned" "owned \<notin> open_fds (hl_log h)"
    and l: "external_inv l" "el_imports l = el_imports (hl_ledger h)"
  shows "handle_inv (close_fd owned ((log_event (FdDuplicated owned) h)\<lparr>hl_ledger := l\<rparr>))"
proof -
  have "open_fds (hl_log h @ [FdDuplicated owned, FdClosed owned]) = open_fds (hl_log h)"
    using open_fds_simps(3) [of "hl_log h @ [FdDuplicated owned]" owned] o(2) by simp
  moreover have "log_balanced (hl_log h @ [FdDuplicated owned, FdClosed owned]) \<longleftrightarrow>
      log_balanced (hl_log h)"
    using log_balanced_simps(2) [of "hl_log h @ [FdDuplicated owned]" "FdClosed owned"] o(2)
    by (simp add: event_ok_def)
  ultimately show ?thesis
    using inv o l by (simp add: handle_inv_def close_fd_def log_event_def)
qed

lemma handle_import_inv:
  assumes inv: "handle_inv h" and fresh: "0 \<le> owned \<Longrightarrow> owned \<notin> open_fds (hl_log h)"
  shows "handle_inv (snd (handle_import_fd p source owned first index grows handles_grow h))"
proof (cases "source < 0 \<or> owned < 0")
  case True
  then show ?thesis
    using inv by (auto simp: handle_import_fd_def)
next
  case False
  then have o: "0 \<le> owned" "owned \<notin> open_fds (hl_log h)"
    using fresh by simp_all
  have l: "external_inv (hl_ledger h)"
    using inv by (simp add: handle_inv_def)
  have l': "external_inv (snd (external_import_step p first index grows (hl_ledger h)))"
    by (rule external_import_inv [OF l])
  have led: "hl_ledger (log_event e h) = hl_ledger h" for e
    by (simp add: log_event_def)
  show ?thesis
  proof (cases rule: external_import_cases [of p first index grows "hl_ledger h"])
    case (refused status k)
    have "el_imports k = el_imports (hl_ledger h)"
      using refused(3) by auto
    then show ?thesis
      using False opened_and_closed [OF inv o] l' refused(1) by (simp add: handle_import_fd_def led)
  next
    case (admitted x)
    define k where "k = (hl_ledger h)\<lparr>el_next_id := el_next_id (hl_ledger h) + 1,
      el_imports := el_imports (hl_ledger h) @ [x]\<rparr>"
    have k: "external_inv k" "external_import_step p first index grows (hl_ledger h) = ((ExtSuccess, Some x), k)"
      using l' admitted(12) by (simp_all add: k_def)
    show ?thesis
    proof (cases handles_grow)
      case True
      then show ?thesis
        using False inv o k
        by (auto simp: handle_import_fd_def led handle_inv_def log_event_def event_ok_def k_def Let_def
            same_import_simps(1) list_all2_appendI image_iff)
    next
      case grow: False
      have rel: "external_release x k = (ExtSuccess, k\<lparr>el_imports := el_imports (hl_ledger h)\<rparr>)"
        by (rule external_release_new [OF k(1)]) (simp_all add: k_def admitted(7))
      have "external_inv (k\<lparr>el_imports := el_imports (hl_ledger h)\<rparr>)"
        using external_release_inv [OF k(1), of x] by (simp add: rel)
      then show ?thesis
        using False grow opened_and_closed [OF inv o] by (simp add: handle_import_fd_def led k(2) rel)
    qed
  qed
qed

lemma handle_step_inv:
  "handle_inv h \<Longrightarrow> dup_contract dup \<Longrightarrow> handle_inv (handle_step dup c h)"
  by (cases c) (simp_all add: handle_configure_inv handle_counts_inv handle_release_inv
      handle_import_inv dup_contract_def)

interpretation handles: invariant_component "handle_step dup" "\<lambda>h. dup_contract dup \<longrightarrow> handle_inv h"
  for dup
  by unfold_locales (blast intro: handle_step_inv)

lemma empty_handles_inv [simp]: "handle_inv empty_handles"
  by (simp add: handle_inv_def empty_handles_def) (simp add: empty_external_def)

abbreviation reachable_handles ::
  "(int set \<Rightarrow> int \<Rightarrow> int) \<Rightarrow> handle_call list \<Rightarrow> handle_ledger" where
  "reachable_handles dup calls \<equiv> run_ops (handle_step dup) calls empty_handles"

lemma reachable_handles_inv: "dup_contract dup \<Longrightarrow> handle_inv (reachable_handles dup calls)"
  using handles.run_inv [of dup empty_handles calls] by simp

lemma close_all_fds:
  assumes "distinct (map hi_owned_fd xs)" "\<forall>x \<in> set xs. 0 \<le> hi_owned_fd x"
    "open_fds (hl_log h) = hi_owned_fd ` set xs" "log_balanced (hl_log h)"
  shows "open_fds (hl_log (fold (\<lambda>x. close_fd (hi_owned_fd x)) xs h)) = {} \<and>
    log_balanced (hl_log (fold (\<lambda>x. close_fd (hi_owned_fd x)) xs h))"
  using assms
proof (induction xs arbitrary: h)
  case (Cons x xs)
  have "open_fds (hl_log (close_fd (hi_owned_fd x) h)) = hi_owned_fd ` set xs"
    "log_balanced (hl_log (close_fd (hi_owned_fd x) h))"
    using Cons.prems by (auto simp: close_fd_def log_event_def event_ok_def)
  then show ?case
    using Cons by simp
qed simp

section \<open>What the ledgers promise\<close>

text \<open>C19. Every duplicated descriptor has one owner and is closed once. Given a system whose duplication
  never returns a descriptor that is open, after any history of calls of the handle ledger, with any
  of its allocations failing, the descriptors opened and not closed are exactly those of the handles
  it lists, each held by one handle; no descriptor was closed that was not open; and destroying the
  ledger closes all that are left. In particular no refused import, no reconfiguration and no failed
  append leaks a descriptor, and a handle is gone exactly when its import is.\<close>

theorem owned_descriptors_are_closed_once:
  assumes "dup_contract dup" and "h = reachable_handles dup calls"
  shows "open_fds (hl_log h) = hi_owned_fd ` set (hl_handles h) \<and>
    distinct (map hi_owned_fd (hl_handles h)) \<and> log_balanced (hl_log h) \<and>
    list_all2 (\<lambda>x i. same_import (hi_allocation x) i) (hl_handles h) (el_imports (hl_ledger h)) \<and>
    open_fds (hl_log (handle_destroy h)) = {} \<and> log_balanced (hl_log (handle_destroy h))"
proof -
  have inv: "handle_inv h"
    unfolding assms(2) by (rule reachable_handles_inv [OF assms(1)])
  then show ?thesis
    using close_all_fds [of "hl_handles h" h] by (simp add: handle_inv_def handle_destroy_def)
qed

definition lowest_free :: "int set \<Rightarrow> int \<Rightarrow> int" where
  "lowest_free fds source = (if source < 0 \<or> 9 \<in> fds then -1 else 9)"

definition sample_external :: external_profile where
  "sample_external = \<lparr>ep_struct_size = 96, ep_abi_version = 0, ep_tier = 1, ep_handle_type = 1,
    ep_sync_type = 1, ep_flags = 8, ep_memory_type_bits = 2, ep_size = 64, ep_alignment = 64,
    ep_generation = 3, ep_permissions = 0\<rparr>"

definition sample_handle_calls :: "handle_call list" where
  "sample_handle_calls = [ConfigureHandles 3 2 1 1 0, ImportFd sample_external 4 64 0 True True,
    ImportFd sample_external 4 64 1 True True]"

theorem owned_descriptors_are_closed_once_witness:
  "hl_log (reachable_handles lowest_free sample_handle_calls) =
      [FdDuplicated 9, FdClosed 9, FdDuplicated 9] \<and>
    open_fds (hl_log (handle_destroy (reachable_handles lowest_free sample_handle_calls))) = {}"
proof -
  have "dup_contract lowest_free"
    by (simp add: dup_contract_def lowest_free_def)
  moreover have "hl_log (reachable_handles lowest_free sample_handle_calls) =
      [FdDuplicated 9, FdClosed 9, FdDuplicated 9]"
    by code_simp
  ultimately show ?thesis
    using owned_descriptors_are_closed_once [OF _ refl] by blast
qed

text \<open>C39. Admitted imports are compatible and do not overlap. In every reachable ledger each import is
  aligned as its profile asks, does not wrap around the address space, uses a memory type, a handle
  type and a synchronisation type the ledger was configured for, has at least one reference, and
  shares no byte with any other import unless one of the two is revoked.\<close>

theorem admitted_imports_do_not_overlap:
  assumes "l = reachable_external calls" and "x \<in> set (el_imports l)"
  shows "ei_offset x mod ei_alignment x = 0 \<and> 0 < unat (ei_size x) \<and>
    unat (ei_offset x) + unat (ei_size x) < 2 ^ 64 \<and> ei_references x \<noteq> 0 \<and>
    el_memory_type_bits l AND push_bit (unat (ei_memory_type_index x)) 1 \<noteq> 0 \<and>
    el_handle_type_bits l AND handle_bit (ei_handle_type x) \<noteq> 0 \<and>
    el_sync_type_bits l AND sync_bit (ei_sync_type x) \<noteq> 0 \<and>
    (\<forall>y \<in> set (el_imports l). y = x \<or> ei_revoked x \<or> ei_revoked y \<or>
      unat (ei_offset x) + unat (ei_size x) \<le> unat (ei_offset y) \<or>
      unat (ei_offset y) + unat (ei_size y) \<le> unat (ei_offset x))"
proof -
  have inv: "external_inv l"
    unfolding assms(1) by (rule reachable_external_inv)
  have ok: "import_ok l x"
    using inv assms(2) by (simp add: external_inv_def)
  have ids: "y = x" if "y \<in> set (el_imports l)" "ei_id y = ei_id x" for y
    using inv that assms(2) by (auto simp: external_inv_def distinct_map inj_on_def)
  have "y = x \<or> apart x y" if "y \<in> set (el_imports l)" for y
    using inv that assms(2) ids [OF that] unfolding external_inv_def by metis
  then show ?thesis
    using ok by (auto simp: import_ok_def apart_def)
qed

definition sample_imports :: "external_call list" where
  "sample_imports = [ConfigureExternal 3 2 1 1 0, ImportExternal sample_external 64 1 True,
    ImportExternal sample_external 128 1 True]"

theorem admitted_imports_do_not_overlap_witness:
  "length (el_imports (reachable_external sample_imports)) = 2 \<and>
    ei_references (el_imports (reachable_external sample_imports) ! 0) \<noteq> 0"
proof -
  have two: "length (el_imports (reachable_external sample_imports)) = 2"
    by code_simp
  then have "el_imports (reachable_external sample_imports) ! 0 \<in>
      set (el_imports (reachable_external sample_imports))"
    by simp
  with admitted_imports_do_not_overlap [OF refl this] two show ?thesis
    by blast
qed

end
